(* ===== verification/Go_Prelude.thy ===== *)
theory Go_Prelude
  imports Main "HOL-Library.Word" "HOL-Library.Sublist" "HOL-Library.Multiset"
begin

text \<open>
  Prelude: the parts of the Go language and its standard library that the modelled
  packages use. Machine integers are words (\<open>int32\<close>, \<open>int64\<close>, \<open>uint64\<close>), an error is
  its message, a fallible call returns \<open>go_error + 'a\<close>, a \<open>time.Time\<close> is the number of
  nanoseconds since January 1 of year 1 (UTC, so that Go's zero time is 0), and a string
  is the list of its bytes. The functions of \<open>strings\<close> are given on ASCII text: bytes
  above 127 are left alone by the case mapping and are never white space.
\<close>

named_theorems go_simps \<open>evaluation of the modelled standard library\<close>
named_theorems invs \<open>preservation of component invariants\<close>

section \<open>Types\<close>

type_synonym int32 = "32 word"
type_synonym int64 = "64 word"
type_synonym uint64 = "64 word"
type_synonym go_error = string
type_synonym 'a result = "go_error + 'a"
type_synonym go_time = int
type_synonym duration = int

abbreviation Ok :: "'a \<Rightarrow> 'a result" where "Ok \<equiv> Inr"
abbreviation Err :: "go_error \<Rightarrow> 'a result" where "Err \<equiv> Inl"

definition is_ok :: "'a result \<Rightarrow> bool" where
  "is_ok r = (case r of Inl _ \<Rightarrow> False | Inr _ \<Rightarrow> True)"

lemma is_ok_simps [simp]: "is_ok (Inr x)" "\<not> is_ok (Inl e)"
  by (simp_all add: is_ok_def)

lemma is_okE: "is_ok r \<Longrightarrow> (\<And>x. r = Inr x \<Longrightarrow> P) \<Longrightarrow> P"
  by (cases r) auto

section \<open>Time\<close>

abbreviation max_duration :: int where "max_duration \<equiv> 9223372036854775807"
abbreviation min_duration :: int where "min_duration \<equiv> - 9223372036854775808"
abbreviation second :: duration where "second \<equiv> 1000000000"

text \<open>\<open>Time.Sub\<close> saturates at the bounds of a 64-bit duration.\<close>

definition time_Sub :: "go_time \<Rightarrow> go_time \<Rightarrow> duration" where
  "time_Sub t u = max min_duration (min max_duration (t - u))"

lemma time_Sub_less_iff: "d \<le> max_duration \<Longrightarrow> min_duration < d \<Longrightarrow> time_Sub t u < d \<longleftrightarrow> t - u < d"
  by (auto simp: time_Sub_def)

lemma time_Sub_greater_iff: "min_duration \<le> d \<Longrightarrow> d < max_duration \<Longrightarrow> d < time_Sub t u \<longleftrightarrow> d < t - u"
  by (auto simp: time_Sub_def)

lemma time_Sub_mono: "t \<le> t' \<Longrightarrow> time_Sub t u \<le> time_Sub t' u"
  by (auto simp: time_Sub_def)

lemma time_Sub_same [simp]: "time_Sub t t = 0"
  by (simp add: time_Sub_def)

definition time_IsZero :: "go_time \<Rightarrow> bool" where
  "time_IsZero t \<longleftrightarrow> t = 0"

abbreviation unix_epoch_seconds :: int where "unix_epoch_seconds \<equiv> 62135596800"

definition time_Unix_seconds :: "go_time \<Rightarrow> int" where
  "time_Unix_seconds t = t div second - unix_epoch_seconds"

definition time_of_Unix :: "int \<Rightarrow> go_time" where
  "time_of_Unix s = (s + unix_epoch_seconds) * second"

lemma time_Unix_roundtrip: "time_Unix_seconds (time_of_Unix s) = s"
  by (simp add: time_Unix_seconds_def time_of_Unix_def)

section \<open>Integers in decimal\<close>

definition digit :: "nat \<Rightarrow> char" where
  "digit d = char_of (48 + d)"

fun show_nat :: "nat \<Rightarrow> string" where
  "show_nat n = (if n < 10 then [digit n] else show_nat (n div 10) @ [digit (n mod 10)])"

declare show_nat.simps [simp del]

definition show_int :: "int \<Rightarrow> string" where
  "show_int i = (if i < 0 then CHR ''-'' # show_nat (nat (- i)) else show_nat (nat i))"

definition digit_val :: "char \<Rightarrow> nat" where
  "digit_val c = of_char c - 48"

definition read_nat :: "string \<Rightarrow> nat" where
  "read_nat s = foldl (\<lambda>n c. 10 * n + digit_val c) 0 s"

definition is_digit :: "char \<Rightarrow> bool" where
  "is_digit c \<longleftrightarrow> 48 \<le> (of_char c :: nat) \<and> (of_char c :: nat) \<le> 57"

lemma of_char_digit: "d < 10 \<Longrightarrow> of_char (digit d) = 48 + d"
  by (simp add: digit_def)

lemma digit_val_digit: "d < 10 \<Longrightarrow> digit_val (digit d) = d"
  by (simp add: digit_val_def of_char_digit)

lemma is_digit_digit: "d < 10 \<Longrightarrow> is_digit (digit d)"
  by (simp add: is_digit_def of_char_digit)

lemma show_nat_nonempty [simp]: "show_nat n \<noteq> []"
  by (subst show_nat.simps) simp

lemma show_nat_digits: "c \<in> set (show_nat n) \<Longrightarrow> is_digit c"
proof (induction n rule: show_nat.induct)
  case (1 n)
  then show ?case
    by (subst (asm) (2) show_nat.simps) (auto simp: is_digit_digit split: if_splits)
qed

lemma read_show_nat: "read_nat (show_nat n) = n"
proof (induction n rule: show_nat.induct)
  case (1 n)
  then show ?case
    by (subst show_nat.simps) (auto simp: read_nat_def digit_val_digit)
qed

lemma show_nat_inject [simp]: "show_nat m = show_nat n \<longleftrightarrow> m = n"
  by (metis read_show_nat)

lemma minus_not_digit: "\<not> is_digit (CHR ''-'')"
  by (simp add: is_digit_def)

lemma show_nat_no_minus: "CHR ''-'' # s \<noteq> show_nat n"
  by (metis list.set_intros(1) minus_not_digit show_nat_digits)

lemma show_int_inject [simp]: "show_int i = show_int j \<longleftrightarrow> i = j"
  using show_nat_no_minus show_nat_no_minus [symmetric]
  by (auto simp: show_int_def)

lemma show_int_nonempty [simp]: "show_int i \<noteq> []"
  by (simp add: show_int_def)

lemma show_int_chars: "c \<in> set (show_int i) \<Longrightarrow> is_digit c \<or> c = CHR ''-''"
  by (auto simp: show_int_def show_nat_digits split: if_splits)

lemma show_int_no_colon: "CHR '':'' \<notin> set (show_int i)"
  using show_int_chars [of "CHR '':''" i] by (auto simp: is_digit_def)

lemma sint_inject [simp]: "sint a = sint b \<longleftrightarrow> a = b"
  by (auto intro: signed_word_eqI)

section \<open>Strings\<close>

definition HasPrefix :: "string \<Rightarrow> string \<Rightarrow> bool" where
  "HasPrefix s p \<longleftrightarrow> take (length p) s = p"

fun Contains :: "string \<Rightarrow> string \<Rightarrow> bool" where
  "Contains [] sub = HasPrefix [] sub"
| "Contains (c # s) sub = (HasPrefix (c # s) sub \<or> Contains s sub)"

lemma HasPrefix_iff: "HasPrefix s p \<longleftrightarrow> (\<exists>t. s = p @ t)"
  unfolding HasPrefix_def by (metis append_eq_conv_conj append_take_drop_id)

lemma HasPrefix_Nil [simp]: "HasPrefix s []"
  by (simp add: HasPrefix_def)

lemma Contains_iff: "Contains s sub \<longleftrightarrow> (\<exists>a b. s = a @ sub @ b)"
proof (induction s)
  case Nil
  then show ?case by (auto simp: HasPrefix_iff)
next
  case step: (Cons c s)
  show ?case
  proof
    assume "Contains (c # s) sub"
    then consider "HasPrefix (c # s) sub" | "Contains s sub" by auto
    then show "\<exists>a b. c # s = a @ sub @ b"
    proof cases
      case 1
      then show ?thesis by (metis HasPrefix_iff append_Nil)
    next
      case 2
      with step obtain a b where "s = a @ sub @ b" by blast
      then have "c # s = (c # a) @ sub @ b" by simp
      then show ?thesis by blast
    qed
  next
    assume "\<exists>a b. c # s = a @ sub @ b"
    then obtain a b where ab: "c # s = a @ sub @ b" by blast
    show "Contains (c # s) sub"
    proof (cases a)
      case Nil
      with ab have "HasPrefix (c # s) sub" by (auto simp: HasPrefix_iff)
      then show ?thesis by simp
    next
      case (Cons x a')
      with ab have "s = a' @ sub @ b" by simp
      with step show ?thesis by auto
    qed
  qed
qed

lemma Contains_Nil [simp]: "Contains s []"
  by (metis Contains_iff append_Nil)

lemma Contains_sublist: "Contains s sub \<longleftrightarrow> sublist sub s"
  by (auto simp: Contains_iff sublist_def)

lemma Contains_append: "Contains s sub \<Longrightarrow> Contains (a @ s @ b) sub"
  by (meson Contains_sublist sublist_append)

definition lower_char :: "char \<Rightarrow> char" where
  "lower_char c = (let n = of_char c :: nat in if 65 \<le> n \<and> n \<le> 90 then char_of (n + 32) else c)"

definition upper_char :: "char \<Rightarrow> char" where
  "upper_char c = (let n = of_char c :: nat in if 97 \<le> n \<and> n \<le> 122 then char_of (n - 32) else c)"

definition ToLower :: "string \<Rightarrow> string" where
  "ToLower s = map lower_char s"

definition ToUpper :: "string \<Rightarrow> string" where
  "ToUpper s = map upper_char s"

lemma lower_char_idem [simp]: "lower_char (lower_char c) = lower_char c"
  by (auto simp: lower_char_def Let_def)

lemma ToLower_idem [simp]: "ToLower (ToLower s) = ToLower s"
  by (simp add: ToLower_def)

lemma ToLower_Nil [simp]: "ToLower [] = []"
  by (simp add: ToLower_def)

definition is_space :: "char \<Rightarrow> bool" where
  "is_space c \<longleftrightarrow> (let n = of_char c :: nat in 9 \<le> n \<and> n \<le> 13 \<or> n = 32)"

definition TrimSpace :: "string \<Rightarrow> string" where
  "TrimSpace s = rev (dropWhile is_space (rev (dropWhile is_space s)))"

text \<open>Hexadecimal digits, lower case.\<close>

definition hex_digit :: "nat \<Rightarrow> char" where
  "hex_digit d = (if d < 10 then char_of (48 + d) else char_of (87 + d))"

lemma of_char_hex_digit: "d < 16 \<Longrightarrow> of_char (hex_digit d) = (if d < 10 then 48 + d else 87 + d)"
  by (simp add: hex_digit_def)

definition newline :: char where
  "newline = char_of (10 :: nat)"

text \<open>\<open>strings.Split\<close> with a one-byte separator; \<open>strings.Fields\<close> of ASCII text (in other text Go also splits
  at U+0085, U+00A0 and the further Unicode blanks).\<close>

fun Split :: "char \<Rightarrow> string \<Rightarrow> string list" where
  "Split d [] = [[]]"
| "Split d (c # s) =
     (if c = d then [] # Split d s
      else case Split d s of [] \<Rightarrow> [[c]] | w # ws \<Rightarrow> (c # w) # ws)"

fun fields_from :: "string \<Rightarrow> string \<Rightarrow> string list" where
  "fields_from w [] = (if w = [] then [] else [rev w])"
| "fields_from w (c # s) =
     (if is_space c then (if w = [] then fields_from [] s else rev w # fields_from [] s)
      else fields_from (c # w) s)"

definition Fields :: "string \<Rightarrow> string list" where
  "Fields s = fields_from [] s"

text \<open>\<open>fmt\<close>'s \<open>%v\<close> of a slice of strings: the elements in brackets, separated by blanks.\<close>

fun join_with :: "string \<Rightarrow> string list \<Rightarrow> string" where
  "join_with sep [] = []"
| "join_with sep [s] = s"
| "join_with sep (s # ss) = s @ sep @ join_with sep ss"

definition show_strings :: "string list \<Rightarrow> string" where
  "show_strings ss = ''['' @ join_with '' '' ss @ '']''"

text \<open>\<open>strconv.Atoi\<close>: an optional sign and at least one digit, within 64 bits.\<close>

definition Atoi :: "string \<Rightarrow> int option" where
  "Atoi s =
     (let neg = HasPrefix s ''-'';
          body = (if neg \<or> HasPrefix s ''+'' then tl s else s);
          v = (if neg then - int (read_nat body) else int (read_nat body))
      in if body \<noteq> [] \<and> list_all is_digit body \<and> - (2 ^ 63) \<le> v \<and> v < 2 ^ 63
         then Some v else None)"

lemma Split_append [simp]: "d \<notin> set a \<Longrightarrow> Split d (a @ d # s) = a # Split d s"
  by (induction a) (auto split: list.split)

lemma Split_single: "d \<notin> set a \<Longrightarrow> Split d a = [a]"
  by (induction a) auto

text \<open>Trimming leaves a word without white space alone.\<close>

lemma dropWhile_none: "list_all (\<lambda>c. \<not> P c) s \<Longrightarrow> dropWhile P s = s"
  by (cases s) auto

lemma TrimSpace_word: "list_all (\<lambda>c. \<not> is_space c) s \<Longrightarrow> TrimSpace s = s"
  by (simp add: TrimSpace_def dropWhile_none)

lemma is_space_digit: "is_digit c \<Longrightarrow> \<not> is_space c"
  by (auto simp: is_digit_def is_space_def Let_def)

lemma TrimSpace_show_int [simp]: "TrimSpace (show_int i) = show_int i"
proof (rule TrimSpace_word)
  have "\<not> is_space (CHR ''-'')" by code_simp
  then show "list_all (\<lambda>c. \<not> is_space c) (show_int i)"
    using show_int_chars is_space_digit by (fastforce simp: list_all_iff)
qed

lemma Atoi_show_int:
  assumes "- (2 ^ 63) \<le> i" "i < 2 ^ 63"
  shows "Atoi (show_int i) = Some i"
proof (cases "i < 0")
  case True
  have "list_all is_digit (show_nat (nat (- i)))" by (simp add: list_all_iff show_nat_digits)
  with True assms show ?thesis
    by (simp add: Atoi_def show_int_def HasPrefix_def read_show_nat Let_def)
next
  case False
  have digits: "list_all is_digit (show_nat (nat i))" by (simp add: list_all_iff show_nat_digits)
  then obtain c s where cs: "show_nat (nat i) = c # s" "is_digit c" by (cases "show_nat (nat i)") auto
  then have "c \<noteq> CHR ''-''" "c \<noteq> CHR ''+''" by (auto simp: is_digit_def)
  with cs have "\<not> HasPrefix (show_nat (nat i)) ''-''" "\<not> HasPrefix (show_nat (nat i)) ''+''"
    by (simp_all add: HasPrefix_def)
  with False assms digits show ?thesis by (simp add: Atoi_def show_int_def read_show_nat Let_def)
qed

lemma set_dropWhile_subset: "set (dropWhile P xs) \<subseteq> set xs"
  by (induction xs) auto

text \<open>Reading a composed key back: at the first or the last separator.\<close>

lemma split_first_eq:
  "c \<notin> set a \<Longrightarrow> c \<notin> set a' \<Longrightarrow> a @ c # x = a' @ c # x' \<longleftrightarrow> a = a' \<and> x = x'"
proof (induction a arbitrary: a')
  case Nil
  then show ?case by (cases a') auto
next
  case (Cons b a)
  then show ?case by (cases a') auto
qed

lemma split_last_eq:
  assumes "c \<notin> set x" "c \<notin> set x'"
  shows "a @ c # x = a' @ c # x' \<longleftrightarrow> a = a' \<and> x = x'"
proof -
  have "a @ c # x = a' @ c # x' \<longleftrightarrow> rev x @ c # rev a = rev x' @ c # rev a'"
    by (metis append.assoc append_Cons append_Nil rev.simps(2) rev_append rev_rev_ident)
  then show ?thesis using split_first_eq [of c "rev x" "rev x'"] assms by auto
qed

section \<open>Lists and maps\<close>

text \<open>Removing the entries of a Go map that satisfy a test, as a \<open>range\<close> loop with
  \<open>delete\<close> does (in any iteration order).\<close>

definition map_prune :: "('v \<Rightarrow> bool) \<Rightarrow> ('k \<rightharpoonup> 'v) \<Rightarrow> ('k \<rightharpoonup> 'v)" where
  "map_prune old m = (\<lambda>k. case m k of None \<Rightarrow> None | Some v \<Rightarrow> if old v then None else Some v)"

lemma map_prune_Some [simp]: "map_prune old m k = Some v \<longleftrightarrow> m k = Some v \<and> \<not> old v"
  by (auto simp: map_prune_def split: option.splits)

lemma map_prune_None: "map_prune old m k = None \<longleftrightarrow> (\<forall>v. m k = Some v \<longrightarrow> old v)"
  by (auto simp: map_prune_def split: option.splits)

lemma dom_map_prune: "dom (map_prune old m) \<subseteq> dom m"
  by auto

lemma ran_map_prune: "ran (map_prune old m) \<subseteq> ran m"
  by (auto simp: ran_def)

section \<open>Sorting\<close>

text \<open>\<open>sort.Slice\<close> promises a permutation in which no element is less than an earlier one; it
  does not promise stability.\<close>

locale slice_sort =
  fixes less :: "'a \<Rightarrow> 'a \<Rightarrow> bool"
    and srt :: "'a list \<Rightarrow> 'a list"
  assumes permuted: "mset (srt xs) = mset xs"
    and ordered: "sorted_wrt (\<lambda>x y. \<not> less y x) (srt xs)"
begin

lemma same_set: "set (srt xs) = set xs"
  by (rule mset_eq_setD [OF permuted])

lemma same_length: "length (srt xs) = length xs"
  by (rule mset_eq_length [OF permuted])

lemma index_ordered: "i < j \<Longrightarrow> j < length xs \<Longrightarrow> \<not> less (srt xs ! j) (srt xs ! i)"
  using sorted_wrt_nth_less [OF ordered] by (simp add: same_length)

end

interpretation by_key: slice_sort "\<lambda>x y. key x < key y" "sort_key key" for key :: "'a \<Rightarrow> 'k::linorder"
proof
  fix xs
  show "mset (sort_key key xs) = mset xs" by simp
  show "sorted_wrt (\<lambda>x y. \<not> key y < key x) (sort_key key xs)"
    using sorted_sort_key [of key xs] by (simp add: sorted_map sorted_wrt_mono_rel not_less)
qed

end
