(* ===== verification/Float64.thy ===== *)
theory Float64
  imports Go_Prelude "HOL-Library.Log_Nat"
begin

text \<open>
  Go's \<open>float64\<close> on finite values. A value is a rational; every arithmetic operation of
  the code is the exact operation followed by \<open>rnd64\<close>, IEEE 754 rounding to nearest,
  ties to even, with 53 significant bits and gradual underflow at exponent -1074.
  Overflow, infinities, NaN and the sign of zero are left out: no modelled computation
  leaves the finite range. Fused multiply-add, which Go may emit on some processors, is
  not modelled.
\<close>

type_synonym f64 = rat

section \<open>Rounding\<close>

definition round_even :: "rat \<Rightarrow> int" where
  "round_even y =
     (let f = \<lfloor>y\<rfloor>; d = y - of_int f
      in if d < 1 / 2 then f else if 1 / 2 < d then f + 1 else if even f then f else f + 1)"

text \<open>The binary exponent \<open>e\<close> of a positive rational: \<open>2 ^ e \<le> x < 2 ^ (e + 1)\<close>.\<close>

definition pow2 :: "int \<Rightarrow> rat" where
  "pow2 e = (if 0 \<le> e then 2 ^ nat e else 1 / 2 ^ nat (- e))"

definition ilog2 :: "rat \<Rightarrow> int" where
  "ilog2 x =
     (let k = bitlen (fst (quotient_of x)) - bitlen (snd (quotient_of x))
      in if pow2 k \<le> x then k else k - 1)"

definition ulp_exp :: "rat \<Rightarrow> int" where
  "ulp_exp x = max (ilog2 x - 52) (- 1074)"

definition rnd_pos :: "rat \<Rightarrow> f64" where
  "rnd_pos x = of_int (round_even (x / pow2 (ulp_exp x))) * pow2 (ulp_exp x)"

definition rnd64 :: "rat \<Rightarrow> f64" where
  "rnd64 x = (if x = 0 then 0 else if 0 < x then rnd_pos x else - rnd_pos (- x))"

definition fadd :: "f64 \<Rightarrow> f64 \<Rightarrow> f64" where "fadd x y = rnd64 (x + y)"
definition fsub :: "f64 \<Rightarrow> f64 \<Rightarrow> f64" where "fsub x y = rnd64 (x - y)"
definition fmul :: "f64 \<Rightarrow> f64 \<Rightarrow> f64" where "fmul x y = rnd64 (x * y)"
definition fdiv :: "f64 \<Rightarrow> f64 \<Rightarrow> f64" where "fdiv x y = rnd64 (x / y)"

text \<open>\<open>float64(n)\<close> of an integer and \<open>int(x)\<close>, which truncates towards zero.\<close>

definition f64_of_int :: "int \<Rightarrow> f64" where "f64_of_int n = rnd64 (of_int n)"
definition int_of_f64 :: "f64 \<Rightarrow> int" where
  "int_of_f64 x = (if 0 \<le> x then \<lfloor>x\<rfloor> else - \<lfloor>- x\<rfloor>)"

section \<open>Rounding to an integer\<close>

lemma round_even_of_int [simp]: "round_even (of_int n) = n"
  by (simp add: round_even_def)

lemma round_even_bounds: "\<lfloor>y\<rfloor> \<le> round_even y \<and> round_even y \<le> \<lfloor>y\<rfloor> + 1"
  by (auto simp: round_even_def Let_def)

lemma round_even_mono:
  assumes "x \<le> y"
  shows "round_even x \<le> round_even y"
proof (cases "\<lfloor>x\<rfloor> = \<lfloor>y\<rfloor>")
  case True
  with assms show ?thesis by (auto simp: round_even_def Let_def)
next
  case False
  with assms have "\<lfloor>x\<rfloor> + 1 \<le> \<lfloor>y\<rfloor>" using floor_mono [OF assms] by linarith
  then show ?thesis using round_even_bounds [of x] round_even_bounds [of y] by linarith
qed

lemma round_even_ge: "of_int n \<le> y \<Longrightarrow> n \<le> round_even y"
  using round_even_mono [of "of_int n" y] by simp

lemma round_even_le: "y \<le> of_int n \<Longrightarrow> round_even y \<le> n"
  using round_even_mono [of y "of_int n"] by simp

section \<open>Powers of two and exponents\<close>

lemma pow2_powi: "pow2 e = 2 powi e"
  by (simp add: pow2_def power_int_def field_simps)

lemma pow2_pos [simp]: "0 < pow2 e"
  by (simp add: pow2_powi)

lemma pow2_nonneg [simp]: "0 \<le> pow2 e"
  using pow2_pos [of e] by linarith

lemma pow2_not_nonpos [simp]: "\<not> pow2 e \<le> 0" "\<not> pow2 e < 0"
  using pow2_pos [of e] by linarith+

lemma pow2_nz [simp]: "pow2 e \<noteq> 0"
  using pow2_pos [of e] by linarith

lemma pow2_add: "pow2 (a + b) = pow2 a * pow2 b"
  by (simp add: pow2_powi power_int_add)

lemma pow2_mono: "a \<le> b \<Longrightarrow> pow2 a \<le> pow2 b"
  by (simp add: pow2_powi power_int_increasing)

lemma pow2_0 [simp]: "pow2 0 = 1"
  by (simp add: pow2_def)

lemma pow2_1 [simp]: "pow2 1 = 2"
  by (simp add: pow2_def)

lemma pow2_nat: "pow2 (int n) = 2 ^ n"
  by (simp add: pow2_def)

lemma pow2_int: "0 \<le> e \<Longrightarrow> pow2 e = of_int (2 ^ nat e)"
  by (simp add: pow2_def)

lemma bitlen_rat_bounds:
  assumes "0 < p"
  shows "pow2 (bitlen p - 1) \<le> of_int p \<and> of_int p < pow2 (bitlen p)"
proof -
  have b: "2 ^ nat (bitlen p - 1) \<le> p \<and> p < 2 ^ nat (bitlen p)"
    using bitlen_bounds [OF assms] .
  have "1 \<le> bitlen p"
    using assms bitlen_nonneg [of p] bitlen_eq_zero_iff [of p] by linarith
  then have "pow2 (bitlen p - 1) = of_int (2 ^ nat (bitlen p - 1))"
    and "pow2 (bitlen p) = of_int (2 ^ nat (bitlen p))"
    by (simp_all add: pow2_int)
  with b show ?thesis by (metis of_int_le_iff of_int_less_iff)
qed

lemma ilog2_bounds:
  assumes "0 < x"
  shows "pow2 (ilog2 x) \<le> x \<and> x < pow2 (ilog2 x + 1)"
proof -
  obtain p q where pq: "quotient_of x = (p, q)" by (cases "quotient_of x")
  have q: "0 < q" using pq by (rule quotient_of_denom_pos)
  have x: "x = of_int p / of_int q" using pq by (rule quotient_of_div)
  have p: "0 < p" using assms q by (simp add: x zero_less_divide_iff)
  let ?k = "bitlen p - bitlen q"
  have P: "pow2 (bitlen p - 1) \<le> of_int p" "of_int p < pow2 (bitlen p)"
    using bitlen_rat_bounds [OF p] by auto
  have Q: "pow2 (bitlen q - 1) \<le> of_int q" "of_int q < pow2 (bitlen q)"
    using bitlen_rat_bounds [OF q] by auto
  have qr: "(0::rat) < of_int q" using q by simp
  have lo: "pow2 (?k - 1) \<le> x"
  proof -
    have "pow2 (?k - 1) * of_int q \<le> pow2 (?k - 1) * pow2 (bitlen q)"
      using Q(2) by (simp add: mult_left_mono)
    also have "\<dots> = pow2 (bitlen p - 1)" by (simp flip: pow2_add)
    also have "\<dots> \<le> of_int p" by (rule P)
    finally show ?thesis using qr by (simp add: x pos_le_divide_eq)
  qed
  have hi: "x < pow2 (?k + 1)"
  proof -
    have "of_int p < pow2 (?k + 1) * pow2 (bitlen q - 1)"
      using P(2) by (simp flip: pow2_add)
    also have "\<dots> \<le> pow2 (?k + 1) * of_int q"
      using Q(1) by (simp add: mult_left_mono)
    finally show ?thesis using qr by (simp add: x pos_divide_less_eq)
  qed
  show ?thesis using lo hi by (auto simp: ilog2_def pq Let_def)
qed

lemma ilog2_unique:
  assumes "pow2 e \<le> x" "x < pow2 (e + 1)"
  shows "ilog2 x = e"
proof -
  have "0 < x" using assms(1) pow2_pos [of e] by linarith
  note b = ilog2_bounds [OF this]
  have "\<not> ilog2 x + 1 \<le> e"
    using b assms(1) pow2_mono [of "ilog2 x + 1" e] by auto
  moreover have "\<not> e + 1 \<le> ilog2 x"
    using b assms(2) pow2_mono [of "e + 1" "ilog2 x"] by auto
  ultimately show ?thesis by linarith
qed

lemma ilog2_mono:
  assumes "0 < x" "x \<le> y"
  shows "ilog2 x \<le> ilog2 y"
proof (rule ccontr)
  assume "\<not> ilog2 x \<le> ilog2 y"
  then have "pow2 (ilog2 y + 1) \<le> pow2 (ilog2 x)" by (intro pow2_mono) simp
  with ilog2_bounds [of x] ilog2_bounds [of y] assms show False by auto
qed

section \<open>Rounding of positive values\<close>

lemma rnd_pos_ge_grid:
  assumes "ulp_exp x \<le> e" "of_int n * pow2 e \<le> x"
  shows "of_int n * pow2 e \<le> rnd_pos x"
proof -
  let ?u = "ulp_exp x"
  have eq: "of_int n * pow2 e = of_int (n * 2 ^ nat (e - ?u)) * pow2 ?u"
    using assms(1) pow2_add [of "e - ?u" ?u] by (simp add: pow2_int)
  have "of_int (n * 2 ^ nat (e - ?u)) \<le> x / pow2 ?u"
    using assms(2) unfolding eq by (simp add: pos_le_divide_eq)
  then have "n * 2 ^ nat (e - ?u) \<le> round_even (x / pow2 ?u)" by (rule round_even_ge)
  then have "(of_int (n * 2 ^ nat (e - ?u)) :: rat) \<le> of_int (round_even (x / pow2 ?u))"
    by (simp only: of_int_le_iff)
  then show ?thesis unfolding eq rnd_pos_def by (rule mult_right_mono) simp
qed

lemma rnd_pos_le_grid:
  assumes "ulp_exp x \<le> e" "x \<le> of_int n * pow2 e"
  shows "rnd_pos x \<le> of_int n * pow2 e"
proof -
  let ?u = "ulp_exp x"
  have eq: "of_int n * pow2 e = of_int (n * 2 ^ nat (e - ?u)) * pow2 ?u"
    using assms(1) pow2_add [of "e - ?u" ?u] by (simp add: pow2_int)
  have "x / pow2 ?u \<le> of_int (n * 2 ^ nat (e - ?u))"
    using assms(2) unfolding eq by (simp add: pos_divide_le_eq)
  then have "round_even (x / pow2 ?u) \<le> n * 2 ^ nat (e - ?u)" by (rule round_even_le)
  then have "(of_int (round_even (x / pow2 ?u)) :: rat) \<le> of_int (n * 2 ^ nat (e - ?u))"
    by (simp only: of_int_le_iff)
  then show ?thesis unfolding eq rnd_pos_def by (rule mult_right_mono) simp
qed

lemma ulp_exp_mono: "0 < x \<Longrightarrow> x \<le> y \<Longrightarrow> ulp_exp x \<le> ulp_exp y"
  using ilog2_mono [of x y] by (auto simp: ulp_exp_def)

lemma rnd_pos_mono:
  assumes "0 < x" "x \<le> y"
  shows "rnd_pos x \<le> rnd_pos y"
proof (cases "ulp_exp x = ulp_exp y")
  case True
  have "x / pow2 (ulp_exp x) \<le> y / pow2 (ulp_exp x)"
    using assms by (simp add: divide_right_mono)
  then show ?thesis
    unfolding rnd_pos_def True by (intro mult_right_mono) (simp_all add: round_even_mono)
next
  case False
  with assms have less: "ulp_exp x < ulp_exp y" using ulp_exp_mono by fastforce
  then have uy: "ulp_exp y = ilog2 y - 52" and le: "ilog2 x + 1 \<le> ilog2 y"
    by (auto simp: ulp_exp_def)
  let ?g = "of_int (2 ^ 52) * pow2 (ulp_exp y)"
  have g: "?g = pow2 (ilog2 y)"
    unfolding uy using pow2_add [of 52 "ilog2 y - 52"] by (simp add: pow2_int)
  have "x \<le> ?g"
    unfolding g using ilog2_bounds [of x] pow2_mono [OF le] assms(1) by linarith
  then have "rnd_pos x \<le> ?g" using less by (intro rnd_pos_le_grid) auto
  also have "\<dots> \<le> rnd_pos y"
    using ilog2_bounds [of y] assms g by (intro rnd_pos_ge_grid) auto
  finally show ?thesis .
qed

lemma rnd_pos_nonneg: "0 \<le> x \<Longrightarrow> 0 \<le> rnd_pos x"
  using rnd_pos_ge_grid [of x "ulp_exp x" 0] by simp

section \<open>The rounding function\<close>

lemma rnd64_0 [simp]: "rnd64 0 = 0"
  by (simp add: rnd64_def)

lemma rnd64_uminus [simp]: "rnd64 (- x) = - rnd64 x"
  by (simp add: rnd64_def)

lemma rnd64_nonneg: "0 \<le> x \<Longrightarrow> 0 \<le> rnd64 x"
  by (simp add: rnd64_def rnd_pos_nonneg)

lemma rnd64_nonpos: "x \<le> 0 \<Longrightarrow> rnd64 x \<le> 0"
  using rnd64_nonneg [of "- x"] by simp

lemma rnd64_mono:
  assumes "x \<le> y"
  shows "rnd64 x \<le> rnd64 y"
proof -
  consider "0 < x" | "x \<le> 0" "0 \<le> y" | "y < 0" by linarith
  then show ?thesis
  proof cases
    case 1
    with assms show ?thesis by (simp add: rnd64_def rnd_pos_mono)
  next
    case 2
    then show ?thesis using rnd64_nonpos [of x] rnd64_nonneg [of y] by linarith
  next
    case 3
    with assms rnd_pos_mono [of "- y" "- x"] show ?thesis by (simp add: rnd64_def)
  qed
qed

text \<open>Values with at most 53 significant bits are not changed.\<close>

lemma rnd_pos_exact:
  assumes "0 < m" "m < 2 ^ 53" "- 1074 \<le> e"
  shows "rnd_pos (of_int m * pow2 e) = of_int m * pow2 e"
proof -
  let ?x = "of_int m * pow2 e"
  have pos: "0 < ?x" using assms(1) by simp
  have "?x < of_int (2 ^ 53) * pow2 e"
    using assms(2) by (intro mult_strict_right_mono) (simp_all only: of_int_less_iff pow2_pos)
  also have "\<dots> = pow2 (e + 53)" using pow2_add [of 53 e] by (simp add: pow2_int add.commute)
  finally have "?x < pow2 (e + 53)" .
  then have "\<not> e + 53 \<le> ilog2 ?x"
    using ilog2_bounds [OF pos] pow2_mono [of "e + 53" "ilog2 ?x"] by auto
  then have u: "ulp_exp ?x \<le> e" using assms(3) by (simp add: ulp_exp_def)
  show ?thesis
    using rnd_pos_le_grid [OF u order_refl] rnd_pos_ge_grid [OF u order_refl] by (rule antisym)
qed

lemma rnd64_exact:
  assumes "\<bar>m\<bar> \<le> 2 ^ 53" "- 1074 \<le> e"
  shows "rnd64 (of_int m * pow2 e) = of_int m * pow2 e"
proof -
  have pos: "rnd_pos (of_int n * pow2 e) = of_int n * pow2 e" if "0 < n" "n \<le> 2 ^ 53" for n
  proof (cases "n = 2 ^ 53")
    case True
    then have "of_int n * pow2 e = of_int (2 ^ 52) * pow2 (e + 1)"
      by (simp add: pow2_add)
    then show ?thesis using rnd_pos_exact [of "2 ^ 52" "e + 1"] assms(2) by simp
  next
    case False
    with that assms(2) show ?thesis by (intro rnd_pos_exact) auto
  qed
  show ?thesis
    using assms(1) pos [of m] pos [of "- m"]
    by (auto simp: rnd64_def zero_less_mult_iff mult_less_0_iff)
qed

lemma rnd64_of_int: "\<bar>m\<bar> \<le> 2 ^ 53 \<Longrightarrow> rnd64 (of_int m) = of_int m"
  using rnd64_exact [of m 0] by simp

lemma rnd64_1 [simp]: "rnd64 1 = 1"
  using rnd64_of_int [of 1] by simp

lemma rnd_pos_significand:
  assumes "0 < x"
  shows "0 \<le> round_even (x / pow2 (ulp_exp x)) \<and> round_even (x / pow2 (ulp_exp x)) \<le> 2 ^ 53"
proof
  show "0 \<le> round_even (x / pow2 (ulp_exp x))"
    using assms by (intro round_even_ge) simp
  have "x \<le> pow2 (ilog2 x + 1)" using ilog2_bounds [OF assms] by simp
  also have "\<dots> \<le> pow2 (ulp_exp x + 53)" by (rule pow2_mono) (simp add: ulp_exp_def)
  also have "\<dots> = of_int (2 ^ 53) * pow2 (ulp_exp x)"
    using pow2_add [of 53 "ulp_exp x"] by (simp add: pow2_int add.commute)
  finally have "x / pow2 (ulp_exp x) \<le> of_int (2 ^ 53)" by (simp add: pos_divide_le_eq)
  then show "round_even (x / pow2 (ulp_exp x)) \<le> 2 ^ 53" by (rule round_even_le)
qed

lemma rnd64_idem [simp]: "rnd64 (rnd64 x) = rnd64 x"
proof -
  have pos: "rnd64 (rnd_pos y) = rnd_pos y" if "0 < y" for y
  proof -
    let ?n = "round_even (y / pow2 (ulp_exp y))"
    have "rnd64 (of_int ?n * pow2 (ulp_exp y)) = of_int ?n * pow2 (ulp_exp y)"
      using rnd_pos_significand [OF that] by (intro rnd64_exact) (auto simp: ulp_exp_def)
    then show ?thesis by (simp add: rnd_pos_def)
  qed
  consider "x = 0" | "0 < x" | "x < 0" by linarith
  then show ?thesis
    using pos [of x] pos [of "- x"] by cases (simp_all add: rnd64_def [of x])
qed

section \<open>The rounding contract\<close>

text \<open>
  What the scoring code needs of the rounding: it is monotone, keeps 0 and 1, and its
  results are not rounded again. The lemmas of the contract hold for every such rounding
  and reach the code through \<open>rnd64\<close>.
\<close>

locale rounding =
  fixes rnd :: "rat \<Rightarrow> rat"
  assumes mono: "x \<le> y \<Longrightarrow> rnd x \<le> rnd y"
    and zero: "rnd 0 = 0"
    and one: "rnd 1 = 1"
    and idem: "rnd (rnd x) = rnd x"
begin

lemma unit_closed: "0 \<le> x \<Longrightarrow> x \<le> 1 \<Longrightarrow> 0 \<le> rnd x \<and> rnd x \<le> 1"
  using mono [of 0 x] mono [of x 1] by (simp add: zero one)

lemma mult_unit_closed:
  assumes "0 \<le> x" "x \<le> 1" "0 \<le> y" "y \<le> 1"
  shows "0 \<le> rnd (x * y) \<and> rnd (x * y) \<le> 1"
  using assms by (intro unit_closed) (simp_all add: mult_le_one)

lemma compl_unit_closed: "0 \<le> x \<Longrightarrow> x \<le> 1 \<Longrightarrow> 0 \<le> rnd (1 - x) \<and> rnd (1 - x) \<le> 1"
  by (intro unit_closed) simp_all

lemma mult_shrinks:
  assumes "rnd p = p" "0 \<le> p" "c \<le> 1"
  shows "rnd (p * c) \<le> p"
  using mono [of "p * c" p] assms mult_left_le [of c p] by simp

lemma compl_antimono: "x \<le> y \<Longrightarrow> rnd (1 - y) \<le> rnd (1 - x)"
  by (rule mono) simp

end

interpretation fl: rounding rnd64
  by unfold_locales (simp_all add: rnd64_mono)

section \<open>Two decimals, as \<open>fmt\<close>'s \<open>%.2f\<close> prints them\<close>

definition fmt_2f :: "f64 \<Rightarrow> string" where
  "fmt_2f x =
     (let n = nat (round_even (\<bar>x\<bar> * 100))
      in (if x < 0 then ''-'' else []) @ show_nat (n div 100) @ ''.''
         @ [digit (n mod 100 div 10), digit (n mod 10)])"

end
