(* ===== verification/Sql_Time.thy ===== *)
theory Sql_Time
  imports Go_Prelude
begin

text \<open>
  Times in SQL statements. A column filled by \<open>CURRENT_TIMESTAMP\<close> holds the text
  \<open>YYYY-MM-DD HH:MM:SS\<close> of the instant in UTC. The driver binds a \<open>time.Time\<close> as the text of its
  \<open>String\<close> method (\<open>internal/storage\<close> sets no other format), which is the wall clock of the time's own
  location, the fraction of the second, the offset and the name of the zone. SQLite compares texts
  byte by byte. So \<open>BETWEEN\<close> and \<open><\<close> compare a UTC wall clock with a local one; the
  theory computes the texts and shows what that amounts to.
\<close>

section \<open>Decimal numbers of fixed width\<close>

fun digs :: "nat \<Rightarrow> nat \<Rightarrow> string" where
  "digs 0 n = []"
| "digs (Suc w) n = digs w (n div 10) @ [digit (n mod 10)]"

definition pad :: "nat \<Rightarrow> int \<Rightarrow> string" where
  "pad w i = (let n = nat \<bar>i\<bar>; s = (if n < 10 ^ w then digs w n else show_nat n) in if i < 0 then CHR ''-'' # s else s)"

section \<open>The order of texts\<close>

fun text_less :: "string \<Rightarrow> string \<Rightarrow> bool" where
  "text_less s [] = False"
| "text_less [] (c # t) = True"
| "text_less (b # s) (c # t) = ((of_char b :: nat) < of_char c \<or> b = c \<and> text_less s t)"

lemma text_less_irrefl [simp]: "\<not> text_less s s"
  by (induction s) simp_all

lemma text_less_asym: "text_less s t \<Longrightarrow> \<not> text_less t s"
  by (induction s t rule: text_less.induct) auto

lemma text_less_append:
  "length s = length t \<Longrightarrow> text_less (s @ u) (t @ v) \<longleftrightarrow> text_less s t \<or> s = t \<and> text_less u v"
  by (induction s t rule: list_induct2) auto

lemma text_less_Nil [simp]: "text_less [] s \<longleftrightarrow> s \<noteq> []"
  by (cases s) simp_all

text \<open>A function into texts that grows strictly reflects the order.\<close>

lemma text_less_iff:
  fixes f :: "'a::linorder \<Rightarrow> string"
  assumes mono: "\<And>x y. x \<in> A \<Longrightarrow> y \<in> A \<Longrightarrow> x < y \<Longrightarrow> text_less (f x) (f y)" and xy: "x \<in> A" "y \<in> A"
  shows "text_less (f x) (f y) \<longleftrightarrow> x < y" "f x = f y \<longleftrightarrow> x = y"
proof -
  consider "x < y" "text_less (f x) (f y)" | "x = y" | "y < x" "text_less (f y) (f x)"
    using mono xy by (metis linorder_less_linear)
  then have "(text_less (f x) (f y) \<longleftrightarrow> x < y) \<and> (f x = f y \<longleftrightarrow> x = y)"
    by cases (auto dest: text_less_asym)
  then show "text_less (f x) (f y) \<longleftrightarrow> x < y" "f x = f y \<longleftrightarrow> x = y" by simp_all
qed

lemma length_digs [simp]: "length (digs w n) = w"
  by (induction w arbitrary: n) simp_all

lemma digs_less: "m < n \<Longrightarrow> n < 10 ^ w \<Longrightarrow> text_less (digs w m) (digs w n)"
proof (induction w arbitrary: m n)
  case (Suc w)
  have digit: "text_less [digit (m mod 10)] [digit (n mod 10)] \<longleftrightarrow> m mod 10 < n mod 10"
    by (simp add: of_char_digit)
  show ?case
  proof (cases "m div 10 < n div 10")
    case True
    moreover have "n div 10 < 10 ^ w" using Suc.prems(2) by (simp add: less_mult_imp_div_less mult.commute)
    ultimately show ?thesis using Suc.IH by (simp add: text_less_append)
  next
    case False
    then have "m div 10 = n div 10" using div_le_mono [of m n 10] Suc.prems(1) by simp
    moreover from this have "m mod 10 < n mod 10"
      using Suc.prems(1) div_mult_mod_eq [of m 10] div_mult_mod_eq [of n 10] by linarith
    ultimately show ?thesis using digit by (simp add: text_less_append)
  qed
qed simp

lemma pad_less: "0 \<le> i \<Longrightarrow> i < j \<Longrightarrow> j < 10 ^ w \<Longrightarrow> text_less (pad w i) (pad w j)"
  using digs_less [of "nat i" "nat j" w]
  by (simp add: pad_def Let_def nat_less_iff)

lemma length_pad: "0 \<le> i \<Longrightarrow> i < 10 ^ w \<Longrightarrow> length (pad w i) = w"
  by (simp add: pad_def nat_less_iff)

section \<open>The calendar\<close>

text \<open>Days are counted from 1 January of the year 1, in the proleptic Gregorian calendar.\<close>

definition leap :: "int \<Rightarrow> bool" where
  "leap y \<longleftrightarrow> y mod 4 = 0 \<and> (y mod 100 \<noteq> 0 \<or> y mod 400 = 0)"

definition days_before :: "int \<Rightarrow> int" where
  "days_before y = 365 * (y - 1) + (y - 1) div 4 - (y - 1) div 100 + (y - 1) div 400"

text \<open>An estimate from the mean length of a year, which is at most one year off.\<close>

definition year_of :: "int \<Rightarrow> int" where
  "year_of d = (let y = 400 * d div 146097 + 1
     in if d < days_before y then y - 1 else if days_before (y + 1) \<le> d then y + 1 else y)"

definition month_lengths :: "bool \<Rightarrow> int list" where
  "month_lengths l = [31, if l then 29 else 28, 31, 30, 31, 30, 31, 31, 30, 31, 30, 31]"

text \<open>The month and day of the \<open>i\<close>-th day of the months from \<open>m\<close> on.\<close>

fun month_day :: "int \<Rightarrow> int list \<Rightarrow> int \<Rightarrow> int \<times> int" where
  "month_day m [] i = (m, i + 1)"
| "month_day m (n # ns) i = (if i < n then (m, i + 1) else month_day (m + 1) ns (i - n))"

definition yday_text :: "bool \<Rightarrow> int \<Rightarrow> string" where
  "yday_text l i = (case month_day 1 (month_lengths l) i of (m, d) \<Rightarrow> pad 2 m @ ''-'' @ pad 2 d)"

definition date_text :: "int \<Rightarrow> string" where
  "date_text d = (let y = year_of d in pad 4 y @ ''-'' @ yday_text (leap y) (d - days_before y))"

definition clock_text :: "int \<Rightarrow> string" where
  "clock_text s = pad 2 (s div 3600) @ '':'' @ pad 2 (s div 60 mod 60) @ '':'' @ pad 2 (s mod 60)"

text \<open>\<open>k\<close> is a number of seconds since the year 1.\<close>

definition datetime_text :: "int \<Rightarrow> string" where
  "datetime_text k = date_text (k div 86400) @ '' '' @ clock_text (k mod 86400)"

lemma datetime_examples:
  "datetime_text unix_epoch_seconds = ''1970-01-01 00:00:00''"
  "datetime_text (unix_epoch_seconds + 1709251199) = ''2024-02-29 23:59:59''"
  by code_simp+

subsection \<open>Texts of later seconds are greater\<close>

lemma div_step: "(0::int) < n \<Longrightarrow> y div n = (y - 1) div n + (if y mod n = 0 then 1 else 0)"
proof -
  assume n: "0 < n"
  have y: "y = n * (y div n) + y mod n" by simp
  show ?thesis
  proof (cases "y mod n = 0")
    case True
    have "(y - 1) div n = y div n - 1"
      by (rule int_div_pos_eq [where r = "n - 1"]) (use n y True in \<open>auto simp: algebra_simps\<close>)
    with True show ?thesis by simp
  next
    case False
    then have "0 < y mod n" using pos_mod_sign [OF n, of y] by linarith
    then have "(y - 1) div n = y div n"
      by (intro int_div_pos_eq [where r = "y mod n - 1"]) (use n y pos_mod_bound [OF n, of y] in \<open>auto simp: algebra_simps\<close>)
    with False show ?thesis by simp
  qed
qed

lemma days_before_Suc: "days_before (y + 1) = days_before y + (if leap y then 366 else 365)"
proof -
  have mods: "y mod 400 = 0 \<longrightarrow> y mod 100 = 0" "y mod 100 = 0 \<longrightarrow> y mod 4 = 0"
    by (auto simp: mod_eq_0_iff_dvd elim!: dvd_trans [rotated])
  have "days_before (y + 1) = 365 * y + y div 4 - y div 100 + y div 400" by (simp add: days_before_def)
  also have "\<dots> = days_before y + 365 + (if y mod 4 = 0 then 1 else 0) - (if y mod 100 = 0 then 1 else 0)
      + (if y mod 400 = 0 then 1 else 0)"
    unfolding days_before_def by (subst div_step [of 4 y], simp, subst div_step [of 100 y], simp, subst div_step [of 400 y], simp_all)
  also have "\<dots> = days_before y + (if leap y then 366 else 365)"
    using mods by (cases "y mod 4 = 0"; cases "y mod 100 = 0"; cases "y mod 400 = 0") (simp_all add: leap_def)
  finally show ?thesis .
qed

lemma days_before_mono: "y \<le> z \<Longrightarrow> days_before y \<le> days_before z"
proof (induction z rule: int_ge_induct)
  case (step z)
  then show ?case by (simp add: days_before_Suc)
qed simp

lemma div_bounds: "numeral n * (a div numeral n) \<le> (a::int)" "a < numeral n * (a div numeral n) + numeral n"
proof -
  have "0 \<le> a mod numeral n" "a mod numeral n < numeral n" by simp_all
  moreover have "numeral n * (a div numeral n) + a mod numeral n = a" by simp
  ultimately show "numeral n * (a div numeral n) \<le> a" "a < numeral n * (a div numeral n) + numeral n"
    by (metis le_add_same_cancel1, metis add_strict_left_mono)
qed

lemma days_before_bounds: "400 * days_before y \<le> 146097 * (y - 1) + 400" "146097 * (y - 1) \<le> 400 * days_before y + 700"
proof -
  define a b c where "a = (y - 1) div 4" and "b = (y - 1) div 100" and "c = (y - 1) div 400"
  have "4 * a \<le> y - 1" "y - 1 < 4 * a + 4" "100 * b \<le> y - 1" "y - 1 < 100 * b + 100" "400 * c \<le> y - 1" "y - 1 < 400 * c + 400"
    unfolding a_def b_def c_def by (rule div_bounds)+
  then show "400 * days_before y \<le> 146097 * (y - 1) + 400" "146097 * (y - 1) \<le> 400 * days_before y + 700"
    unfolding days_before_def a_def [symmetric] b_def [symmetric] c_def [symmetric] by (simp_all add: algebra_simps)
qed

lemma year_of_bounds: "days_before (year_of d) \<le> d \<and> d < days_before (year_of d + 1)"
proof -
  define y where "y = 400 * d div 146097 + 1"
  define q where "q = 400 * d div 146097"
  have "146097 * q \<le> 400 * d" "400 * d < 146097 * q + 146097" unfolding q_def by (rule div_bounds)+
  then have y: "146097 * (y - 1) \<le> 400 * d" "400 * d < 146097 * y" unfolding y_def q_def [symmetric] by simp_all
  have "days_before (y - 1) \<le> d" using y(1) days_before_bounds(1) [of "y - 1"] by (simp add: algebra_simps)
  moreover have "d < days_before (y + 2)" using y(2) days_before_bounds(2) [of "y + 2"] by (simp add: algebra_simps)
  ultimately show ?thesis
    unfolding year_of_def Let_def y_def [symmetric] by (simp add: add.assoc)
qed

lemma year_of_mono: "d \<le> e \<Longrightarrow> year_of d \<le> year_of e"
  using year_of_bounds [of d] year_of_bounds [of e] days_before_mono [of "year_of e + 1" "year_of d"]
  by force

text \<open>Months and days fit in two digits and grow with the day of the year.\<close>

lemma month_day_bounds:
  assumes "0 \<le> i" "i < sum_list ns" "list_all (\<lambda>n. n \<le> 31) ns"
  shows "m \<le> fst (month_day m ns i) \<and> fst (month_day m ns i) < m + int (length ns)
    \<and> 1 \<le> snd (month_day m ns i) \<and> snd (month_day m ns i) \<le> 31"
  using assms by (induction m ns i rule: month_day.induct) fastforce+

lemma month_day_mono:
  assumes "0 \<le> i" "i < j" "j < sum_list ns" "list_all (\<lambda>n. n \<le> 31) ns"
  shows "fst (month_day m ns i) < fst (month_day m ns j)
    \<or> fst (month_day m ns i) = fst (month_day m ns j) \<and> snd (month_day m ns i) < snd (month_day m ns j)"
  using assms
proof (induction ns arbitrary: m i j)
  case (Cons n ns)
  show ?case
  proof (cases "i < n \<and> n \<le> j")
    case True
    then show ?thesis using month_day_bounds [of "j - n" ns "m + 1"] Cons.prems by simp
  next
    case False
    then show ?thesis using Cons.IH [of "i - n" "j - n" "m + 1"] Cons.prems by auto
  qed
qed simp

lemma month_lengths_facts:
  "sum_list (month_lengths l) = (if l then 366 else 365)" "list_all (\<lambda>n. n \<le> 31) (month_lengths l)"
  "length (month_lengths l) = 12"
  by (simp_all add: month_lengths_def)

lemma yday_cases:
  assumes "0 \<le> i" "i < (if l then 366 else 365)"
  obtains m d where "month_day 1 (month_lengths l) i = (m, d)" "1 \<le> m" "m < 100" "1 \<le> d" "d < 100"
proof -
  obtain m d where md: "month_day 1 (month_lengths l) i = (m, d)" by fastforce
  have "1 \<le> m \<and> m < 13 \<and> 1 \<le> d \<and> d \<le> 31"
    using month_day_bounds [of i "month_lengths l" 1] assms by (simp add: md month_lengths_facts)
  then show thesis using md by (intro that [of m d]) auto
qed

lemma yday_less:
  assumes "0 \<le> i" "i < j" "j < (if l then 366 else 365)"
  shows "text_less (yday_text l i) (yday_text l j)"
proof -
  obtain m d where i: "month_day 1 (month_lengths l) i = (m, d)" "1 \<le> m" "m < 100" "1 \<le> d" "d < 100"
    by (rule yday_cases [of i l]) (use assms in auto)
  obtain m' d' where j: "month_day 1 (month_lengths l) j = (m', d')" "1 \<le> m'" "m' < 100" "1 \<le> d'" "d' < 100"
    by (rule yday_cases [of j l]) (use assms in auto)
  have "m < m' \<or> m = m' \<and> d < d'"
    using month_day_mono [of i j "month_lengths l" 1] month_lengths_facts [of l] assms i(1) j(1) by auto
  moreover have "length (pad 2 m) = length (pad 2 m')" using i j by (simp add: length_pad)
  ultimately show ?thesis
    using i j pad_less [of m m' 2] pad_less [of d d' 2] by (auto simp: yday_text_def text_less_append)
qed

lemma length_yday: "0 \<le> i \<Longrightarrow> i < (if l then 366 else 365) \<Longrightarrow> length (yday_text l i) = 5"
  by (rule yday_cases [of i l]) (auto simp: yday_text_def length_pad)

text \<open>The years with four digits, in days and in seconds.\<close>

abbreviation last_day :: int where "last_day \<equiv> 3652059"

lemma year_range:
  assumes "0 \<le> d" "d < last_day"
  shows "1 \<le> year_of d" "year_of d \<le> 9999"
proof -
  have "year_of 0 = 1" "year_of (last_day - 1) = 9999" by code_simp+
  with year_of_mono [of 0 d] year_of_mono [of d "last_day - 1"] assms
  show "1 \<le> year_of d" "year_of d \<le> 9999" by simp_all
qed

lemma yday_range:
  "0 \<le> d - days_before (year_of d)" "d - days_before (year_of d) < (if leap (year_of d) then 366 else 365)"
  using year_of_bounds [of d] days_before_Suc [of "year_of d"] by (auto split: if_splits)

lemma length_date_text: "0 \<le> d \<Longrightarrow> d < last_day \<Longrightarrow> length (date_text d) = 10"
  using year_range [of d] length_yday [OF yday_range] by (simp add: date_text_def length_pad Let_def)

lemma date_text_less:
  assumes "0 \<le> d" "d < e" "e < last_day"
  shows "text_less (date_text d) (date_text e)"
proof -
  have y: "1 \<le> year_of d" "1 \<le> year_of e" "year_of e \<le> 9999" "year_of d \<le> year_of e"
    using year_range [of d] year_range [of e] year_of_mono [of d e] assms by simp_all
  then have len: "length (pad 4 (year_of d)) = length (pad 4 (year_of e))" by (simp add: length_pad)
  show ?thesis
  proof (cases "year_of d = year_of e")
    case True
    then show ?thesis
      using yday_less [of "d - days_before (year_of d)" "e - days_before (year_of d)" "leap (year_of d)"]
        yday_range [of d] yday_range [of e] assms
      by (simp add: date_text_def text_less_append Let_def)
  next
    case False
    then have "text_less (pad 4 (year_of d)) (pad 4 (year_of e))" using y by (intro pad_less) auto
    then show ?thesis by (simp add: date_text_def text_less_append len Let_def)
  qed
qed

subsection \<open>The time of day\<close>

lemma clock_parts:
  fixes s :: int
  assumes "0 \<le> s" "s < 86400"
  shows "0 \<le> s div 3600" "s div 3600 < 24" "s = 3600 * (s div 3600) + 60 * (s div 60 mod 60) + s mod 60"
proof -
  show "0 \<le> s div 3600" using assms(1) by simp
  show "s div 3600 < 24" using zdiv_mono1 [of s 86399 3600] assms(2) by simp
  have "s div 3600 = s div 60 div 60" using zdiv_zmult2_eq [of 60 s 60] by simp
  then show "s = 3600 * (s div 3600) + 60 * (s div 60 mod 60) + s mod 60"
    using div_mult_mod_eq [of s 60] div_mult_mod_eq [of "s div 60" 60] by linarith
qed

lemma length_clock_text: "0 \<le> s \<Longrightarrow> s < 86400 \<Longrightarrow> length (clock_text s) = 8"
  using clock_parts [of s] by (simp add: clock_text_def length_pad)

lemma clock_text_less:
  assumes "0 \<le> s" "s < t" "t < 86400"
  shows "text_less (clock_text s) (clock_text t)"
proof -
  define h m r h' m' r' where parts: "h = s div 3600" "m = s div 60 mod 60" "r = s mod 60"
    "h' = t div 3600" "m' = t div 60 mod 60" "r' = t mod 60"
  have st: "s \<ge> 0" "s < 86400" "t \<ge> 0" "t < 86400" using assms by simp_all
  have s: "0 \<le> h" "h < 24" "s = 3600 * h + 60 * m + r"
    unfolding parts by (rule clock_parts [OF st(1,2)])+
  have t: "0 \<le> h'" "h' < 24" "t = 3600 * h' + 60 * m' + r'"
    unfolding parts by (rule clock_parts [OF st(3,4)])+
  have mr: "0 \<le> m" "m < 60" "0 \<le> r" "r < 60" "0 \<le> m'" "m' < 60" "0 \<le> r'" "r' < 60"
    unfolding parts by simp_all
  consider "h < h'" | "h = h'" "m < m'" | "h = h'" "m = m'" "r < r'"
    using s(3) t(3) mr assms(2) by (cases "h < h'"; cases "h = h'"; cases "m < m'"; cases "m = m'") auto
  then have "h < h' \<or> h = h' \<and> (m < m' \<or> m = m' \<and> r < r')" by cases auto
  then show ?thesis
    unfolding clock_text_def parts [symmetric]
    using s(1,2) t(1,2) mr pad_less [of h h' 2] pad_less [of m m' 2] pad_less [of r r' 2]
    by (auto simp: text_less_append length_pad)
qed

subsection \<open>Both\<close>

definition dated :: "int \<Rightarrow> bool" where
  "dated k \<longleftrightarrow> 0 \<le> k \<and> k < 86400 * last_day"

lemma dated_day: "dated k \<Longrightarrow> 0 \<le> k div 86400 \<and> k div 86400 < last_day"
  using zdiv_mono1 [of k "86400 * last_day - 1" 86400] by (auto simp: dated_def)

lemma length_datetime_text: "dated k \<Longrightarrow> length (datetime_text k) = 19"
  using dated_day [of k] by (simp add: datetime_text_def length_date_text length_clock_text)

lemma datetime_text_less:
  assumes "dated k" "dated k'" "k < k'"
  shows "text_less (datetime_text k) (datetime_text k')"
proof (cases "k div 86400 = k' div 86400")
  case True
  have "k mod 86400 < k' mod 86400"
    using True assms(3) div_mult_mod_eq [of k 86400] div_mult_mod_eq [of k' 86400] by linarith
  then have "text_less (clock_text (k mod 86400)) (clock_text (k' mod 86400))" by (intro clock_text_less) simp_all
  with True show ?thesis by (simp add: datetime_text_def text_less_append)
next
  case False
  then have "k div 86400 < k' div 86400" using zdiv_mono1 [of k k' 86400] assms(3) by simp
  then have "text_less (date_text (k div 86400)) (date_text (k' div 86400))"
    using dated_day assms(1,2) by (intro date_text_less) auto
  then show ?thesis
    using dated_day assms(1,2) by (simp add: datetime_text_def text_less_append length_date_text)
qed

lemma datetime_text_order:
  assumes "dated k" "dated k'"
  shows "text_less (datetime_text k) (datetime_text k') \<longleftrightarrow> k < k'" "datetime_text k = datetime_text k' \<longleftrightarrow> k = k'"
  using text_less_iff [where A = "{k. dated k}" and f = datetime_text and x = k and y = k'] datetime_text_less assms by simp_all

section \<open>Bound parameters\<close>

text \<open>A \<open>time.Time\<close> with its location: the instant, the location's offset from UTC in seconds at it, and what
  \<open>String\<close> prints last (the name of the zone, the monotonic reading).\<close>

record local_time =
  lt_time :: go_time
  lt_offset :: int
  lt_name :: string

type_synonym time_zone = "go_time \<Rightarrow> int \<times> string"

definition in_zone :: "time_zone \<Rightarrow> go_time \<Rightarrow> local_time" where
  "in_zone tz t = \<lparr>lt_time = t, lt_offset = fst (tz t), lt_name = snd (tz t)\<rparr>"

definition UTC :: time_zone where
  "UTC t = (0, ''UTC'')"

definition wall_seconds :: "local_time \<Rightarrow> int" where
  "wall_seconds b = lt_time b div second + lt_offset b"

definition fraction_text :: "int \<Rightarrow> string" where
  "fraction_text ns = (if ns = 0 then [] else CHR ''.'' # rev (dropWhile (\<lambda>c. c = CHR ''0'') (rev (pad 9 ns))))"

definition offset_text :: "int \<Rightarrow> string" where
  "offset_text o1 = (let m = \<bar>o1\<bar> div 60 in (if o1 \<le> - 60 then ''-'' else ''+'') @ pad 2 (m div 60) @ pad 2 (m mod 60))"

definition bound_text :: "local_time \<Rightarrow> string" where
  "bound_text b = datetime_text (wall_seconds b) @ fraction_text (lt_time b mod second)
     @ '' '' @ offset_text (lt_offset b) @ '' '' @ lt_name b"

definition stored_text :: "go_time \<Rightarrow> string" where
  "stored_text t = datetime_text (t div second)"

text \<open>\<open>column < ?\<close> and \<open>column BETWEEN ? AND ?\<close>.\<close>

definition sql_before :: "go_time \<Rightarrow> local_time \<Rightarrow> bool" where
  "sql_before t b \<longleftrightarrow> text_less (stored_text t) (bound_text b)"

definition sql_between :: "local_time \<Rightarrow> local_time \<Rightarrow> go_time \<Rightarrow> bool" where
  "sql_between start end t \<longleftrightarrow>
     \<not> text_less (stored_text t) (bound_text start) \<and> \<not> text_less (bound_text end) (stored_text t)"

text \<open>The comparison is that of the UTC second with the second on the local wall clock, and a bound comes
  after the column of the same second.\<close>

lemma sql_before_iff:
  assumes "dated (t div second)" "dated (wall_seconds b)"
  shows "sql_before t b \<longleftrightarrow> t div second \<le> wall_seconds b"
proof -
  obtain tail where b: "bound_text b = datetime_text (wall_seconds b) @ tail" "tail \<noteq> []" by (simp add: bound_text_def)
  have "sql_before t b \<longleftrightarrow> text_less (stored_text t @ []) (datetime_text (wall_seconds b) @ tail)"
    by (simp add: sql_before_def b)
  also have "\<dots> \<longleftrightarrow> t div second \<le> wall_seconds b"
    unfolding stored_text_def
    by (subst text_less_append) (auto simp: length_datetime_text assms datetime_text_order b(2))
  finally show ?thesis .
qed

lemma sql_between_iff:
  assumes "dated (t div second)" "dated (wall_seconds start)" "dated (wall_seconds end)"
  shows "sql_between start end t \<longleftrightarrow> wall_seconds start < t div second \<and> t div second \<le> wall_seconds end"
proof -
  obtain tail where b: "bound_text end = datetime_text (wall_seconds end) @ tail" by (simp add: bound_text_def)
  have "text_less (bound_text end) (stored_text t) \<longleftrightarrow> text_less (datetime_text (wall_seconds end) @ tail) (stored_text t @ [])"
    by (simp add: b)
  also have "\<dots> \<longleftrightarrow> wall_seconds end < t div second"
    unfolding stored_text_def
    by (subst text_less_append) (auto simp: length_datetime_text assms datetime_text_order)
  finally show ?thesis
    using sql_before_iff [OF assms(1,2)] by (auto simp: sql_between_def sql_before_def)
qed

lemma wall_UTC [simp]: "wall_seconds (in_zone UTC t) = t div second"
  by (simp add: wall_seconds_def in_zone_def UTC_def)

lemma wall_zone: "wall_seconds (in_zone tz t) = t div second + fst (tz t)"
  by (simp add: wall_seconds_def in_zone_def)

end
