(* ===== verification/Storage.thy ===== *)
theory Storage
  imports Float64 Sql_Time
begin

text \<open>
  The telemetry store (\<open>internal/storage/storage.go\<close>): the tables of the schema as lists
  of rows in insertion order, each with the last \<open>AUTOINCREMENT\<close> value given out, and one
  function per SQL statement of the code with the statement's own meaning: defaults,
  \<open>BETWEEN\<close>, \<open>NOT IN\<close> and the foreign keys, which the connection string switches on.
  The engine may refuse any statement (lock, disk, cancelled context): each operation takes
  the error the engine reports, or \<open>None\<close>. A default \<open>CURRENT_TIMESTAMP\<close> has whole seconds;
  a condition on a timestamp compares texts, as \<open>Sql_Time\<close> computes them. Columns that no statement of the code writes
  (\<open>trigger_value\<close>) are left out, and so is the order in which an unordered \<open>SELECT\<close>
  returns its rows, which is the insertion order here.
\<close>

section \<open>Rows and tables\<close>

record proc_row =
  p_process_id :: int
  p_parent_id :: int
  p_binary_path :: string
  p_sha256 :: string
  p_command_line :: string
  p_username :: string
  p_launched_at :: go_time

record file_row =
  f_event_id :: int
  f_process_id :: int
  f_file_path :: string
  f_action :: string
  f_occurred_at :: go_time

record net_row =
  n_connection_id :: int
  n_process_id :: int
  n_protocol :: string
  n_local_ip :: string
  n_local_port :: int
  n_remote_ip :: string
  n_remote_port :: int
  n_occurred_at :: go_time

record alert_row =
  a_alert_id :: int
  a_rule_name :: string
  a_category :: string
  a_risk_score :: f64
  a_description :: string
  a_process_id :: int
  a_triggered_at :: go_time

record ind_row =
  i_indicator_id :: int
  i_pattern :: string
  i_pattern_type :: string
  i_threat_label :: string
  i_created_at :: go_time

record db =
  processes :: "proc_row list"
  file_modifications :: "file_row list"
  network_connections :: "net_row list"
  alert_logs :: "alert_row list"
  indicators :: "ind_row list"
  proc_seq :: int
  file_seq :: int
  net_seq :: int
  alert_seq :: int
  ind_seq :: int

definition empty_db :: db where
  "empty_db = \<lparr>processes = [], file_modifications = [], network_connections = [],
     alert_logs = [], indicators = [], proc_seq = 0, file_seq = 0, net_seq = 0,
     alert_seq = 0, ind_seq = 0\<rparr>"

definition current_timestamp :: "go_time \<Rightarrow> go_time" where
  "current_timestamp now = (now div second) * second"

abbreviation fk_error :: go_error where
  "fk_error \<equiv> ''FOREIGN KEY constraint failed''"

definition process_ids :: "db \<Rightarrow> int set" where
  "process_ids d = set (map p_process_id (processes d))"

definition alerted :: "db \<Rightarrow> int set" where
  "alerted d = set (map a_process_id (alert_logs d))"

section \<open>Insert statements\<close>

definition sql_insert_process ::
  "go_time \<Rightarrow> int \<Rightarrow> string \<Rightarrow> string \<Rightarrow> string \<Rightarrow> string \<Rightarrow> db \<Rightarrow> int result \<times> db" where
  "sql_insert_process now parentID binaryPath sha256 commandLine username d =
     (let i = proc_seq d + 1
      in (Ok i, d\<lparr>processes := processes d @ [\<lparr>p_process_id = i, p_parent_id = parentID,
            p_binary_path = binaryPath, p_sha256 = sha256, p_command_line = commandLine,
            p_username = username, p_launched_at = current_timestamp now\<rparr>],
          proc_seq := i\<rparr>))"

definition sql_insert_file ::
  "go_time \<Rightarrow> int \<Rightarrow> string \<Rightarrow> string \<Rightarrow> db \<Rightarrow> unit result \<times> db" where
  "sql_insert_file now processID filePath action d =
     (if processID \<notin> process_ids d then (Err fk_error, d)
      else let i = file_seq d + 1
      in (Ok (), d\<lparr>file_modifications := file_modifications d @ [\<lparr>f_event_id = i,
            f_process_id = processID, f_file_path = filePath, f_action = action,
            f_occurred_at = current_timestamp now\<rparr>], file_seq := i\<rparr>))"

definition sql_insert_net ::
  "go_time \<Rightarrow> int \<Rightarrow> string \<Rightarrow> string \<Rightarrow> int \<Rightarrow> string \<Rightarrow> int \<Rightarrow> db \<Rightarrow> unit result \<times> db" where
  "sql_insert_net now processID protocol localIP localPort remoteIP remotePort d =
     (if processID \<notin> process_ids d then (Err fk_error, d)
      else let i = net_seq d + 1
      in (Ok (), d\<lparr>network_connections := network_connections d @ [\<lparr>n_connection_id = i,
            n_process_id = processID, n_protocol = protocol, n_local_ip = localIP,
            n_local_port = localPort, n_remote_ip = remoteIP, n_remote_port = remotePort,
            n_occurred_at = current_timestamp now\<rparr>], net_seq := i\<rparr>))"

definition sql_insert_alert ::
  "go_time \<Rightarrow> string \<Rightarrow> string \<Rightarrow> f64 \<Rightarrow> string \<Rightarrow> int \<Rightarrow> db \<Rightarrow> unit result \<times> db" where
  "sql_insert_alert now ruleName category riskScore description processID d =
     (if processID \<notin> process_ids d then (Err fk_error, d)
      else let i = alert_seq d + 1
      in (Ok (), d\<lparr>alert_logs := alert_logs d @ [\<lparr>a_alert_id = i, a_rule_name = ruleName,
            a_category = category, a_risk_score = riskScore, a_description = description,
            a_process_id = processID, a_triggered_at = current_timestamp now\<rparr>],
          alert_seq := i\<rparr>))"

definition sql_insert_indicator ::
  "go_time \<Rightarrow> string \<Rightarrow> string \<Rightarrow> string \<Rightarrow> db \<Rightarrow> unit result \<times> db" where
  "sql_insert_indicator now pattern patternType threatLabel d =
     (let i = ind_seq d + 1
      in (Ok (), d\<lparr>indicators := indicators d @ [\<lparr>i_indicator_id = i, i_pattern = pattern,
            i_pattern_type = patternType, i_threat_label = threatLabel,
            i_created_at = current_timestamp now\<rparr>], ind_seq := i\<rparr>))"

section \<open>Operations\<close>

text \<open>\<open>guarded\<close> runs a statement unless the engine refuses it.\<close>

definition guarded ::
  "go_error option \<Rightarrow> (db \<Rightarrow> 'a result \<times> db) \<Rightarrow> db \<Rightarrow> 'a result \<times> db" where
  "guarded fault stmt d = (case fault of Some e \<Rightarrow> (Err e, d) | None \<Rightarrow> stmt d)"

definition InsertProcess ::
  "go_error option \<Rightarrow> go_time \<Rightarrow> int \<Rightarrow> string \<Rightarrow> string \<Rightarrow> string \<Rightarrow> string \<Rightarrow> db
     \<Rightarrow> int result \<times> db" where
  "InsertProcess fault now parentID binaryPath sha256 commandLine username =
     guarded fault (sql_insert_process now parentID binaryPath sha256 commandLine username)"

definition InsertFileModification ::
  "go_error option \<Rightarrow> go_time \<Rightarrow> int \<Rightarrow> string \<Rightarrow> string \<Rightarrow> db \<Rightarrow> unit result \<times> db" where
  "InsertFileModification fault now processID filePath action =
     guarded fault (sql_insert_file now processID filePath action)"

definition InsertNetworkConnection ::
  "go_error option \<Rightarrow> go_time \<Rightarrow> int \<Rightarrow> string \<Rightarrow> string \<Rightarrow> int \<Rightarrow> string \<Rightarrow> int \<Rightarrow> db
     \<Rightarrow> unit result \<times> db" where
  "InsertNetworkConnection fault now processID protocol localIP localPort remoteIP remotePort =
     guarded fault (sql_insert_net now processID protocol localIP localPort remoteIP remotePort)"

definition InsertAlertLog ::
  "go_error option \<Rightarrow> go_time \<Rightarrow> string \<Rightarrow> string \<Rightarrow> f64 \<Rightarrow> string \<Rightarrow> int \<Rightarrow> db
     \<Rightarrow> unit result \<times> db" where
  "InsertAlertLog fault now ruleName category riskScore description processID =
     guarded fault (sql_insert_alert now ruleName category riskScore description processID)"

definition InsertIndicator ::
  "go_error option \<Rightarrow> go_time \<Rightarrow> string \<Rightarrow> string \<Rightarrow> string \<Rightarrow> db \<Rightarrow> unit result \<times> db" where
  "InsertIndicator fault now pattern patternType threatLabel =
     guarded fault (sql_insert_indicator now pattern patternType threatLabel)"

record DBProcess =
  dp_BinaryPath :: string
  dp_CommandLine :: string
  dp_Username :: string
  dp_LaunchedAt :: go_time

record DBFileModification =
  df_FilePath :: string
  df_Action :: string
  df_OccurredAt :: go_time

record DBNetworkConnection =
  dn_Protocol :: string
  dn_LocalIP :: string
  dn_LocalPort :: int
  dn_RemoteIP :: string
  dn_RemotePort :: int
  dn_OccurredAt :: go_time

record DBIndicator =
  di_Pattern :: string
  di_PatternType :: string
  di_ThreatLabel :: string

text \<open>What becomes of a query: all its rows, an error (of the statement or of a \<open>Scan\<close>), or an iteration that
  ends early. The code does not ask \<open>rows.Err\<close>, so the last looks like a shorter result.\<close>

datatype query_fault = NoFault | Refused go_error | CutAfter nat

definition query :: "query_fault \<Rightarrow> 'a list \<Rightarrow> 'a list result" where
  "query fault rows = (case fault of NoFault \<Rightarrow> Ok rows | Refused e \<Rightarrow> Err e | CutAfter n \<Rightarrow> Ok (take n rows))"

definition QueryProcesses ::
  "query_fault \<Rightarrow> local_time \<Rightarrow> local_time \<Rightarrow> db \<Rightarrow> DBProcess list result" where
  "QueryProcesses fault start end d = query fault
     (map (\<lambda>r. \<lparr>dp_BinaryPath = p_binary_path r, dp_CommandLine = p_command_line r,
                dp_Username = p_username r, dp_LaunchedAt = p_launched_at r\<rparr>)
        (filter (\<lambda>r. sql_between start end (p_launched_at r)) (processes d)))"

definition QueryFileModifications ::
  "query_fault \<Rightarrow> local_time \<Rightarrow> local_time \<Rightarrow> db \<Rightarrow> DBFileModification list result" where
  "QueryFileModifications fault start end d = query fault
     (map (\<lambda>r. \<lparr>df_FilePath = f_file_path r, df_Action = f_action r,
                df_OccurredAt = f_occurred_at r\<rparr>)
        (filter (\<lambda>r. sql_between start end (f_occurred_at r)) (file_modifications d)))"

definition QueryNetworkConnections ::
  "query_fault \<Rightarrow> local_time \<Rightarrow> local_time \<Rightarrow> db \<Rightarrow> DBNetworkConnection list result" where
  "QueryNetworkConnections fault start end d = query fault
     (map (\<lambda>r. \<lparr>dn_Protocol = n_protocol r, dn_LocalIP = n_local_ip r,
                dn_LocalPort = n_local_port r, dn_RemoteIP = n_remote_ip r,
                dn_RemotePort = n_remote_port r, dn_OccurredAt = n_occurred_at r\<rparr>)
        (filter (\<lambda>r. sql_between start end (n_occurred_at r)) (network_connections d)))"

definition QueryIndicators :: "query_fault \<Rightarrow> db \<Rightarrow> DBIndicator list result" where
  "QueryIndicators fault d = query fault
     (map (\<lambda>r. \<lparr>di_Pattern = i_pattern r, di_PatternType = i_pattern_type r,
                di_ThreatLabel = i_threat_label r\<rparr>) (indicators d))"

section \<open>Pruning\<close>

definition sql_prune_files :: "local_time \<Rightarrow> db \<Rightarrow> unit result \<times> db" where
  "sql_prune_files cutoff d =
     (Ok (), d\<lparr>file_modifications := filter (\<lambda>r. \<not> (sql_before (f_occurred_at r) cutoff
        \<and> f_process_id r \<notin> alerted d)) (file_modifications d)\<rparr>)"

definition sql_prune_nets :: "local_time \<Rightarrow> db \<Rightarrow> unit result \<times> db" where
  "sql_prune_nets cutoff d =
     (Ok (), d\<lparr>network_connections := filter (\<lambda>r. \<not> (sql_before (n_occurred_at r) cutoff
        \<and> n_process_id r \<notin> alerted d)) (network_connections d)\<rparr>)"

text \<open>The \<open>DELETE\<close> on \<open>processes\<close> fails as a whole when one of its rows is still the
  target of a foreign key.\<close>

definition stale_process :: "local_time \<Rightarrow> db \<Rightarrow> proc_row \<Rightarrow> bool" where
  "stale_process cutoff d r \<longleftrightarrow> sql_before (p_launched_at r) cutoff \<and> p_process_id r \<notin> alerted d"

definition referenced :: "db \<Rightarrow> int set" where
  "referenced d = set (map f_process_id (file_modifications d))
     \<union> set (map n_process_id (network_connections d)) \<union> alerted d"

definition sql_prune_processes :: "local_time \<Rightarrow> db \<Rightarrow> unit result \<times> db" where
  "sql_prune_processes cutoff d =
     (if list_ex (\<lambda>r. stale_process cutoff d r \<and> p_process_id r \<in> referenced d) (processes d)
      then (Err fk_error, d)
      else (Ok (), d\<lparr>processes := filter (\<lambda>r. \<not> stale_process cutoff d r) (processes d)\<rparr>))"

definition PruneOldTelemetry :: "(nat \<Rightarrow> go_error option) \<Rightarrow> local_time \<Rightarrow> db \<Rightarrow> unit result \<times> db" where
  "PruneOldTelemetry fault cutoff d =
     (case guarded (fault 0) (sql_prune_files cutoff) d of
        (Inl e, d1) \<Rightarrow> (Inl e, d1)
      | (Inr _, d1) \<Rightarrow>
          (case guarded (fault 1) (sql_prune_nets cutoff) d1 of
             (Inl e, d2) \<Rightarrow> (Inl e, d2)
           | (Inr _, d2) \<Rightarrow> guarded (fault 2) (sql_prune_processes cutoff) d2))"

section \<open>Opening the store\<close>

text \<open>The statements of \<open>migrate\<close>: a table with its columns and foreign keys, or an index.\<close>

datatype ddl =
  CreateTable string "(string \<times> string) list" "(string \<times> string \<times> string) list"
| CreateIndex string string "string list"

definition fk_process :: "(string \<times> string \<times> string) list" where
  "fk_process = [(''process_id'', ''processes'', ''process_id'')]"

definition migrations :: "ddl list" where
  "migrations = [
     CreateTable ''processes''
       [(''process_id'', ''INTEGER PRIMARY KEY AUTOINCREMENT''), (''parent_id'', ''INTEGER''),
        (''binary_path'', ''TEXT NOT NULL''), (''sha256'', ''TEXT NOT NULL''),
        (''command_line'', ''TEXT NOT NULL''), (''username'', ''TEXT NOT NULL''),
        (''launched_at'', ''TIMESTAMP DEFAULT CURRENT_TIMESTAMP'')] [],
     CreateTable ''file_modifications''
       [(''event_id'', ''INTEGER PRIMARY KEY AUTOINCREMENT''), (''process_id'', ''INTEGER''),
        (''file_path'', ''TEXT NOT NULL''), (''action'', ''TEXT NOT NULL''),
        (''occurred_at'', ''TIMESTAMP DEFAULT CURRENT_TIMESTAMP'')] fk_process,
     CreateTable ''network_connections''
       [(''connection_id'', ''INTEGER PRIMARY KEY AUTOINCREMENT''), (''process_id'', ''INTEGER''),
        (''protocol'', ''TEXT NOT NULL''), (''local_ip'', ''TEXT NOT NULL''),
        (''local_port'', ''INTEGER NOT NULL''), (''remote_ip'', ''TEXT NOT NULL''),
        (''remote_port'', ''INTEGER NOT NULL''),
        (''occurred_at'', ''TIMESTAMP DEFAULT CURRENT_TIMESTAMP'')] fk_process,
     CreateTable ''alert_logs''
       [(''alert_id'', ''INTEGER PRIMARY KEY AUTOINCREMENT''), (''rule_name'', ''TEXT NOT NULL''),
        (''category'', ''TEXT NOT NULL''), (''risk_score'', ''REAL NOT NULL''),
        (''description'', ''TEXT NOT NULL''), (''process_id'', ''INTEGER''),
        (''trigger_value'', ''TEXT''),
        (''triggered_at'', ''TIMESTAMP DEFAULT CURRENT_TIMESTAMP'')] fk_process,
     CreateTable ''indicators''
       [(''indicator_id'', ''INTEGER PRIMARY KEY AUTOINCREMENT''), (''pattern'', ''TEXT NOT NULL''),
        (''pattern_type'', ''TEXT NOT NULL''), (''threat_label'', ''TEXT NOT NULL''),
        (''created_at'', ''TIMESTAMP DEFAULT CURRENT_TIMESTAMP'')] [],
     CreateIndex ''idx_processes_launched_at'' ''processes'' [''launched_at DESC''],
     CreateIndex ''idx_file_path'' ''file_modifications'' [''file_path''],
     CreateIndex ''idx_network_dest'' ''network_connections'' [''remote_ip'', ''remote_port''],
     CreateIndex ''idx_processes_sha256'' ''processes'' [''sha256'']]"

text \<open>
  The SQLite driver and the file system are outside the repository: a driver says what opening,
  pinging and checking a database return and what they and a statement make of the file (the first
  connection creates it); \<open>rename_ok\<close> says whether the rename succeeds.
\<close>

record 'f driver =
  drv_open :: "string \<Rightarrow> go_error option"
  drv_ping :: "'f option \<Rightarrow> go_error option \<times> 'f option"
  drv_integrity :: "'f option \<Rightarrow> string result \<times> 'f option"
  drv_exec :: "ddl \<Rightarrow> 'f option \<Rightarrow> go_error option \<times> 'f option"
  rename_ok :: bool

fun migrate :: "'f driver \<Rightarrow> ddl list \<Rightarrow> 'f option \<Rightarrow> go_error option \<times> 'f option" where
  "migrate drv [] f = (None, f)"
| "migrate drv (q # qs) f =
     (case drv_exec drv q f of
        (Some e, f') \<Rightarrow> (Some e, f')
      | (None, f') \<Rightarrow> migrate drv qs f')"

definition migrate_at ::
  "'f driver \<Rightarrow> string \<Rightarrow> (string \<Rightarrow> 'f option) \<Rightarrow> unit result \<times> (string \<Rightarrow> 'f option)" where
  "migrate_at drv dbPath fs =
     (case migrate drv migrations (fs dbPath) of
        (Some e, f) \<Rightarrow> (Err e, fs(dbPath := f))
      | (None, f) \<Rightarrow> (Ok (), fs(dbPath := f)))"

definition handleCorruptDB ::
  "'f driver \<Rightarrow> string \<Rightarrow> (string \<Rightarrow> 'f option) \<Rightarrow> unit result \<times> (string \<Rightarrow> 'f option)" where
  "handleCorruptDB drv dbPath fs =
     (let fs1 = (case fs dbPath of
                   None \<Rightarrow> fs
                 | Some f \<Rightarrow> if rename_ok drv
                            then fs(dbPath @ ''.corrupt'' := Some f, dbPath := None) else fs)
      in case drv_open drv dbPath of
           Some e \<Rightarrow> (Err e, fs1)
         | None \<Rightarrow> migrate_at drv dbPath fs1)"

definition NewStorage ::
  "'f driver \<Rightarrow> string \<Rightarrow> (string \<Rightarrow> 'f option) \<Rightarrow> unit result \<times> (string \<Rightarrow> 'f option)" where
  "NewStorage drv dbPath fs =
     (case drv_open drv dbPath of
        Some _ \<Rightarrow> handleCorruptDB drv dbPath fs
      | None \<Rightarrow>
          (case drv_ping drv (fs dbPath) of
             (Some _, f1) \<Rightarrow> handleCorruptDB drv dbPath (fs(dbPath := f1))
           | (None, f1) \<Rightarrow>
               (case drv_integrity drv f1 of
                  (Inl _, f2) \<Rightarrow> handleCorruptDB drv dbPath (fs(dbPath := f2))
                | (Inr s, f2) \<Rightarrow> if s \<noteq> ''ok'' then handleCorruptDB drv dbPath (fs(dbPath := f2))
                          else migrate_at drv dbPath (fs(dbPath := f2)))))"

section \<open>The schema invariant\<close>

text \<open>Process ids are unique and at most the last one given out, and every row that names a
  process names a stored one.\<close>

definition db_ok :: "db \<Rightarrow> bool" where
  "db_ok d \<longleftrightarrow> distinct (map p_process_id (processes d))
     \<and> (\<forall>i \<in> process_ids d. i \<le> proc_seq d) \<and> referenced d \<subseteq> process_ids d"

lemma db_ok_empty [simp]: "db_ok empty_db"
  by (simp add: db_ok_def empty_db_def process_ids_def referenced_def alerted_def)

lemmas sql_insert_defs = sql_insert_process_def sql_insert_file_def sql_insert_net_def
  sql_insert_alert_def sql_insert_indicator_def

lemmas table_defs = process_ids_def referenced_def alerted_def

lemma sql_insert_process_ok [invs]:
  "db_ok d \<Longrightarrow> db_ok (snd (sql_insert_process now a b c e f d))"
proof -
  assume ok: "db_ok d"
  then have "proc_seq d + 1 \<notin> process_ids d" by (auto simp: db_ok_def)
  with ok show ?thesis
    by (auto simp: db_ok_def sql_insert_process_def table_defs Let_def)
qed

lemma sql_insert_file_ok [invs]: "db_ok d \<Longrightarrow> db_ok (snd (sql_insert_file now p a b d))"
  by (auto simp: db_ok_def sql_insert_defs table_defs Let_def)

lemma sql_insert_net_ok [invs]: "db_ok d \<Longrightarrow> db_ok (snd (sql_insert_net now p a b c e f d))"
  by (auto simp: db_ok_def sql_insert_defs table_defs Let_def)

lemma sql_insert_alert_ok [invs]: "db_ok d \<Longrightarrow> db_ok (snd (sql_insert_alert now a b c e p d))"
  by (auto simp: db_ok_def sql_insert_defs table_defs Let_def)

lemma sql_insert_indicator_ok [invs]: "db_ok d \<Longrightarrow> db_ok (snd (sql_insert_indicator now a b c d))"
  by (auto simp: db_ok_def sql_insert_defs table_defs Let_def)

lemma sql_prune_files_ok [invs]: "db_ok d \<Longrightarrow> db_ok (snd (sql_prune_files cutoff d))"
  by (auto simp: db_ok_def sql_prune_files_def table_defs)

lemma sql_prune_nets_ok [invs]: "db_ok d \<Longrightarrow> db_ok (snd (sql_prune_nets cutoff d))"
  by (auto simp: db_ok_def sql_prune_nets_def table_defs)

lemma distinct_map_fst_filter: "distinct (map f xs) \<Longrightarrow> distinct (map f (filter P xs))"
  by (induction xs) auto

lemma sql_prune_processes_ok [invs]: "db_ok d \<Longrightarrow> db_ok (snd (sql_prune_processes cutoff d))"
proof (cases "list_ex (\<lambda>r. stale_process cutoff d r \<and> p_process_id r \<in> referenced d) (processes d)")
  case True
  then show "db_ok d \<Longrightarrow> ?thesis" by (simp add: sql_prune_processes_def)
next
  case False
  let ?d = "d\<lparr>processes := filter (\<lambda>r. \<not> stale_process cutoff d r) (processes d)\<rparr>"
  assume ok: "db_ok d"
  have "i \<in> process_ids ?d" if "i \<in> referenced d" for i
  proof -
    from ok that have "i \<in> process_ids d" by (auto simp: db_ok_def)
    then obtain r where "r \<in> set (processes d)" "p_process_id r = i"
      by (auto simp: process_ids_def)
    with False that show ?thesis by (auto simp: process_ids_def list_ex_iff)
  qed
  moreover have "referenced ?d = referenced d" by (simp add: table_defs)
  moreover have "process_ids ?d \<subseteq> process_ids d" by (auto simp: process_ids_def)
  ultimately have "db_ok ?d"
    using ok by (auto simp: db_ok_def distinct_map_fst_filter)
  with False show ?thesis by (simp add: sql_prune_processes_def)
qed

lemma guarded_ok [invs]:
  assumes "db_ok d" and "\<And>x. db_ok x \<Longrightarrow> db_ok (snd (stmt x))"
  shows "db_ok (snd (guarded fault stmt d))"
  using assms by (simp add: guarded_def split: option.split)

lemma PruneOldTelemetry_ok [invs]:
  assumes ok: "db_ok d"
  shows "db_ok (snd (PruneOldTelemetry fault cutoff d))"
proof -
  obtain r1 d1 where 1: "guarded (fault 0) (sql_prune_files cutoff) d = (r1, d1)" by fastforce
  obtain r2 d2 where 2: "guarded (fault (Suc 0)) (sql_prune_nets cutoff) d1 = (r2, d2)" by fastforce
  have "db_ok (snd (guarded (fault 0) (sql_prune_files cutoff) d))"
    by (rule guarded_ok [OF ok sql_prune_files_ok])
  then have d1: "db_ok d1" by (simp add: 1)
  have "db_ok (snd (guarded (fault (Suc 0)) (sql_prune_nets cutoff) d1))"
    by (rule guarded_ok [OF d1 sql_prune_nets_ok])
  then have d2: "db_ok d2" by (simp add: 2)
  have "db_ok (snd (guarded (fault 2) (sql_prune_processes cutoff) d2))"
    by (rule guarded_ok [OF d2 sql_prune_processes_ok])
  with d1 d2 show ?thesis
    by (simp add: PruneOldTelemetry_def 1 2 split: sum.split)
qed

section \<open>Runs of the store\<close>

text \<open>One constructor per operation that changes the store; a run executes a list of them,
  each at its own time and with its own engine errors, and ignores their results.\<close>

datatype store_op =
  OpProcess "go_error option" go_time int string string string string
| OpFile "go_error option" go_time int string string
| OpNet "go_error option" go_time int string string int string int
| OpAlert "go_error option" go_time string string f64 string int
| OpIndicator "go_error option" go_time string string string
| OpPrune "nat \<Rightarrow> go_error option" local_time

fun store_step :: "store_op \<Rightarrow> db \<Rightarrow> db" where
  "store_step (OpProcess f t a b c e u) d = snd (InsertProcess f t a b c e u d)"
| "store_step (OpFile f t p b c) d = snd (InsertFileModification f t p b c d)"
| "store_step (OpNet f t p a b c e g) d = snd (InsertNetworkConnection f t p a b c e g d)"
| "store_step (OpAlert f t a b r e p) d = snd (InsertAlertLog f t a b r e p d)"
| "store_step (OpIndicator f t a b c) d = snd (InsertIndicator f t a b c d)"
| "store_step (OpPrune f t) d = snd (PruneOldTelemetry f t d)"

definition store_run :: "store_op list \<Rightarrow> db \<Rightarrow> db" where
  "store_run ops d = fold store_step ops d"

lemmas store_op_defs = InsertProcess_def InsertFileModification_def InsertNetworkConnection_def
  InsertAlertLog_def InsertIndicator_def

lemma store_step_ok [invs]: "db_ok d \<Longrightarrow> db_ok (store_step op d)"
  by (cases op) (auto simp: store_op_defs intro!: guarded_ok invs)

text \<open>Whatever the sequence of inserts and prunes, whatever statements the
  engine refuses and whatever the timestamps, the schema invariant holds: unique process ids below the
  sequence value, and no file, network or alert row that refers to a process that is not stored.\<close>

lemma store_run_ok: "db_ok d \<Longrightarrow> db_ok (store_run ops d)"
  unfolding store_run_def by (induction ops arbitrary: d) (simp_all add: store_step_ok)

text \<open>The row numbers given to processes start at 1, so that no row ever has the number 0, the
  PID of an event that names none.\<close>

definition ids_positive :: "db \<Rightarrow> bool" where
  "ids_positive d \<longleftrightarrow> 0 \<le> proc_seq d \<and> (\<forall>i \<in> process_ids d. 0 < i)"

lemma guarded_ids [invs]:
  assumes "ids_positive d" and "\<And>x. ids_positive x \<Longrightarrow> ids_positive (snd (stmt x))"
  shows "ids_positive (snd (guarded fault stmt d))"
  using assms by (simp add: guarded_def split: option.split)

lemma sql_insert_ids [invs]:
  "ids_positive d \<Longrightarrow> ids_positive (snd (sql_insert_process now ppid path sha cmd user d))"
  "ids_positive d \<Longrightarrow> ids_positive (snd (sql_insert_file now pid path action d))"
  "ids_positive d \<Longrightarrow> ids_positive (snd (sql_insert_net now pid proto lip lport rip rport d))"
  "ids_positive d \<Longrightarrow> ids_positive (snd (sql_insert_alert now rule cat risk desc pid d))"
  "ids_positive d \<Longrightarrow> ids_positive (snd (sql_insert_indicator now pat typ label d))"
  by (auto simp: ids_positive_def sql_insert_defs process_ids_def Let_def)

lemma prune_ids [invs]: "ids_positive d \<Longrightarrow> ids_positive (snd (PruneOldTelemetry fault cutoff d))"
  by (cases "fault 0"; cases "fault (Suc 0)"; cases "fault 2")
    (auto simp: ids_positive_def PruneOldTelemetry_def guarded_def sql_prune_files_def sql_prune_nets_def
      sql_prune_processes_def process_ids_def)

lemma store_run_ids: "ids_positive d \<Longrightarrow> ids_positive (store_run ops d)"
proof (unfold store_run_def, induction ops arbitrary: d)
  case (Cons op ops)
  from Cons.prems have "ids_positive (store_step op d)"
    by (cases op) (auto simp: store_op_defs intro!: guarded_ids invs)
  with Cons.IH show ?case by simp
qed simp

lemma no_row_zero: "0 \<notin> process_ids (store_run ops empty_db)"
  using store_run_ids [of empty_db ops] by (auto simp: ids_positive_def empty_db_def process_ids_def)

section \<open>What pruning removes and keeps\<close>

lemmas prune_defs = PruneOldTelemetry_def guarded_def sql_prune_files_def sql_prune_nets_def
  sql_prune_processes_def

lemma PruneOldTelemetry_success:
  assumes "fst (PruneOldTelemetry fault cutoff d) = Inr ()"
  shows "snd (PruneOldTelemetry fault cutoff d) =
      d\<lparr>file_modifications := filter (\<lambda>r. \<not> (sql_before (f_occurred_at r) cutoff
          \<and> f_process_id r \<notin> alerted d)) (file_modifications d),
        network_connections := filter (\<lambda>r. \<not> (sql_before (n_occurred_at r) cutoff
          \<and> n_process_id r \<notin> alerted d)) (network_connections d),
        processes := filter (\<lambda>r. \<not> stale_process cutoff d r) (processes d)\<rparr>"
  using assms
  by (cases "fault 0"; cases "fault (Suc 0)"; cases "fault 2")
    (simp_all add: prune_defs alerted_def stale_process_def split: if_splits)

text \<open>Pruning never removes evidence: process, file and network rows of a process
  with an alert survive every prune, whatever the cutoff and whatever fails, and so does every
  row that is not older than the cutoff; alerts and indicators are untouched.\<close>

lemma prune_keeps_evidence:
  "{r \<in> set (processes d). p_process_id r \<in> alerted d \<or> \<not> sql_before (p_launched_at r) cutoff}
      \<subseteq> set (processes (snd (PruneOldTelemetry fault cutoff d)))
   \<and> {r \<in> set (file_modifications d). f_process_id r \<in> alerted d \<or> \<not> sql_before (f_occurred_at r) cutoff}
      \<subseteq> set (file_modifications (snd (PruneOldTelemetry fault cutoff d)))
   \<and> {r \<in> set (network_connections d). n_process_id r \<in> alerted d \<or> \<not> sql_before (n_occurred_at r) cutoff}
      \<subseteq> set (network_connections (snd (PruneOldTelemetry fault cutoff d)))
   \<and> alert_logs (snd (PruneOldTelemetry fault cutoff d)) = alert_logs d
   \<and> indicators (snd (PruneOldTelemetry fault cutoff d)) = indicators d"
  by (cases "fault 0"; cases "fault (Suc 0)"; cases "fault 2")
    (auto simp: prune_defs alerted_def stale_process_def)

text \<open>No operation of the store removes an alert.\<close>

lemma store_step_alerts: "set (alert_logs d) \<subseteq> set (alert_logs (store_step op d))"
  using prune_keeps_evidence
  by (cases op) (auto simp: store_op_defs guarded_def sql_insert_defs Let_def split: option.splits)

lemma store_run_alerts: "set (alert_logs d) \<subseteq> set (alert_logs (store_run ops d))"
  unfolding store_run_def
proof (induction ops arbitrary: d)
  case (Cons op ops)
  then show ?case using store_step_alerts [of d op] by fastforce
qed simp

text \<open>When pruning reports success, no row older than the cutoff of a process
  without an alert is left in any of the three tables.\<close>

lemma prune_complete:
  assumes "fst (PruneOldTelemetry fault cutoff d) = Inr ()"
  defines "d' \<equiv> snd (PruneOldTelemetry fault cutoff d)"
  shows "{r \<in> set (processes d'). sql_before (p_launched_at r) cutoff} \<subseteq> {r. p_process_id r \<in> alerted d}
    \<and> {r \<in> set (file_modifications d'). sql_before (f_occurred_at r) cutoff} \<subseteq> {r. f_process_id r \<in> alerted d}
    \<and> {r \<in> set (network_connections d'). sql_before (n_occurred_at r) cutoff} \<subseteq> {r. n_process_id r \<in> alerted d}"
  unfolding d'_def PruneOldTelemetry_success [OF assms(1)]
  by (auto simp: stale_process_def)

text \<open>Without engine errors the last \<open>DELETE\<close> fails exactly when a process to be deleted still has a row that stays.\<close>

lemma prune_succeeds_iff:
  assumes "\<And>n. fault n = None"
  shows "is_ok (fst (PruneOldTelemetry fault cutoff d)) \<longleftrightarrow>
    \<not> (\<exists>p \<in> set (processes d). stale_process cutoff d p
       \<and> ((\<exists>f \<in> set (file_modifications d). f_process_id f = p_process_id p \<and> \<not> sql_before (f_occurred_at f) cutoff)
          \<or> (\<exists>n \<in> set (network_connections d). n_process_id n = p_process_id p \<and> \<not> sql_before (n_occurred_at n) cutoff)))"
proof -
  let ?d2 = "d\<lparr>file_modifications := filter (\<lambda>r. \<not> (sql_before (f_occurred_at r) cutoff \<and> f_process_id r \<notin> alerted d)) (file_modifications d),
    network_connections := filter (\<lambda>r. \<not> (sql_before (n_occurred_at r) cutoff \<and> n_process_id r \<notin> alerted d)) (network_connections d)\<rparr>"
  have "is_ok (fst (PruneOldTelemetry fault cutoff d)) \<longleftrightarrow>
    \<not> list_ex (\<lambda>r. stale_process cutoff ?d2 r \<and> p_process_id r \<in> referenced ?d2) (processes d)"
    by (simp add: prune_defs assms alerted_def)
  also have "\<dots> \<longleftrightarrow> \<not> (\<exists>p \<in> set (processes d). stale_process cutoff d p \<and> p_process_id p \<in> referenced ?d2)"
    by (simp add: list_ex_iff stale_process_def alerted_def)
  finally have ok: "is_ok (fst (PruneOldTelemetry fault cutoff d)) \<longleftrightarrow>
    \<not> (\<exists>p \<in> set (processes d). stale_process cutoff d p \<and> p_process_id p \<in> referenced ?d2)" .
  have "p_process_id p \<in> referenced ?d2 \<longleftrightarrow>
      (\<exists>f \<in> set (file_modifications d). f_process_id f = p_process_id p \<and> \<not> sql_before (f_occurred_at f) cutoff)
      \<or> (\<exists>n \<in> set (network_connections d). n_process_id n = p_process_id p \<and> \<not> sql_before (n_occurred_at n) cutoff)"
    if "stale_process cutoff d p" for p
  proof -
    have "alerted ?d2 = alerted d" by (simp add: alerted_def)
    moreover have "p_process_id p \<notin> alerted d" using that by (simp add: stale_process_def)
    ultimately show ?thesis unfolding referenced_def by (auto simp: image_iff)
  qed
  with ok show ?thesis by blast
qed

text \<open>C10 (safety). Pruning keeps evidence and deletes all else that is old, where a time is old when its UTC
  text is less than the text of the cutoff. Whatever the engine refuses, no alert and no indicator goes, and every
  row of a process with an alert stays, and so does every row that is not old. Success means that
  no other old row is left. Without engine errors it succeeds unless an old process without an alert
  still has a file or network row that is not old; then no process at all is deleted.\<close>

theorem prune_spec:
  assumes prune: "PruneOldTelemetry fault cutoff d = (r, d')"
  shows "alert_logs d' = alert_logs d \<and> indicators d' = indicators d
    \<and> {x \<in> set (processes d). p_process_id x \<in> alerted d \<or> \<not> sql_before (p_launched_at x) cutoff} \<subseteq> set (processes d')
    \<and> {x \<in> set (file_modifications d). f_process_id x \<in> alerted d \<or> \<not> sql_before (f_occurred_at x) cutoff} \<subseteq> set (file_modifications d')
    \<and> {x \<in> set (network_connections d). n_process_id x \<in> alerted d \<or> \<not> sql_before (n_occurred_at x) cutoff} \<subseteq> set (network_connections d')
    \<and> (r = Ok () \<longrightarrow> {x \<in> set (processes d'). sql_before (p_launched_at x) cutoff} \<subseteq> {x. p_process_id x \<in> alerted d}
      \<and> {x \<in> set (file_modifications d'). sql_before (f_occurred_at x) cutoff} \<subseteq> {x. f_process_id x \<in> alerted d}
      \<and> {x \<in> set (network_connections d'). sql_before (n_occurred_at x) cutoff} \<subseteq> {x. n_process_id x \<in> alerted d})
    \<and> ((\<forall>n. fault n = None) \<longrightarrow>
      is_ok r = (\<not> (\<exists>p \<in> set (processes d). sql_before (p_launched_at p) cutoff \<and> p_process_id p \<notin> alerted d
         \<and> ((\<exists>f \<in> set (file_modifications d). f_process_id f = p_process_id p \<and> \<not> sql_before (f_occurred_at f) cutoff)
            \<or> (\<exists>n \<in> set (network_connections d). n_process_id n = p_process_id p \<and> \<not> sql_before (n_occurred_at n) cutoff))))
      \<and> (\<not> is_ok r \<longrightarrow> processes d' = processes d))"
proof (intro conjI)
  show "r = Ok () \<longrightarrow> {x \<in> set (processes d'). sql_before (p_launched_at x) cutoff} \<subseteq> {x. p_process_id x \<in> alerted d}
      \<and> {x \<in> set (file_modifications d'). sql_before (f_occurred_at x) cutoff} \<subseteq> {x. f_process_id x \<in> alerted d}
      \<and> {x \<in> set (network_connections d'). sql_before (n_occurred_at x) cutoff} \<subseteq> {x. n_process_id x \<in> alerted d}"
    using prune_complete [of fault cutoff d] by (simp add: prune)
  show "(\<forall>n. fault n = None) \<longrightarrow>
      is_ok r = (\<not> (\<exists>p \<in> set (processes d). sql_before (p_launched_at p) cutoff \<and> p_process_id p \<notin> alerted d
         \<and> ((\<exists>f \<in> set (file_modifications d). f_process_id f = p_process_id p \<and> \<not> sql_before (f_occurred_at f) cutoff)
            \<or> (\<exists>n \<in> set (network_connections d). n_process_id n = p_process_id p \<and> \<not> sql_before (n_occurred_at n) cutoff))))
      \<and> (\<not> is_ok r \<longrightarrow> processes d' = processes d)"
  proof (intro impI conjI)
    assume ok: "\<forall>n. fault n = None"
    from prune_succeeds_iff [of fault cutoff d] ok
    show "is_ok r = (\<not> (\<exists>p \<in> set (processes d). sql_before (p_launched_at p) cutoff \<and> p_process_id p \<notin> alerted d
         \<and> ((\<exists>f \<in> set (file_modifications d). f_process_id f = p_process_id p \<and> \<not> sql_before (f_occurred_at f) cutoff)
            \<or> (\<exists>n \<in> set (network_connections d). n_process_id n = p_process_id p \<and> \<not> sql_before (n_occurred_at n) cutoff))))"
      unfolding stale_process_def conj_assoc by (simp add: prune)
    show "processes d' = processes d" if "\<not> is_ok r"
      using prune that ok by (auto simp: prune_defs split: if_splits)
  qed
qed (use prune_keeps_evidence [of d cutoff fault] in \<open>simp_all add: prune\<close>)

definition evidence_db :: db where
  "evidence_db = store_run [OpProcess None 0 1 ''/bin/sh'' ''h'' ''sh'' ''root'', OpProcess None 0 1 ''/bin/ls'' ''h'' ''ls'' ''root'',
     OpFile None 0 1 ''/etc/x'' ''write'', OpFile None 0 2 ''/etc/y'' ''write'', OpAlert None 0 ''r'' ''c'' 1 ''d'' 1] empty_db"

lemma evidence_db_eval:
  "processes evidence_db = [\<lparr>p_process_id = 1, p_parent_id = 1, p_binary_path = ''/bin/sh'', p_sha256 = ''h'', p_command_line = ''sh'',
       p_username = ''root'', p_launched_at = 0\<rparr>,
     \<lparr>p_process_id = 2, p_parent_id = 1, p_binary_path = ''/bin/ls'', p_sha256 = ''h'', p_command_line = ''ls'',
       p_username = ''root'', p_launched_at = 0\<rparr>]"
  "file_modifications evidence_db = [\<lparr>f_event_id = 1, f_process_id = 1, f_file_path = ''/etc/x'', f_action = ''write'', f_occurred_at = 0\<rparr>,
     \<lparr>f_event_id = 2, f_process_id = 2, f_file_path = ''/etc/y'', f_action = ''write'', f_occurred_at = 0\<rparr>]"
  "network_connections evidence_db = []" "alerted evidence_db = {1}"
  by (simp_all add: evidence_db_def store_run_def store_op_defs guarded_def sql_insert_defs empty_db_def
      process_ids_def alerted_def current_timestamp_def)

theorem prune_spec_witness:
  "\<exists>r d'. PruneOldTelemetry (\<lambda>_. None) (in_zone UTC (600 * second)) evidence_db = (r, d') \<and> is_ok r
     \<and> hd (file_modifications evidence_db) \<in> set (file_modifications d')"
proof -
  obtain cutoff where cutoff: "cutoff = in_zone UTC (600 * second)" by simp
  obtain r d' where p: "PruneOldTelemetry (\<lambda>_. None) cutoff evidence_db = (r, d')" by (rule prod.exhaust)
  note spec = prune_spec [OF p]
  have "sql_before 0 cutoff" by (simp add: cutoff sql_before_iff dated_def)
  then have "is_ok r"
    using spec [THEN conjunct2, THEN conjunct2, THEN conjunct2, THEN conjunct2, THEN conjunct2, THEN conjunct2]
    by (simp add: evidence_db_eval)
  moreover have "hd (file_modifications evidence_db) \<in> set (file_modifications d')"
    using spec [THEN conjunct2, THEN conjunct2, THEN conjunct2, THEN conjunct1] by (simp add: evidence_db_eval subset_iff)
  ultimately show ?thesis using p unfolding cutoff by blast
qed

text \<open>A process older than the cutoff, without an alert, that still has a file
  event younger than the cutoff blocks the pruning of all processes: the last \<open>DELETE\<close>
  violates the foreign key, pruning returns an error and the processes table is unchanged.\<close>

theorem prune_blocked_by_recent_activity:
  assumes "r \<in> set (processes d)" "sql_before (p_launched_at r) cutoff" "p_process_id r \<notin> alerted d"
    and "f \<in> set (file_modifications d)" "f_process_id f = p_process_id r" "\<not> sql_before (f_occurred_at f) cutoff"
  shows "\<not> is_ok (fst (PruneOldTelemetry fault cutoff d))
    \<and> processes (snd (PruneOldTelemetry fault cutoff d)) = processes d"
proof -
  let ?keep = "\<lambda>r. \<not> (sql_before (f_occurred_at r) cutoff \<and> f_process_id r \<notin> alerted d)"
  have "f_process_id f \<in> f_process_id ` {r \<in> set (file_modifications d). ?keep r}"
    using assms(4,6) by auto
  with assms show ?thesis
    by (cases "fault 0"; cases "fault (Suc 0)"; cases "fault 2")
      (auto simp: prune_defs alerted_def stale_process_def referenced_def list_ex_iff)
qed

definition blocked_db :: db where
  "blocked_db = store_run [OpProcess None 0 1 ''/bin/sh'' ''h'' ''sh'' ''root'',
     OpFile None (900 * second) 1 ''/var/log/x'' ''write''] empty_db"

lemma blocked_db_eval:
  "blocked_db = empty_db\<lparr>processes := [\<lparr>p_process_id = 1, p_parent_id = 1, p_binary_path = ''/bin/sh'',
     p_sha256 = ''h'', p_command_line = ''sh'', p_username = ''root'', p_launched_at = 0\<rparr>], proc_seq := 1,
     file_modifications := [\<lparr>f_event_id = 1, f_process_id = 1, f_file_path = ''/var/log/x'',
     f_action = ''write'', f_occurred_at = 900 * second\<rparr>], file_seq := 1\<rparr>"
  by (simp add: blocked_db_def store_run_def store_op_defs guarded_def sql_insert_defs empty_db_def
      process_ids_def current_timestamp_def)

theorem prune_blocked_witness:
  "\<not> is_ok (fst (PruneOldTelemetry (\<lambda>_. None) (in_zone UTC (600 * second)) blocked_db))
    \<and> processes (snd (PruneOldTelemetry (\<lambda>_. None) (in_zone UTC (600 * second)) blocked_db)) = processes blocked_db"
  by (rule prune_blocked_by_recent_activity
      [of "hd (processes blocked_db)" _ _ "hd (file_modifications blocked_db)"])
    (simp_all add: blocked_db_eval empty_db_def alerted_def sql_before_iff dated_def)

section \<open>Round trip and corruption handling\<close>

text \<open>A file event that the store accepts is what a later query over a window
  around its time returns, after the rows that were there before; an event of a process that
  is not stored is refused with the foreign key error and changes nothing.\<close>

theorem insert_query_file:
  assumes "sql_between start end (current_timestamp now)"
  shows "(let (r, d') = InsertFileModification None now pid path action d
          in if pid \<in> process_ids d
             then r = Inr () \<and> QueryFileModifications NoFault start end d' =
                map_sum id (\<lambda>rows. rows @ [\<lparr>df_FilePath = path, df_Action = action,
                  df_OccurredAt = current_timestamp now\<rparr>]) (QueryFileModifications NoFault start end d)
             else r = Inl fk_error \<and> d' = d)"
  using assms
  by (simp add: InsertFileModification_def guarded_def sql_insert_file_def Let_def
      QueryFileModifications_def query_def)

theorem insert_query_file_witness:
  "QueryFileModifications NoFault (in_zone UTC 0) (in_zone UTC (901 * second))
     (snd (InsertFileModification None (900 * second) 1 ''/etc/x'' ''write'' blocked_db)) =
   Inr [\<lparr>df_FilePath = ''/var/log/x'', df_Action = ''write'', df_OccurredAt = 900 * second\<rparr>,
        \<lparr>df_FilePath = ''/etc/x'', df_Action = ''write'', df_OccurredAt = 900 * second\<rparr>]"
proof -
  have "sql_between (in_zone UTC 0) (in_zone UTC (901 * second)) (900 * second)"
    by (simp add: sql_between_iff dated_def)
  then show ?thesis
    using insert_query_file [of "in_zone UTC 0" "in_zone UTC (901 * second)" "900 * second" 1 "''/etc/x''" "''write''" blocked_db]
    by (simp add: blocked_db_eval empty_db_def process_ids_def current_timestamp_def Let_def
        QueryFileModifications_def query_def split: prod.splits)
qed

lemma migrate_at_fs [simp]: "snd (migrate_at drv p fs) = fs(p := snd (migrate drv migrations (fs p)))"
  by (simp add: migrate_at_def split: option.split prod.split)

lemma handleCorruptDB_fs:
  assumes "rename_ok drv" "fs path = Some f"
  shows "snd (handleCorruptDB drv path fs) (path @ ''.corrupt'') = Some f
    \<and> snd (handleCorruptDB drv path fs) path \<in> {None, snd (migrate drv migrations None)}"
  using assms by (simp add: handleCorruptDB_def Let_def split: option.split)

text \<open>When the integrity check does not answer \<open>ok\<close> and the file can be renamed, the
  content of the damaged database is kept under the \<open>.corrupt\<close> name, and the migrations
  run on a fresh file, never on the damaged one. Pinging and checking leave an existing file alone.\<close>

theorem corrupt_db_preserved:
  assumes "snd (drv_ping drv (Some f)) = Some f" "drv_integrity drv (Some f) = (answer, Some f)" "answer \<noteq> Inr ''ok''"
    and "rename_ok drv" "fs path = Some f"
  shows "snd (NewStorage drv path fs) (path @ ''.corrupt'') = Some f
    \<and> snd (NewStorage drv path fs) path \<in> {None, snd (migrate drv migrations None)}"
proof -
  have same: "fs(path := Some f) = fs" using assms(5) by auto
  obtain e where "drv_ping drv (Some f) = (e, Some f)" using assms(1) by (cases "drv_ping drv (Some f)") auto
  then show ?thesis
    using assms handleCorruptDB_fs [of drv fs path f]
    by (auto simp: NewStorage_def same split: option.split sum.split)
qed

definition sample_driver :: "string driver" where
  "sample_driver = \<lparr>drv_open = (\<lambda>_. None), drv_ping = (\<lambda>f. (None, f)),
     drv_integrity = (\<lambda>f. (if f = Some ''junk'' then Inr ''malformed'' else Inr ''ok'', f)),
     drv_exec = (\<lambda>q f. (None, Some ''schema'')), rename_ok = True\<rparr>"

theorem corrupt_db_preserved_witness:
  "snd (NewStorage sample_driver ''t.db'' [''t.db'' \<mapsto> ''junk'']) ''t.db.corrupt'' = Some ''junk''"
  using corrupt_db_preserved [of sample_driver "''junk''" "Inr ''malformed''" "[''t.db'' \<mapsto> ''junk'']" "''t.db''"]
  by (simp add: sample_driver_def)

text \<open>A connection that creates the file and then fails, for instance on a pragma, leaves it behind as
  \<open>.corrupt\<close>, although there was no file before.\<close>

lemma fresh_file_left_corrupt:
  assumes "drv_open drv path = None" "drv_ping drv None = (Some err, Some f)" "rename_ok drv" "fs path = None"
  shows "snd (NewStorage drv path fs) (path @ ''.corrupt'') = Some f"
  using assms handleCorruptDB_fs [of drv "fs(path := Some f)" path f] by (simp add: NewStorage_def)

text \<open>Opening touches the database file and its \<open>.corrupt\<close> copy only.\<close>

lemma NewStorage_frame:
  assumes "q \<noteq> path" "q \<noteq> path @ ''.corrupt''"
  shows "snd (NewStorage drv path fs) q = fs q"
proof -
  have "snd (handleCorruptDB drv path g) q = g q" for g
    using assms by (auto simp: handleCorruptDB_def Let_def split: option.split)
  then show ?thesis
    using assms by (auto simp: NewStorage_def split: option.split sum.split prod.split)
qed

end
