(* ===== verification/Batch_Worker.thy ===== *)
theory Batch_Worker
  imports Go_Prelude
begin

text \<open>
  The consumer goroutine that \<open>Router.Start\<close> (\<open>internal/eventrouter\<close>) and
  \<open>Pipeline.Start\<close> (\<open>internal/telemetry\<close>) run over a buffered channel: it gathers events
  into a batch, flushes the batch at 100 events or when the ticker fires, and drains the
  channel when \<open>closeChan\<close> is closed. The two loops have the same text but for the
  \<open>ctx.Done()\<close> case of the pipeline, which flushes and returns without draining.
  A label names one step: a sender's non-blocking send, or the case the worker's
  \<open>select\<close> takes, with the environment (time, engine errors) of the flush it may run.
\<close>

section \<open>State and steps\<close>

datatype phase = Looping | Draining | Exited

record ('e, 's) worker =
  wk_queue :: "'e list"
  wk_batch :: "'e list"
  wk_phase :: phase
  wk_closed :: bool
  wk_sink :: 's

datatype ('e, 'env) label =
  Send 'e
| Recv 'env
| Tick 'env
| CloseChan
| SeeClose
| DrainRecv 'env
| DrainEnd 'env
| CtxDone 'env

abbreviation batch_limit :: nat where "batch_limit \<equiv> 100"

definition init_worker :: "'s \<Rightarrow> ('e, 's) worker" where
  "init_worker s = \<lparr>wk_queue = [], wk_batch = [], wk_phase = Looping, wk_closed = False, wk_sink = s\<rparr>"

definition flush :: "('env \<Rightarrow> 'e list \<Rightarrow> 's \<Rightarrow> 's) \<Rightarrow> 'env \<Rightarrow> ('e, 's) worker \<Rightarrow> ('e, 's) worker" where
  "flush sink env w =
     (if wk_batch w = [] then w
      else w\<lparr>wk_sink := sink env (wk_batch w) (wk_sink w), wk_batch := []\<rparr>)"

definition receive ::
  "('env \<Rightarrow> 'e list \<Rightarrow> 's \<Rightarrow> 's) \<Rightarrow> 'env \<Rightarrow> ('e, 's) worker \<Rightarrow> ('e, 's) worker option" where
  "receive sink env w =
     (case wk_queue w of
        [] \<Rightarrow> None
      | e # q \<Rightarrow>
          let w1 = w\<lparr>wk_queue := q, wk_batch := wk_batch w @ [e]\<rparr>
          in Some (if batch_limit \<le> length (wk_batch w1) then flush sink env w1 else w1))"

text \<open>One step; \<open>None\<close> where the step is not possible.\<close>

fun worker_step ::
  "('env \<Rightarrow> 'e list \<Rightarrow> 's \<Rightarrow> 's) \<Rightarrow> nat \<Rightarrow> ('e, 'env) label \<Rightarrow> ('e, 's) worker
     \<Rightarrow> ('e, 's) worker option" where
  "worker_step sink cap (Send e) w =
     (if length (wk_queue w) < cap then Some (w\<lparr>wk_queue := wk_queue w @ [e]\<rparr>) else None)"
| "worker_step sink cap (Recv env) w =
     (if wk_phase w = Looping then receive sink env w else None)"
| "worker_step sink cap (Tick env) w =
     (if wk_phase w = Looping then Some (flush sink env w) else None)"
| "worker_step sink cap CloseChan w =
     (if wk_closed w then None else Some (w\<lparr>wk_closed := True\<rparr>))"
| "worker_step sink cap SeeClose w =
     (if wk_phase w = Looping \<and> wk_closed w then Some (w\<lparr>wk_phase := Draining\<rparr>) else None)"
| "worker_step sink cap (DrainRecv env) w =
     (if wk_phase w = Draining then receive sink env w else None)"
| "worker_step sink cap (DrainEnd env) w =
     (if wk_phase w = Draining \<and> wk_queue w = []
      then Some (flush sink env w\<lparr>wk_phase := Exited\<rparr>) else None)"
| "worker_step sink cap (CtxDone env) w =
     (if wk_phase w = Looping then Some (flush sink env w\<lparr>wk_phase := Exited\<rparr>) else None)"

fun worker_run ::
  "('env \<Rightarrow> 'e list \<Rightarrow> 's \<Rightarrow> 's) \<Rightarrow> nat \<Rightarrow> ('e, 'env) label list \<Rightarrow> ('e, 's) worker
     \<Rightarrow> ('e, 's) worker option" where
  "worker_run sink cap [] w = Some w"
| "worker_run sink cap (l # ls) w =
     (case worker_step sink cap l w of None \<Rightarrow> None | Some w' \<Rightarrow> worker_run sink cap ls w')"

fun sends :: "('e, 'env) label list \<Rightarrow> 'e list" where
  "sends [] = []"
| "sends (Send e # ls) = e # sends ls"
| "sends (_ # ls) = sends ls"

section \<open>Facts of every sink\<close>

lemma flush_simps [simp]:
  "wk_queue (flush sink env w) = wk_queue w"
  "wk_batch (flush sink env w) = []"
  "wk_phase (flush sink env w) = wk_phase w"
  "wk_closed (flush sink env w) = wk_closed w"
  by (simp_all add: flush_def)

lemma receive_None [simp]: "receive sink env w = None \<longleftrightarrow> wk_queue w = []"
  by (simp add: receive_def Let_def split: list.split)

lemma receive_frame:
  "receive sink env w = Some w' \<Longrightarrow> wk_phase w' = wk_phase w \<and> wk_closed w' = wk_closed w
     \<and> length (wk_queue w) = Suc (length (wk_queue w'))"
  by (auto simp: receive_def Let_def split: list.splits if_splits)

lemma receive_batch_bound:
  "receive sink env w = Some w' \<Longrightarrow> length (wk_batch w') < batch_limit"
  by (auto simp: receive_def Let_def split: list.splits if_splits)

definition worker_ok :: "nat \<Rightarrow> ('e, 's) worker \<Rightarrow> bool" where
  "worker_ok cap w \<longleftrightarrow> length (wk_batch w) < batch_limit \<and> length (wk_queue w) \<le> cap
     \<and> (wk_phase w = Exited \<longrightarrow> wk_batch w = []) \<and> (wk_phase w = Draining \<longrightarrow> wk_closed w)"

lemma worker_ok_init [simp]: "worker_ok cap (init_worker s)"
  by (simp add: worker_ok_def init_worker_def)

lemma worker_step_ok:
  assumes "worker_ok cap w" "worker_step sink cap l w = Some w'"
  shows "worker_ok cap w'"
  using assms
  by (cases l) (auto simp: worker_ok_def split: if_splits dest: receive_frame receive_batch_bound)

lemma worker_run_ok:
  "worker_ok cap w \<Longrightarrow> worker_run sink cap ls w = Some w' \<Longrightarrow> worker_ok cap w'"
  by (induction ls arbitrary: w) (auto split: option.splits dest: worker_step_ok)

lemma worker_run_append:
  "worker_run sink cap (ls @ ms) w =
     (case worker_run sink cap ls w of None \<Rightarrow> None | Some w' \<Rightarrow> worker_run sink cap ms w')"
  by (induction ls arbitrary: w) (simp_all split: option.split)

lemma sends_append [simp]: "sends (ls @ ms) = sends ls @ sends ms"
  by (induction ls rule: sends.induct) simp_all

text \<open>The drain loop is finite: as many receives as the channel holds, then the final flush.\<close>

lemma drain_terminates:
  assumes "wk_phase w = Draining"
  shows "\<exists>w'. worker_run sink cap (replicate (length (wk_queue w)) (DrainRecv env) @ [DrainEnd env]) w = Some w'
    \<and> wk_phase w' = Exited \<and> wk_queue w' = [] \<and> wk_batch w' = []"
  using assms
proof (induction "wk_queue w" arbitrary: w)
  case Nil
  then show ?case by simp
next
  case (Cons e q)
  then obtain w1 where w1: "receive sink env w = Some w1"
    by (metis list.distinct(1) not_None_eq receive_None)
  have "wk_queue w1 = q"
    using w1 Cons.hyps(2) by (auto simp: receive_def Let_def split: list.splits if_splits)
  moreover have "wk_phase w1 = Draining" using receive_frame [OF w1] Cons.prems by simp
  ultimately show ?case
    using Cons.hyps(1) [of w1] Cons.prems w1 by (simp flip: Cons.hyps(2))
qed

text \<open>After the loop has returned nothing reaches the sink.\<close>

lemma exited_step:
  "wk_phase w = Exited \<Longrightarrow> worker_step sink cap l w = Some w1 \<Longrightarrow>
     wk_sink w1 = wk_sink w \<and> wk_phase w1 = Exited \<and> wk_queue w1 = wk_queue w @ sends [l]"
  by (cases l) (auto split: if_splits)

lemma exited_sink:
  "wk_phase w = Exited \<Longrightarrow> worker_run sink cap ls w = Some w' \<Longrightarrow>
     wk_sink w' = wk_sink w \<and> wk_phase w' = Exited \<and> wk_queue w' = wk_queue w @ sends ls"
proof (induction ls arbitrary: w)
  case Nil
  then show ?case by simp
next
  case (Cons l ls)
  then obtain w1 where w1: "worker_step sink cap l w = Some w1" "worker_run sink cap ls w1 = Some w'"
    by (auto split: option.splits)
  with exited_step [OF Cons.prems(1) w1(1)] Cons.IH [OF _ w1(2)] sends_append [of "[l]" ls]
  show ?case by simp
qed

text \<open>The turns of a run that are the worker's own: not the sends of others, not the close.\<close>

fun worker_turns :: "('e, 'env) label list \<Rightarrow> nat" where
  "worker_turns [] = 0"
| "worker_turns (Send e # ls) = worker_turns ls"
| "worker_turns (CloseChan # ls) = worker_turns ls"
| "worker_turns (l # ls) = Suc (worker_turns ls)"

lemma exited_no_turns:
  "wk_phase w = Exited \<Longrightarrow> worker_run sink cap ls w = Some w' \<Longrightarrow> worker_turns ls = 0"
proof (induction ls arbitrary: w)
  case (Cons l ls)
  from Cons.prems obtain w1 where w1: "worker_step sink cap l w = Some w1" "worker_run sink cap ls w1 = Some w'"
    by (auto split: option.splits)
  with Cons.IH [of w1] Cons.prems(1) show ?case by (cases l) (auto split: if_splits)
qed simp

lemma exited_batch:
  "wk_phase w = Exited \<Longrightarrow> worker_run sink cap ls w = Some w' \<Longrightarrow> wk_batch w' = wk_batch w"
proof (induction ls arbitrary: w)
  case (Cons l ls)
  from Cons.prems obtain w1 where w1: "worker_step sink cap l w = Some w1" "worker_run sink cap ls w1 = Some w'"
    by (auto split: option.splits)
  with Cons.IH [of w1] Cons.prems(1) show ?case by (cases l) (auto split: if_splits)
qed simp

text \<open>A draining worker, among any sends: each of its turns takes an event or returns.\<close>

lemma draining_run:
  "wk_phase w = Draining \<Longrightarrow> worker_run sink cap ls w = Some w' \<Longrightarrow>
     (wk_phase w' = Draining \<and> worker_turns ls + length (wk_queue w') = length (wk_queue w) + length (sends ls))
     \<or> (wk_phase w' = Exited \<and> wk_batch w' = [] \<and> worker_turns ls \<le> Suc (length (wk_queue w) + length (sends ls)))"
proof (induction ls arbitrary: w)
  case (Cons l ls)
  from Cons.prems obtain w1 where w1: "worker_step sink cap l w = Some w1" "worker_run sink cap ls w1 = Some w'"
    by (auto split: option.splits)
  show ?case
  proof (cases l)
    case (Send e)
    with Cons.IH [of w1] Cons.prems(1) w1 show ?thesis by (auto split: if_splits)
  next
    case (DrainRecv env)
    with w1(1) Cons.prems(1) receive_frame [of sink env w w1] have "wk_phase w1 = Draining" "length (wk_queue w) = Suc (length (wk_queue w1))"
      by (auto split: if_splits)
    with Cons.IH [of w1] w1(2) DrainRecv show ?thesis by auto
  next
    case (DrainEnd env)
    with w1 exited_sink [of w1 sink cap ls w'] exited_no_turns [of w1 sink cap ls w'] exited_batch [of w1 sink cap ls w']
    show ?thesis by (auto split: if_splits)
  next
    case CloseChan
    with Cons.IH [of w1] Cons.prems(1) w1 show ?thesis by (auto split: if_splits)
  qed (use w1 Cons.prems in \<open>auto split: if_splits\<close>)
qed simp

lemma draining_enabled:
  assumes "wk_phase w = Draining"
  shows "if wk_queue w = [] then \<exists>w'. worker_step sink cap (DrainEnd env) w = Some w' \<and> wk_phase w' = Exited
    else \<exists>w'. worker_step sink cap (DrainRecv env) w = Some w' \<and> length (wk_queue w) = Suc (length (wk_queue w'))"
proof (cases "wk_queue w")
  case (Cons e q)
  then have "receive sink env w \<noteq> None" by simp
  then obtain w' where "receive sink env w = Some w'" by blast
  with Cons assms show ?thesis using receive_frame [of sink env w w'] by simp
qed (use assms in simp)

lemma flush_sink: "wk_sink (flush sink env w) \<in> {wk_sink w, sink env (wk_batch w) (wk_sink w)}"
  by (simp add: flush_def)

text \<open>A property of the sink that every batch keeps is kept by every step.\<close>

lemma worker_step_sink:
  assumes "P (wk_sink w)" "\<And>env b s. P s \<Longrightarrow> P (sink env b s)"
    and "worker_step sink cap l w = Some w'"
  shows "P (wk_sink w')"
proof -
  have fl: "P (wk_sink v) \<Longrightarrow> P (wk_sink (flush sink env v))" for v env
    using assms(2) by (simp add: flush_def)
  have "P (wk_sink w')" if "receive sink env w = Some w'" for env
    using that assms(1) fl [of "w\<lparr>wk_queue := _, wk_batch := _\<rparr>" env]
    by (auto simp: receive_def Let_def split: list.splits if_splits)
  with assms fl show ?thesis by (cases l) (auto split: if_splits)
qed

lemma worker_run_sink:
  assumes "P (wk_sink w)" "\<And>env b s. P s \<Longrightarrow> P (sink env b s)"
    and "worker_run sink cap ls w = Some w'"
  shows "P (wk_sink w')"
  using assms(1,3)
proof (induction ls arbitrary: w)
  case (Cons l ls)
  then obtain w1 where w1: "worker_step sink cap l w = Some w1" "worker_run sink cap ls w1 = Some w'"
    by (auto split: option.splits)
  have "P (wk_sink w1)"
    by (rule worker_step_sink [of P w sink, OF Cons.prems(1) assms(2) w1(1)])
  with Cons.IH w1(2) show ?case by blast
qed simp

text \<open>The same, when only batches of certain events are known to keep it.\<close>

lemma worker_step_events:
  assumes keep: "\<And>env b s. P s \<Longrightarrow> \<forall>e \<in> set b. E e \<Longrightarrow> P (sink env b s)"
    and inv: "P (wk_sink w)" "\<forall>e \<in> set (wk_batch w @ wk_queue w). E e" "\<forall>e \<in> set (sends [l]). E e"
    and step: "worker_step sink cap l w = Some w'"
  shows "P (wk_sink w') \<and> (\<forall>e \<in> set (wk_batch w' @ wk_queue w'). E e)"
proof -
  have fl: "P (wk_sink (flush sink env v)) \<and> (\<forall>e \<in> set (wk_batch (flush sink env v) @ wk_queue (flush sink env v)). E e)"
    if "P (wk_sink v)" "\<forall>e \<in> set (wk_batch v @ wk_queue v). E e" for v env
    using that keep by (auto simp: flush_def)
  have rc: "P (wk_sink v) \<and> (\<forall>e \<in> set (wk_batch v @ wk_queue v). E e)" if "receive sink env w = Some v" for v env
  proof -
    have "receive sink env w \<noteq> None" using that by simp
    then have "wk_queue w \<noteq> []" by simp
    then obtain e q where q: "wk_queue w = e # q" by (cases "wk_queue w") auto
    let ?w1 = "w\<lparr>wk_queue := q, wk_batch := wk_batch w @ [e]\<rparr>"
    have "v = ?w1 \<or> v = flush sink env ?w1" using that by (auto simp: receive_def q Let_def split: if_splits)
    with fl [of ?w1 env] inv show ?thesis by (auto simp: q)
  qed
  show ?thesis
    using step inv fl [of w] rc by (cases l) (auto split: if_splits)
qed

lemma worker_run_events:
  assumes keep: "\<And>env b s. P s \<Longrightarrow> \<forall>e \<in> set b. E e \<Longrightarrow> P (sink env b s)"
    and "P (wk_sink w)" "\<forall>e \<in> set (wk_batch w @ wk_queue w). E e" "\<forall>e \<in> set (sends ls). E e"
    and "worker_run sink cap ls w = Some w'"
  shows "P (wk_sink w')"
  using assms(2-)
proof (induction ls arbitrary: w)
  case (Cons l ls)
  then obtain w1 where w1: "worker_step sink cap l w = Some w1" "worker_run sink cap ls w1 = Some w'"
    by (auto split: option.splits)
  have sends: "\<forall>e \<in> set (sends [l]). E e" "\<forall>e \<in> set (sends ls). E e"
    using Cons.prems(3) sends_append [of "[l]" ls] by auto
  from worker_step_events [where P = P and E = E, OF keep Cons.prems(1,2) sends(1) w1(1)] Cons.IH [OF _ _ sends(2) w1(2)]
  show ?case by blast
qed simp

section \<open>The contract of a sink\<close>

text \<open>
  A sink keeps a history of the events it was given and extends it with each batch, in the
  batch's order. Then the history, the batch and the channel, read in this order, are the
  events sent: nothing is lost, duplicated or reordered.
\<close>

locale batch_sink =
  fixes sink :: "'env \<Rightarrow> 'e list \<Rightarrow> 's \<Rightarrow> 's"
    and history :: "'s \<Rightarrow> 'e list"
  assumes history_sink: "history (sink env b s) = history s @ b"
begin

definition contents :: "('e, 's) worker \<Rightarrow> 'e list" where
  "contents w = history (wk_sink w) @ wk_batch w @ wk_queue w"

lemma contents_flush [simp]: "contents (flush sink env w) = contents w"
  by (simp add: contents_def flush_def history_sink)

lemma contents_phase [simp]: "contents (w\<lparr>wk_phase := p\<rparr>) = contents w"
  "contents (w\<lparr>wk_closed := c\<rparr>) = contents w"
  by (simp_all add: contents_def)

lemma contents_receive: "receive sink env w = Some w' \<Longrightarrow> contents w' = contents w"
proof -
  assume r: "receive sink env w = Some w'"
  then obtain e q where q: "wk_queue w = e # q" by (auto simp: receive_def split: list.splits)
  let ?w1 = "w\<lparr>wk_queue := q, wk_batch := wk_batch w @ [e]\<rparr>"
  have "contents ?w1 = contents w" by (simp add: contents_def q)
  moreover have "w' = ?w1 \<or> w' = flush sink env ?w1"
    using r by (auto simp: receive_def q Let_def split: if_splits)
  ultimately show ?thesis by auto
qed

lemma contents_step:
  "worker_step sink cap l w = Some w' \<Longrightarrow> contents w' = contents w @ sends [l]"
  by (cases l) (auto split: if_splits dest: contents_receive simp: contents_def [of "w\<lparr>wk_queue := _\<rparr>"]
      contents_def [of w])

lemma contents_run:
  "worker_run sink cap ls w = Some w' \<Longrightarrow> contents w' = contents w @ sends ls"
proof (induction ls arbitrary: w)
  case Nil
  then show ?case by simp
next
  case (Cons l ls)
  then obtain w1 where "worker_step sink cap l w = Some w1" "worker_run sink cap ls w1 = Some w'"
    by (auto split: option.splits)
  with Cons.IH contents_step [of cap l w w1] sends_append [of "[l]" ls] show ?case by simp
qed

lemma fifo:
  assumes "worker_run sink cap ls (init_worker s) = Some w"
  shows "history (wk_sink w) @ wk_batch w @ wk_queue w = history s @ sends ls"
  using contents_run [OF assms] by (simp add: contents_def init_worker_def)

text \<open>When the drain loop ends, everything sent so far has reached the sink.\<close>

lemma drained:
  assumes "worker_run sink cap (ls @ [DrainEnd env]) (init_worker s) = Some w"
  shows "history (wk_sink w) = history s @ sends ls"
proof -
  from assms obtain w1 where "worker_run sink cap ls (init_worker s) = Some w1"
    and "worker_step sink cap (DrainEnd env) w1 = Some w"
    by (auto simp: worker_run_append split: option.splits)
  then have "wk_queue w = []" "wk_batch w = []" by (auto split: if_splits)
  with fifo [OF assms] show ?thesis by simp
qed

text \<open>A worker that is stopped delivers what its batch and channel hold, in order, and returns.\<close>

lemma stop_delivers:
  assumes "wk_phase w = Looping" "\<not> wk_closed w"
  obtains w' where "worker_run sink cap ([CloseChan, SeeClose] @ replicate (length (wk_queue w)) (DrainRecv env) @ [DrainEnd env]) w = Some w'"
    "wk_phase w' = Exited" "wk_queue w' = []" "wk_batch w' = []" "history (wk_sink w') = contents w"
proof -
  let ?w1 = "w\<lparr>wk_closed := True, wk_phase := Draining\<rparr>"
  let ?ls = "replicate (length (wk_queue w)) (DrainRecv env) @ [DrainEnd env]"
  obtain w' where w': "worker_run sink cap ?ls ?w1 = Some w'" "wk_phase w' = Exited" "wk_queue w' = []" "wk_batch w' = []"
    using drain_terminates [of ?w1 sink cap env] by auto
  have "sends (replicate k (DrainRecv env) @ [DrainEnd env]) = []" for k by (induction k) simp_all
  then have "contents w' = contents w" using contents_run [OF w'(1)] by simp
  then have "history (wk_sink w') = contents w" by (simp add: contents_def [of w'] w')
  moreover have "worker_run sink cap ([CloseChan, SeeClose] @ ?ls) w = Some w'" using assms w'(1) by simp
  ultimately show thesis using w' by (intro that) simp_all
qed

text \<open>A worker that returned on a cancelled context never delivers what its channel holds.\<close>

lemma cancelled:
  assumes "worker_run sink cap (ls @ [CtxDone env] @ ms) (init_worker s) = Some w"
  obtains w1 where "worker_run sink cap (ls @ [CtxDone env]) (init_worker s) = Some w1"
    and "history (wk_sink w) = history (wk_sink w1)"
    and "history (wk_sink w) @ wk_queue w1 = history s @ sends ls"
proof -
  from assms obtain w1 where w1: "worker_run sink cap (ls @ [CtxDone env]) (init_worker s) = Some w1"
    and rest: "worker_run sink cap ms w1 = Some w"
    by (auto simp: worker_run_append split: option.splits)
  then have ex: "wk_phase w1 = Exited" "wk_batch w1 = []"
    by (auto simp: worker_run_append split: option.splits if_splits)
  from exited_sink [OF ex(1) rest] have "wk_sink w = wk_sink w1" by simp
  with fifo [OF w1] ex w1 show thesis by (intro that [of w1]) simp_all
qed

end

end
