(* ===== verification/Event_Router.thy ===== *)
theory Event_Router
  imports Storage Batch_Worker "HOL-Library.Multiset"
begin

text \<open>
  The event router (\<open>internal/eventrouter/eventrouter.go\<close>): pooled events, a bounded
  channel with triage of file reads under pressure, and the worker that writes batches to
  the store in one transaction each. Events are mutable objects shared by pointer, so they
  live in a heap \<open>addr \<Rightarrow> rt_event\<close>, and pool, channel and batch hold addresses. The channel
  capacity is positive (an unbuffered channel is not modelled). Logging is left out.
\<close>

section \<open>Events and their pool\<close>

type_synonym addr = nat

abbreviation TypeProcess :: string where "TypeProcess \<equiv> ''process''"
abbreviation TypeFile :: string where "TypeFile \<equiv> ''file''"
abbreviation TypeNetwork :: string where "TypeNetwork \<equiv> ''network''"

record rt_event =
  re_ID :: int64
  re_Type :: string
  re_Timestamp :: go_time
  re_ProcessID :: int32
  re_ParentID :: int32
  re_BinaryPath :: string
  re_SHA256 :: string
  re_CommandLine :: string
  re_Username :: string
  re_FilePath :: string
  re_FileAction :: string
  re_Protocol :: string
  re_LocalIP :: string
  re_LocalPort :: int32
  re_RemoteIP :: string
  re_RemotePort :: int32

definition zero_event :: rt_event where
  "zero_event = \<lparr>re_ID = 0, re_Type = [], re_Timestamp = 0, re_ProcessID = 0, re_ParentID = 0,
     re_BinaryPath = [], re_SHA256 = [], re_CommandLine = [], re_Username = [], re_FilePath = [],
     re_FileAction = [], re_Protocol = [], re_LocalIP = [], re_LocalPort = 0, re_RemoteIP = [],
     re_RemotePort = 0\<rparr>"

text \<open>What the worker writes to: the heap of events, the pool, the store. \<open>rs_flushed\<close> is a
  history variable: the events handed to \<open>flushBatch\<close>, in order.\<close>

record rt_sink =
  rs_heap :: "addr \<Rightarrow> rt_event"
  rs_pool :: "addr list"
  rs_db :: db
  rs_flushed :: "addr list"

definition reset_event :: "rt_event \<Rightarrow> rt_event" where
  "reset_event e = e\<lparr>re_ID := 0, re_Type := [], re_Timestamp := 0, re_ProcessID := 0,
     re_ParentID := 0, re_BinaryPath := [], re_SHA256 := [], re_CommandLine := [],
     re_Username := [], re_FilePath := [], re_FileAction := [], re_Protocol := [],
     re_LocalIP := [], re_LocalPort := 0, re_RemoteIP := [], re_RemotePort := 0\<rparr>"

definition PutEvent :: "addr \<Rightarrow> rt_sink \<Rightarrow> rt_sink" where
  "PutEvent a s = s\<lparr>rs_heap := (rs_heap s)(a := reset_event (rs_heap s a)), rs_pool := rs_pool s @ [a]\<rparr>"

lemma reset_event_zero [simp]: "reset_event e = zero_event"
  by (cases e) (simp add: reset_event_def zero_event_def)

section \<open>Flushing a batch\<close>

text \<open>The environment of a flush: its time and the errors the engine reports for the start of
  the transaction, its n-th statement and its commit.\<close>

record flush_env =
  fe_now :: go_time
  fe_begin :: "go_error option"
  fe_exec :: "nat \<Rightarrow> go_error option"
  fe_commit :: "go_error option"

type_synonym tx = "nat \<times> db"

definition tx_exec :: "flush_env \<Rightarrow> (db \<Rightarrow> 'a result \<times> db) \<Rightarrow> tx \<Rightarrow> tx" where
  "tx_exec env stmt t = (Suc (fst t), snd (guarded (fe_exec env (fst t)) stmt (snd t)))"

definition protected_names :: "string list" where
  "protected_names = [''telemetry.db'', ''aegis.yaml'', ''aegisd'', ''aegis.sock'']"

definition tampering :: "rt_event \<Rightarrow> bool" where
  "tampering e \<longleftrightarrow> re_Type e = TypeFile \<and> re_FileAction e \<noteq> ''read'' \<and> re_FileAction e \<noteq> ''open''
     \<and> list_ex (Contains (ToLower (re_FilePath e))) protected_names"

definition processBatchEvent :: "flush_env \<Rightarrow> rt_event \<Rightarrow> tx \<Rightarrow> tx" where
  "processBatchEvent env e t =
     (let t1 = (if tampering e
                then tx_exec env (sql_insert_alert (fe_now env) ''AGENT_SELF_DEFENSE'' ''anti-tampering'' 1
                  (''Unauthorized write/modify attempt detected on protected agent path: '' @ re_FilePath e)
                  (sint (re_ProcessID e))) t
                else t)
      in if re_Type e = TypeProcess
         then tx_exec env (sql_insert_process (fe_now env) (sint (re_ParentID e)) (re_BinaryPath e)
                (re_SHA256 e) (re_CommandLine e) (re_Username e)) t1
         else if re_Type e = TypeFile
         then tx_exec env (sql_insert_file (fe_now env) (sint (re_ProcessID e)) (re_FilePath e)
                (re_FileAction e)) t1
         else if re_Type e = TypeNetwork
         then tx_exec env (sql_insert_net (fe_now env) (sint (re_ProcessID e)) (re_Protocol e)
                (re_LocalIP e) (sint (re_LocalPort e)) (re_RemoteIP e) (sint (re_RemotePort e))) t1
         else t1)"

fun flush_events :: "flush_env \<Rightarrow> addr list \<Rightarrow> tx \<Rightarrow> rt_sink \<Rightarrow> tx \<times> rt_sink" where
  "flush_events env [] t s = (t, s)"
| "flush_events env (a # as) t s =
     flush_events env as (processBatchEvent env (rs_heap s a) t) (PutEvent a s)"

definition flushBatch :: "flush_env \<Rightarrow> addr list \<Rightarrow> rt_sink \<Rightarrow> rt_sink" where
  "flushBatch env batch s0 =
     (let s = s0\<lparr>rs_flushed := rs_flushed s0 @ batch\<rparr>
      in case fe_begin env of
           Some _ \<Rightarrow> fold PutEvent batch s
         | None \<Rightarrow>
             let (t, s') = flush_events env batch (0, rs_db s) s
             in case fe_commit env of Some _ \<Rightarrow> s' | None \<Rightarrow> s'\<lparr>rs_db := snd t\<rparr>)"

definition processEvent :: "flush_env \<Rightarrow> addr \<Rightarrow> rt_sink \<Rightarrow> rt_sink" where
  "processEvent env a s = flushBatch env [a] s"

lemma PutEvent_simps [simp]:
  "rs_heap (PutEvent a s) = (rs_heap s)(a := zero_event)"
  "rs_pool (PutEvent a s) = rs_pool s @ [a]"
  "rs_db (PutEvent a s) = rs_db s"
  "rs_flushed (PutEvent a s) = rs_flushed s"
  by (simp_all add: PutEvent_def)

definition zeroed :: "addr list \<Rightarrow> (addr \<Rightarrow> rt_event) \<Rightarrow> addr \<Rightarrow> rt_event" where
  "zeroed as h = (\<lambda>a. if a \<in> set as then zero_event else h a)"

lemma fold_PutEvent:
  "rs_heap (fold PutEvent as s) = zeroed as (rs_heap s)"
  "rs_pool (fold PutEvent as s) = rs_pool s @ as"
  "rs_db (fold PutEvent as s) = rs_db s"
  "rs_flushed (fold PutEvent as s) = rs_flushed s"
  by (induction as arbitrary: s) (auto simp: zeroed_def fun_eq_iff)

lemma flush_events_frame:
  "snd (flush_events env as t s) = fold PutEvent as s"
  by (induction as arbitrary: t s) simp_all

lemma flushBatch_frame:
  "rs_heap (flushBatch env b s) = zeroed b (rs_heap s)"
  "rs_pool (flushBatch env b s) = rs_pool s @ b"
  "rs_flushed (flushBatch env b s) = rs_flushed s @ b"
  using flush_events_frame [of env b "(0, rs_db s)" "s\<lparr>rs_flushed := rs_flushed s @ b\<rparr>"]
  by (auto simp: flushBatch_def Let_def fold_PutEvent split: option.split prod.split)

text \<open>When the addresses of the batch are distinct, the transaction executes the events as
  they were at the start of the flush.\<close>

lemma flush_events_tx:
  "distinct as \<Longrightarrow> fst (flush_events env as t s) =
     fold (\<lambda>a. processBatchEvent env (rs_heap s a)) as t"
proof (induction as arbitrary: t s)
  case Nil
  then show ?case by simp
next
  case (Cons a as)
  then have "fold (\<lambda>b. processBatchEvent env (rs_heap (PutEvent a s) b)) as t' =
      fold (\<lambda>b. processBatchEvent env (rs_heap s b)) as t'" for t'
    by (intro fold_cong) auto
  with Cons show ?case by simp
qed

lemma tx_exec_ok [invs]:
  assumes "db_ok (snd t)" "\<And>d. db_ok d \<Longrightarrow> db_ok (snd (stmt d))"
  shows "db_ok (snd (tx_exec env stmt t))"
  using guarded_ok [of "snd t" stmt] assms by (simp add: tx_exec_def)

lemma processBatchEvent_ok [invs]: "db_ok (snd t) \<Longrightarrow> db_ok (snd (processBatchEvent env e t))"
  by (auto simp: processBatchEvent_def Let_def intro!: invs)

lemma flush_events_ok: "db_ok (snd t) \<Longrightarrow> db_ok (snd (fst (flush_events env as t s)))"
  by (induction as arbitrary: t s) (simp_all add: processBatchEvent_ok)

lemma flushBatch_ok [invs]: "db_ok (rs_db s) \<Longrightarrow> db_ok (rs_db (flushBatch env b s))"
  using flush_events_ok [of "(0, rs_db s)" env b "s\<lparr>rs_flushed := rs_flushed s @ b\<rparr>"]
    flush_events_frame [of env b "(0, rs_db s)" "s\<lparr>rs_flushed := rs_flushed s @ b\<rparr>"]
  by (auto simp: flushBatch_def Let_def fold_PutEvent split: option.split prod.splits)

section \<open>The router\<close>

record router =
  rt_worker :: "(addr, rt_sink) worker"
  rt_capacity :: nat
  rt_dropped :: int64

definition NewRouter :: "nat \<Rightarrow> rt_sink \<Rightarrow> router" where
  "NewRouter capacity store = \<lparr>rt_worker = init_worker store, rt_capacity = capacity, rt_dropped = 0\<rparr>"

definition DroppedCount :: "router \<Rightarrow> int64" where
  "DroppedCount r = rt_dropped r"

definition watermark :: "nat \<Rightarrow> int" where
  "watermark capacity = int_of_f64 (fmul (f64_of_int (int capacity)) (rnd64 (4 / 5)))"

definition drop_event :: "addr \<Rightarrow> router \<Rightarrow> router" where
  "drop_event a r = r\<lparr>rt_dropped := rt_dropped r + 1,
     rt_worker := (rt_worker r)\<lparr>wk_sink := PutEvent a (wk_sink (rt_worker r))\<rparr>\<rparr>"

definition Submit :: "addr \<Rightarrow> router \<Rightarrow> bool \<times> router" where
  "Submit a r =
     (let qLen = length (wk_queue (rt_worker r));
          e = rs_heap (wk_sink (rt_worker r)) a
      in if watermark (rt_capacity r) \<le> int qLen \<and> re_Type e = TypeFile \<and> re_FileAction e = ''read''
         then (False, drop_event a r)
         else case worker_step flushBatch (rt_capacity r) (Send a) (rt_worker r) of
                Some w \<Rightarrow> (True, r\<lparr>rt_worker := w\<rparr>)
              | None \<Rightarrow> (False, drop_event a r))"

text \<open>\<open>Start\<close> runs the worker loop, \<open>Stop\<close> closes its channel.\<close>

definition router_step :: "(addr, flush_env) label \<Rightarrow> router \<Rightarrow> router option" where
  "router_step l r = map_option (\<lambda>w. r\<lparr>rt_worker := w\<rparr>)
     (worker_step flushBatch (rt_capacity r) l (rt_worker r))"

definition Stop :: "router \<Rightarrow> router option" where
  "Stop r = router_step CloseChan r"

section \<open>The worker's history\<close>

interpretation rt: batch_sink flushBatch rs_flushed
  by unfold_locales (rule flushBatch_frame)

interpretation rp: batch_sink flushBatch rs_pool
  by unfold_locales (rule flushBatch_frame)

text \<open>C6 (functional). At any moment of any run of the router's worker, the events handed to
  \<open>flushBatch\<close>, then the current batch, then the channel, are exactly the events sent, in the
  order they were sent; and when the drain loop after \<open>Stop\<close> returns, every event sent
  before has been handed to \<open>flushBatch\<close>.\<close>

theorem router_fifo_no_loss:
  assumes "worker_run flushBatch cap ls (init_worker s) = Some w"
  shows "rs_flushed (wk_sink w) @ wk_batch w @ wk_queue w = rs_flushed s @ sends ls
    \<and> (\<forall>ks env. ls = ks @ [DrainEnd env] \<longrightarrow> rs_flushed (wk_sink w) = rs_flushed s @ sends ks)"
  using rt.fifo [OF assms] rt.drained assms by blast

definition empty_sink :: rt_sink where
  "empty_sink = \<lparr>rs_heap = (\<lambda>_. zero_event), rs_pool = [], rs_db = empty_db, rs_flushed = []\<rparr>"

definition calm :: flush_env where
  "calm = \<lparr>fe_now = 0, fe_begin = None, fe_exec = (\<lambda>_. None), fe_commit = None\<rparr>"

definition stop_trace :: "(addr, flush_env) label list" where
  "stop_trace = [Send 3, Send 5, Recv calm, Tick calm, Send 7, CloseChan, SeeClose, DrainRecv calm,
     DrainRecv calm, DrainEnd calm]"

theorem router_fifo_no_loss_witness:
  "\<exists>w. worker_run flushBatch 4 stop_trace (init_worker empty_sink) = Some w
     \<and> rs_flushed (wk_sink w) @ wk_batch w @ wk_queue w = [3, 5, 7]"
proof -
  obtain w where w: "worker_run flushBatch 4 stop_trace (init_worker empty_sink) = Some w"
    by (simp add: stop_trace_def init_worker_def receive_def)
  from router_fifo_no_loss [OF w]
  have "rs_flushed (wk_sink w) @ wk_batch w @ wk_queue w = rs_flushed empty_sink @ sends stop_trace"
    by (rule conjunct1)
  with w show ?thesis by (intro exI [of _ w]) (simp add: stop_trace_def empty_sink_def)
qed

text \<open>C15 (liveness). Once the worker has seen the closed channel, in every run from there, whatever
  the engines and the store answer to each flush and however many events are still submitted (\<open>Submit\<close> does
  not look at \<open>closed\<close>, so clients may go on): the worker takes at most one turn for each event that
  the channel held or that was submitted in the run, and one more to return; as long as it has not returned a
  turn is possible, a receive while the channel holds an event and the final flush and the return when it is empty;
  and after more turns than events it has returned, with an empty batch. Callbacks are taken to return.\<close>

theorem router_stop_terminates:
  assumes "wk_phase (rt_worker r) = Draining" "worker_run flushBatch (rt_capacity r) ls (rt_worker r) = Some w"
  defines "due \<equiv> length (wk_queue (rt_worker r)) + length (sends ls)"
  shows "worker_turns ls \<le> Suc due
    \<and> (if wk_phase w = Exited then wk_batch w = []
       else worker_turns ls \<le> due \<and> worker_turns ls + length (wk_queue w) = due
         \<and> (if wk_queue w = [] then \<exists>w'. worker_step flushBatch (rt_capacity r) (DrainEnd env) w = Some w' \<and> wk_phase w' = Exited
            else \<exists>w'. worker_step flushBatch (rt_capacity r) (DrainRecv env) w = Some w'))"
  using draining_run [OF assms(1,2)] draining_enabled [of w flushBatch "rt_capacity r" env]
  by (auto simp: due_def)

theorem router_stop_terminates_witness:
  "\<exists>w. worker_run flushBatch 4 [DrainRecv calm, Send 3, DrainRecv calm, DrainRecv calm]
        (init_worker empty_sink\<lparr>wk_queue := [1, 2], wk_phase := Draining, wk_closed := True\<rparr>) = Some w
    \<and> (\<exists>w'. worker_step flushBatch 4 (DrainEnd calm) w = Some w' \<and> wk_phase w' = Exited)"
proof -
  let ?r = "\<lparr>rt_worker = init_worker empty_sink\<lparr>wk_queue := [1, 2], wk_phase := Draining, wk_closed := True\<rparr>,
    rt_capacity = 4, rt_dropped = 0\<rparr>"
  obtain w where w: "worker_run flushBatch (rt_capacity ?r) [DrainRecv calm, Send 3, DrainRecv calm, DrainRecv calm] (rt_worker ?r) = Some w"
    and d: "wk_phase w = Draining" "wk_queue w = []"
    by (simp add: receive_def init_worker_def)
  from router_stop_terminates [OF _ w, where env = calm] d w show ?thesis by simp
qed

section \<open>Triage\<close>

lemma c08: "rnd64 (4 / 5) = (2 ^ 54 + 1) / (5 * 2 ^ 52)"
  by code_simp

text \<open>The watermark, computed in floating point, is exactly four fifths of the
  capacity rounded down, for every capacity below \<open>2 ^ 40\<close>.\<close>

theorem watermark_eq:
  assumes "capacity < 2 ^ 40"
  shows "watermark capacity = int (4 * capacity div 5)"
proof -
  define c where "c = rat_of_nat capacity"
  define n where "n = int (4 * capacity div 5)"
  define x where "x = c * rnd64 (4 / 5)"
  have c: "0 \<le> c" "c < 2 ^ 40"
    using assms by (simp_all add: c_def)
  have xc: "x = 4 / 5 * c + c / (5 * 2 ^ 52)" by (simp add: x_def c08 field_simps)
  have "int (4 * capacity) = 5 * n + int (4 * capacity mod 5)"
    unfolding n_def by presburger
  then have "rat_of_int (int (4 * capacity)) = rat_of_int (5 * n + int (4 * capacity mod 5))" by simp
  then have 4: "4 * c = 5 * of_int n + of_nat (4 * capacity mod 5)" by (simp add: c_def)
  have "rat_of_nat (4 * capacity mod 5) \<le> 4"
    using of_nat_le_iff [of "4 * capacity mod 5" 4, where 'a = rat] pos_mod_bound [of 5 "int (4 * capacity)"]
    by (simp flip: of_nat_mod)
  with 4 xc c have up: "x \<le> of_int n + 7 / 8" and lo: "of_int n \<le> x" by (simp_all add: field_simps)
  have n: "0 \<le> n" "n < 2 ^ 41"
    using assms by (auto simp: n_def)
  have "of_int n \<le> rnd64 x" using rnd64_mono [OF lo] n by (simp add: rnd64_of_int)
  moreover have "rnd64 x \<le> of_int n + 7 / 8"
  proof -
    have "rnd64 (of_int (8 * n + 7) * pow2 (- 3)) = of_int (8 * n + 7) * pow2 (- 3)"
      using n by (intro rnd64_exact) auto
    moreover have "of_int (8 * n + 7) * pow2 (- 3) = of_int n + 7 / 8"
      by (simp add: pow2_def field_simps)
    ultimately show ?thesis using rnd64_mono [OF up] by simp
  qed
  ultimately have "\<lfloor>rnd64 x\<rfloor> = n" by (intro floor_unique) auto
  moreover have "0 \<le> rnd64 x" using c by (intro rnd64_nonneg) (simp add: xc)
  moreover have "f64_of_int (int capacity) = c"
    using assms rnd64_of_int [of "int capacity"] by (simp add: f64_of_int_def c_def)
  ultimately show ?thesis
    by (simp add: watermark_def int_of_f64_def fmul_def x_def n_def)
qed

theorem watermark_eq_witness: "watermark 5 = 4 \<and> watermark 10000 = 8000 \<and> watermark 1 = 0"
  using watermark_eq [of 5] watermark_eq [of 10000] watermark_eq [of 1] by simp

text \<open>What \<open>Submit\<close> decides: a file read is dropped as soon as the channel holds
  four fifths of its capacity; any other event is dropped only when the channel is full. An
  accepted event is appended to the channel and nothing else changes; a dropped one is reset,
  put back into the pool and counted.\<close>

theorem Submit_spec:
  assumes "rt_capacity r < 2 ^ 40"
  shows "(let q = wk_queue (rt_worker r); e = rs_heap (wk_sink (rt_worker r)) a;
              is_read = (re_Type e = TypeFile \<and> re_FileAction e = ''read'');
              accepted = (length q < rt_capacity r
                \<and> \<not> (is_read \<and> 4 * rt_capacity r div 5 \<le> length q))
          in Submit a r = (if accepted
               then (True, r\<lparr>rt_worker := (rt_worker r)\<lparr>wk_queue := q @ [a]\<rparr>\<rparr>)
               else (False, drop_event a r)))"
  by (auto simp: Submit_def watermark_eq [OF assms] Let_def)

definition busy_router :: router where
  "busy_router = \<lparr>rt_worker = init_worker (empty_sink\<lparr>rs_heap := (\<lambda>_. zero_event)
       (9 := zero_event\<lparr>re_Type := TypeFile, re_FileAction := ''read''\<rparr>)\<rparr>)\<lparr>wk_queue := [1, 2, 3, 4]\<rparr>,
     rt_capacity = 5, rt_dropped = 0\<rparr>"

theorem Submit_spec_witness:
  "Submit 9 busy_router = (False, drop_event 9 busy_router)
   \<and> fst (Submit 8 busy_router) \<and> DroppedCount (snd (Submit 9 busy_router)) = 1"
  using Submit_spec [of busy_router 9] Submit_spec [of busy_router 8]
  by (simp add: busy_router_def init_worker_def zero_event_def DroppedCount_def drop_event_def Let_def)

section \<open>Ownership of events\<close>

text \<open>
  The router with its clients: a client gets an event from the pool or a new one
  (\<open>sync.Pool\<close> may give either), writes to an event it holds, and submits it, after which it
  no longer uses it; the worker takes its own steps. \<open>sy_owned\<close> are the events held by
  clients, \<open>sy_next\<close> the next unused address.
\<close>

record rt_system =
  sy_router :: router
  sy_owned :: "addr list"
  sy_next :: addr

definition on_sink :: "(rt_sink \<Rightarrow> rt_sink) \<Rightarrow> router \<Rightarrow> router" where
  "on_sink f r = r\<lparr>rt_worker := (rt_worker r)\<lparr>wk_sink := f (wk_sink (rt_worker r))\<rparr>\<rparr>"

definition GetEvent_new :: "addr \<Rightarrow> rt_sink \<Rightarrow> rt_sink" where
  "GetEvent_new a s = s\<lparr>rs_heap := (rs_heap s)(a := zero_event)\<rparr>"

definition GetEvent_pooled :: "addr \<Rightarrow> rt_sink \<Rightarrow> rt_sink" where
  "GetEvent_pooled a s = s\<lparr>rs_pool := remove1 a (rs_pool s)\<rparr>"

definition write_event :: "addr \<Rightarrow> rt_event \<Rightarrow> rt_sink \<Rightarrow> rt_sink" where
  "write_event a e s = s\<lparr>rs_heap := (rs_heap s)(a := e)\<rparr>"

inductive rt_step :: "rt_system \<Rightarrow> rt_system \<Rightarrow> bool" where
  get_new: "rt_step s (s\<lparr>sy_router := on_sink (GetEvent_new (sy_next s)) (sy_router s),
      sy_owned := sy_next s # sy_owned s, sy_next := Suc (sy_next s)\<rparr>)"
| get_pooled: "a \<in> set (rs_pool (wk_sink (rt_worker (sy_router s)))) \<Longrightarrow>
    rt_step s (s\<lparr>sy_router := on_sink (GetEvent_pooled a) (sy_router s), sy_owned := a # sy_owned s\<rparr>)"
| fill: "a \<in> set (sy_owned s) \<Longrightarrow>
    rt_step s (s\<lparr>sy_router := on_sink (write_event a e) (sy_router s)\<rparr>)"
| submit: "a \<in> set (sy_owned s) \<Longrightarrow>
    rt_step s (s\<lparr>sy_router := snd (Submit a (sy_router s)), sy_owned := remove1 a (sy_owned s)\<rparr>)"
| work: "sends [l] = [] \<Longrightarrow> router_step l (sy_router s) = Some r \<Longrightarrow>
    rt_step s (s\<lparr>sy_router := r\<rparr>)"

definition init_system :: "nat \<Rightarrow> db \<Rightarrow> rt_system" where
  "init_system capacity store =
     \<lparr>sy_router = NewRouter capacity \<lparr>rs_heap = (\<lambda>_. zero_event), rs_pool = [], rs_db = store,
        rs_flushed = []\<rparr>, sy_owned = [], sy_next = 0\<rparr>"

inductive rt_reach :: "nat \<Rightarrow> db \<Rightarrow> rt_system \<Rightarrow> bool" for capacity store where
  start: "rt_reach capacity store (init_system capacity store)"
| step: "rt_reach capacity store s \<Longrightarrow> rt_step s t \<Longrightarrow> rt_reach capacity store t"

definition live_events :: "rt_system \<Rightarrow> addr list" where
  "live_events s = rp.contents (rt_worker (sy_router s)) @ sy_owned s"

definition pool_clean :: "rt_sink \<Rightarrow> bool" where
  "pool_clean k \<longleftrightarrow> (\<forall>a \<in> set (rs_pool k). rs_heap k a = zero_event)"

definition ownership :: "rt_system \<Rightarrow> bool" where
  "ownership s \<longleftrightarrow> distinct (live_events s) \<and> (\<forall>a \<in> set (live_events s). a < sy_next s)
     \<and> pool_clean (wk_sink (rt_worker (sy_router s)))"

lemma ownership_perm:
  assumes "ownership s" "mset (live_events t) = mset (live_events s)" "sy_next t = sy_next s"
    and "pool_clean (wk_sink (rt_worker (sy_router t)))"
  shows "ownership t"
  using assms mset_eq_setD [OF assms(2)] mset_eq_imp_distinct_iff [OF assms(2)]
  by (simp add: ownership_def)

lemma pool_clean_PutEvent [intro]: "pool_clean k \<Longrightarrow> pool_clean (PutEvent a k)"
  by (simp add: pool_clean_def)

lemma pool_clean_flushBatch [intro]: "pool_clean k \<Longrightarrow> pool_clean (flushBatch env b k)"
  by (auto simp: pool_clean_def flushBatch_frame zeroed_def)

lemma on_sink_simps [simp]:
  "wk_sink (rt_worker (on_sink f r)) = f (wk_sink (rt_worker r))"
  "wk_batch (rt_worker (on_sink f r)) = wk_batch (rt_worker r)"
  "wk_queue (rt_worker (on_sink f r)) = wk_queue (rt_worker r)"
  by (simp_all add: on_sink_def)

lemma drop_event_sink: "drop_event a r = (on_sink (PutEvent a) r)\<lparr>rt_dropped := rt_dropped r + 1\<rparr>"
  by (simp add: drop_event_def on_sink_def)

lemma Submit_effect:
  "snd (Submit a r) \<in> {drop_event a r,
     r\<lparr>rt_worker := (rt_worker r)\<lparr>wk_queue := wk_queue (rt_worker r) @ [a]\<rparr>\<rparr>}"
  by (simp add: Submit_def Let_def)

lemma ownership_submit:
  assumes "ownership s" "a \<in> set (sy_owned s)"
  shows "ownership (s\<lparr>sy_router := snd (Submit a (sy_router s)), sy_owned := remove1 a (sy_owned s)\<rparr>)"
proof -
  let ?r = "sy_router s"
  consider "snd (Submit a ?r) = drop_event a ?r"
    | "snd (Submit a ?r) = ?r\<lparr>rt_worker := (rt_worker ?r)\<lparr>wk_queue := wk_queue (rt_worker ?r) @ [a]\<rparr>\<rparr>"
    using Submit_effect [of a ?r] by blast
  then show ?thesis
  proof cases
    case 1
    with assms show ?thesis
      by (intro ownership_perm [OF assms(1)])
        (auto simp: live_events_def rp.contents_def drop_event_sink ownership_def)
  next
    case 2
    with assms show ?thesis
      by (intro ownership_perm [OF assms(1)])
        (auto simp: live_events_def rp.contents_def ownership_def)
  qed
qed

lemma ownership_work:
  assumes "ownership s" "sends [l] = []" "router_step l (sy_router s) = Some r"
  shows "ownership (s\<lparr>sy_router := r\<rparr>)"
proof -
  from assms(3) obtain w where w: "worker_step flushBatch (rt_capacity (sy_router s)) l
      (rt_worker (sy_router s)) = Some w" and r: "r = (sy_router s)\<lparr>rt_worker := w\<rparr>"
    by (auto simp: router_step_def)
  have "pool_clean (wk_sink w)"
    using worker_step_sink [of pool_clean, OF _ pool_clean_flushBatch w] assms(1)
    by (simp add: ownership_def)
  with rp.contents_step [OF w] assms(2) show ?thesis
    by (intro ownership_perm [OF assms(1)]) (simp_all add: live_events_def r)
qed

lemma ownership_step [invs]:
  assumes "rt_step s t" "ownership s"
  shows "ownership t"
  using assms
proof (induction rule: rt_step.induct)
  case (get_new s)
  then show ?case
    by (auto simp: ownership_def live_events_def rp.contents_def GetEvent_new_def pool_clean_def less_Suc_eq)
next
  case (get_pooled a s)
  have "pool_clean (GetEvent_pooled a (wk_sink (rt_worker (sy_router s))))"
    using get_pooled.prems notin_set_remove1
    by (fastforce simp: ownership_def pool_clean_def GetEvent_pooled_def)
  with get_pooled.hyps show ?case
    by (intro ownership_perm [OF get_pooled.prems])
      (simp_all add: live_events_def rp.contents_def GetEvent_pooled_def)
next
  case (fill a s e)
  then have "a \<notin> set (rs_pool (wk_sink (rt_worker (sy_router s))))"
    by (auto simp: ownership_def live_events_def rp.contents_def)
  with fill show ?case
    by (intro ownership_perm [OF fill.prems])
      (auto simp: live_events_def rp.contents_def write_event_def pool_clean_def ownership_def)
next
  case (submit a s)
  then show ?case by (simp add: ownership_submit)
next
  case (work l s r)
  then show ?case by (simp add: ownership_work)
qed

text \<open>C7 (safety). In every reachable state of the router and its clients, no event is at the same
  time in two of the places pool, batch, channel and client, nor twice in one of them, and
  every pooled event is blank; so an event obtained from the pool carries nothing of an
  earlier event and no one else writes to it.\<close>

theorem router_ownership:
  assumes "rt_reach capacity store s"
  shows "distinct (rs_pool (wk_sink (rt_worker (sy_router s))) @ wk_batch (rt_worker (sy_router s))
      @ wk_queue (rt_worker (sy_router s)) @ sy_owned s)
    \<and> (\<forall>a \<in> set (rs_pool (wk_sink (rt_worker (sy_router s)))).
         rs_heap (wk_sink (rt_worker (sy_router s))) a = zero_event)"
proof -
  from assms have "ownership s"
  proof (induction rule: rt_reach.induct)
    case start
    show ?case
      by (simp add: ownership_def live_events_def rp.contents_def init_system_def NewRouter_def
          init_worker_def pool_clean_def)
  next
    case (step s t)
    then show ?case by (blast intro: ownership_step)
  qed
  then show ?thesis by (auto simp: ownership_def live_events_def rp.contents_def pool_clean_def)
qed

lemma one_submitted: "\<exists>s. rt_reach 1 empty_db s \<and> wk_queue (rt_worker (sy_router s)) = [0]"
proof (intro exI conjI)
  let ?s1 = "(init_system 1 empty_db)\<lparr>sy_router := on_sink (GetEvent_new 0) (sy_router (init_system 1 empty_db)),
      sy_owned := [0], sy_next := 1\<rparr>"
  have "rt_reach 1 empty_db ?s1"
    using rt_step.get_new [of "init_system 1 empty_db"] rt_reach.step [OF rt_reach.start]
    by (simp add: init_system_def)
  then show "rt_reach 1 empty_db (?s1\<lparr>sy_router := snd (Submit 0 (sy_router ?s1)),
      sy_owned := remove1 0 (sy_owned ?s1)\<rparr>)"
    by (rule rt_reach.step) (rule rt_step.submit, simp)
  show "wk_queue (rt_worker (sy_router (?s1\<lparr>sy_router := snd (Submit 0 (sy_router ?s1)),
      sy_owned := remove1 0 (sy_owned ?s1)\<rparr>))) = [0]"
    by (simp add: Submit_def init_system_def NewRouter_def init_worker_def on_sink_def
        GetEvent_new_def zero_event_def Let_def)
qed

theorem router_ownership_witness:
  "\<exists>s. rt_reach 1 empty_db s \<and> 0 \<in> set (wk_queue (rt_worker (sy_router s)))
     \<and> 0 \<notin> set (rs_pool (wk_sink (rt_worker (sy_router s))))"
proof -
  obtain s where s: "rt_reach 1 empty_db s" "wk_queue (rt_worker (sy_router s)) = [0]"
    using one_submitted by blast
  with router_ownership [OF s(1)] show ?thesis by (intro exI [of _ s]) auto
qed

section \<open>What a flush stores\<close>

lemma flushBatch_db:
  assumes "distinct batch"
  shows "rs_db (flushBatch env batch s) = (if fe_begin env = None \<and> fe_commit env = None
    then snd (fold (\<lambda>a. processBatchEvent env (rs_heap s a)) batch (0, rs_db s)) else rs_db s)"
proof -
  let ?s = "s\<lparr>rs_flushed := rs_flushed s @ batch\<rparr>"
  have t: "fst (flush_events env batch (0, rs_db s) ?s) =
      fold (\<lambda>a. processBatchEvent env (rs_heap s a)) batch (0, rs_db s)"
    using flush_events_tx [OF assms, of env "(0, rs_db s)" ?s] by simp
  have "flush_events env batch (0, rs_db s) ?s =
      (fold (\<lambda>a. processBatchEvent env (rs_heap s a)) batch (0, rs_db s), fold PutEvent batch ?s)"
    using t flush_events_frame [of env batch "(0, rs_db s)" ?s] by (simp add: prod_eq_iff)
  then show ?thesis by (simp add: flushBatch_def Let_def fold_PutEvent split: option.split)
qed

text \<open>C14 (functional). A flush is one transaction: if the engine refuses to begin or to commit it,
  the store is unchanged; otherwise the store is the result of processing the events of the
  batch in order, each as it was when the flush began. In every case the events go back to
  the pool, blank, in batch order.\<close>

theorem flushBatch_spec:
  assumes "distinct batch"
  shows "rs_db (flushBatch env batch s) =
      (if fe_begin env = None \<and> fe_commit env = None
       then snd (fold (\<lambda>a. processBatchEvent env (rs_heap s a)) batch (0, rs_db s))
       else rs_db s)
    \<and> rs_pool (flushBatch env batch s) = rs_pool s @ batch
    \<and> rs_heap (flushBatch env batch s) = zeroed batch (rs_heap s)"
  using flushBatch_db [OF assms] by (simp add: flushBatch_frame)

definition two_events :: rt_sink where
  "two_events = empty_sink\<lparr>rs_heap := (\<lambda>_. zero_event)
     (1 := zero_event\<lparr>re_Type := TypeProcess, re_ParentID := 1, re_ProcessID := 1,
        re_BinaryPath := ''/bin/sh''\<rparr>,
      2 := zero_event\<lparr>re_Type := TypeFile, re_ProcessID := 1, re_FilePath := ''/etc/Aegis.YAML'',
        re_FileAction := ''write''\<rparr>)\<rparr>"

lemma two_events_tampering: "tampering (rs_heap two_events 2)"
  by code_simp

theorem flushBatch_spec_witness:
  "map a_rule_name (alert_logs (rs_db (flushBatch calm [1, 2] two_events))) = [''AGENT_SELF_DEFENSE'']
   \<and> rs_db (flushBatch (calm\<lparr>fe_commit := Some ''busy''\<rparr>) [1, 2] two_events) = empty_db"
proof
  have "rs_db (flushBatch calm [1, 2] two_events) =
      snd (fold (\<lambda>a. processBatchEvent calm (rs_heap two_events a)) [1, 2] (0, rs_db two_events))"
    using flushBatch_spec [of "[1, 2]" calm two_events] by (simp add: calm_def)
  moreover have "map a_rule_name (alert_logs (snd (fold (\<lambda>a. processBatchEvent calm (rs_heap two_events a))
      [1, 2] (0, rs_db two_events)))) = [''AGENT_SELF_DEFENSE'']"
    by code_simp
  ultimately show "map a_rule_name (alert_logs (rs_db (flushBatch calm [1, 2] two_events))) =
      [''AGENT_SELF_DEFENSE'']" by (simp only:)
  show "rs_db (flushBatch (calm\<lparr>fe_commit := Some ''busy''\<rparr>) [1, 2] two_events) = empty_db"
    using flushBatch_spec [of "[1, 2]" "calm\<lparr>fe_commit := Some ''busy''\<rparr>" two_events]
    by (simp add: two_events_def empty_sink_def)
qed

text \<open>A write to a path of the agent itself, by a process whose id is stored, leaves one
  self-defense alert with risk score 1 for that process, and the file event itself.\<close>

theorem tampering_recorded:
  fixes n :: nat
  assumes "tampering e" "sint (re_ProcessID e) \<in> process_ids d" "\<forall>n. fe_exec env n = None"
  defines "d' \<equiv> snd (processBatchEvent env e (n, d))"
  shows "alert_logs d' = alert_logs d @ [\<lparr>a_alert_id = alert_seq d + 1,
      a_rule_name = ''AGENT_SELF_DEFENSE'', a_category = ''anti-tampering'', a_risk_score = 1,
      a_description = ''Unauthorized write/modify attempt detected on protected agent path: '' @ re_FilePath e,
      a_process_id = sint (re_ProcessID e), a_triggered_at = current_timestamp (fe_now env)\<rparr>]
    \<and> map f_file_path (file_modifications d') = map f_file_path (file_modifications d) @ [re_FilePath e]"
  using assms
  by (simp add: processBatchEvent_def tx_exec_def guarded_def sql_insert_defs Let_def tampering_def
      process_ids_def)

definition self_defense_alert :: "flush_env \<Rightarrow> rt_event \<Rightarrow> alert_row \<Rightarrow> bool" where
  "self_defense_alert env e r \<longleftrightarrow> a_rule_name r = ''AGENT_SELF_DEFENSE'' \<and> a_category r = ''anti-tampering'' \<and> a_risk_score r = 1
     \<and> a_description r = ''Unauthorized write/modify attempt detected on protected agent path: '' @ re_FilePath e
     \<and> a_process_id r = sint (re_ProcessID e) \<and> a_triggered_at r = current_timestamp (fe_now env)"

lemma processBatchEvent_mono:
  "process_ids (snd t) \<subseteq> process_ids (snd (processBatchEvent env e t))"
  "set (alert_logs (snd t)) \<subseteq> set (alert_logs (snd (processBatchEvent env e t)))"
  by (auto simp: processBatchEvent_def tx_exec_def guarded_def sql_insert_defs Let_def process_ids_def split: option.splits)

lemma fold_events_mono:
  "process_ids (snd t) \<subseteq> process_ids (snd (fold (\<lambda>a. processBatchEvent env (h a)) as t))"
  "set (alert_logs (snd t)) \<subseteq> set (alert_logs (snd (fold (\<lambda>a. processBatchEvent env (h a)) as t)))"
proof (induction as arbitrary: t)
  case (Cons a as)
  case 1
  show ?case using Cons.IH(1) processBatchEvent_mono(1) [of t env "h a"] by fastforce
  case 2
  show ?case using Cons.IH(2) processBatchEvent_mono(2) [of t env "h a"] by fastforce
qed simp_all

lemma flush_raises_alert:
  assumes "distinct batch" "a \<in> set batch" "tampering (rs_heap s a)"
    and "sint (re_ProcessID (rs_heap s a)) \<in> process_ids (rs_db s)"
    and "fe_begin env = None" "fe_commit env = None" "\<And>n. fe_exec env n = None"
  shows "\<exists>r \<in> set (alert_logs (rs_db (flushBatch env batch s))). self_defense_alert env (rs_heap s a) r"
proof -
  let ?f = "\<lambda>a. processBatchEvent env (rs_heap s a)"
  obtain xs ys where batch: "batch = xs @ a # ys" using assms(2) by (auto simp: in_set_conv_decomp)
  define t where "t = fold ?f xs (0, rs_db s)"
  have "sint (re_ProcessID (rs_heap s a)) \<in> process_ids (snd t)"
    using fold_events_mono(1) [of "(0, rs_db s)" env "rs_heap s" xs] assms(4) by (auto simp: t_def)
  then have "\<exists>r \<in> set (alert_logs (snd (?f a t))). self_defense_alert env (rs_heap s a) r"
    using assms(3,7) by (cases t) (simp add: processBatchEvent_def tx_exec_def guarded_def sql_insert_defs Let_def
        tampering_def process_ids_def self_defense_alert_def)
  moreover have "fold ?f batch (0, rs_db s) = fold ?f ys (?f a t)" by (simp add: batch t_def)
  ultimately have "\<exists>r \<in> set (alert_logs (snd (fold ?f batch (0, rs_db s)))). self_defense_alert env (rs_heap s a) r"
    using fold_events_mono(2) [of "?f a t" env "rs_heap s" ys] by auto
  then show ?thesis using flushBatch_db [OF assms(1), of env s] assms(5,6) by simp
qed

definition stored_shell :: db where
  "stored_shell = store_run [OpProcess None 0 1 ''/bin/sh'' ''h'' ''sh'' ''root''] empty_db"

lemma stored_shell_ids: "process_ids stored_shell = {1}" "alert_logs stored_shell = []"
  "proc_seq stored_shell = 1" "file_modifications stored_shell = []"
  by (simp_all add: stored_shell_def store_run_def store_op_defs guarded_def sql_insert_defs
      empty_db_def process_ids_def)

theorem tampering_recorded_witness:
  "map a_process_id (alert_logs (snd (processBatchEvent calm (rs_heap two_events 2) (0, stored_shell)))) = [1]"
  using tampering_recorded [OF two_events_tampering, of stored_shell calm 0]
  by (simp add: stored_shell_ids calm_def) (simp add: two_events_def)

text \<open>File and network events, and the self-defense alert with them, are stored only for
  processes whose id is a row id of the processes table: for any other process id the event
  leaves no trace in the store, even when it tampers with the agent.\<close>

theorem orphan_event_lost:
  assumes "re_Type e \<in> {TypeFile, TypeNetwork}" "sint (re_ProcessID e) \<notin> process_ids d"
  shows "snd (processBatchEvent env e (n, d)) = d"
  using assms
  by (auto simp: processBatchEvent_def tx_exec_def guarded_def sql_insert_defs Let_def tampering_def
      split: option.split)

theorem orphan_event_lost_witness:
  "tampering ((rs_heap two_events 2)\<lparr>re_ProcessID := 4242\<rparr>) \<and>
   snd (processBatchEvent calm ((rs_heap two_events 2)\<lparr>re_ProcessID := 4242\<rparr>) (0, stored_shell)) = stored_shell"
proof
  show "tampering ((rs_heap two_events 2)\<lparr>re_ProcessID := 4242\<rparr>)" by code_simp
  show "snd (processBatchEvent calm ((rs_heap two_events 2)\<lparr>re_ProcessID := 4242\<rparr>) (0, stored_shell)) = stored_shell"
    by (rule orphan_event_lost) (simp_all add: stored_shell_ids two_events_def)
qed

text \<open>The launch of a process does not help: the router stores a process under the next
  row id and never under its own process id, so a later file event of the launched process is
  lost unless the two numbers happen to agree.\<close>

theorem launched_process_not_linked:
  fixes n :: nat and env :: flush_env
  assumes "re_Type e = TypeProcess" "re_Type f = TypeFile" "re_ProcessID f = re_ProcessID e"
    and "sint (re_ProcessID e) \<notin> process_ids d" "sint (re_ProcessID e) \<noteq> proc_seq d + 1"
  defines "d' \<equiv> snd (processBatchEvent env f (processBatchEvent env e (n, d)))"
  shows "file_modifications d' = file_modifications d \<and> alert_logs d' = alert_logs d"
proof -
  obtain n1 d1 where d1: "processBatchEvent env e (n, d) = (n1, d1)" by fastforce
  then have "process_ids d1 \<subseteq> insert (proc_seq d + 1) (process_ids d)"
    and same: "file_modifications d1 = file_modifications d" "alert_logs d1 = alert_logs d"
    using assms(1)
    by (auto simp: processBatchEvent_def tx_exec_def guarded_def sql_insert_process_def Let_def
        tampering_def process_ids_def split: option.splits)
  with assms have "sint (re_ProcessID f) \<notin> process_ids d1" by auto
  then have "d' = d1" unfolding d'_def d1 using assms(2) by (intro orphan_event_lost) auto
  with same show ?thesis by simp
qed

theorem launched_process_not_linked_witness:
  "file_modifications (snd (processBatchEvent calm
      (zero_event\<lparr>re_Type := TypeFile, re_ProcessID := 4242, re_FilePath := ''/etc/x''\<rparr>)
      (processBatchEvent calm (zero_event\<lparr>re_Type := TypeProcess, re_ProcessID := 4242\<rparr>) (0, stored_shell)))) = []"
  using launched_process_not_linked
    [of "zero_event\<lparr>re_Type := TypeProcess, re_ProcessID := 4242\<rparr>"
        "zero_event\<lparr>re_Type := TypeFile, re_ProcessID := 4242, re_FilePath := ''/etc/x''\<rparr>" stored_shell calm 0]
  by (simp add: stored_shell_ids)

end
