(* ===== verification/Telemetry.thy ===== *)
theory Telemetry
  imports Storage Batch_Worker "HOL-Library.AList"
begin

text \<open>
  The telemetry pipeline (\<open>internal/telemetry/pipeline.go\<close>): normalisation,
  deduplication over a time window, path filter, bounded queue, and the worker that
  persists batches and calls the two hooks. \<open>sha\<close> stands for the hexadecimal SHA-256 of a
  string. The deduplication cache is an association list without duplicate keys. A hook
  receives the event by pointer and may change it, so it maps an event and the state of
  the outside world to a new event and state. Logging is left out.
\<close>

section \<open>Events\<close>

record RawEvent =
  rw_Type :: string
  rw_Timestamp :: go_time
  rw_ProcessID :: int32
  rw_ParentID :: int32
  rw_BinaryPath :: string
  rw_SHA256 :: string
  rw_CommandLine :: string
  rw_Username :: string
  rw_FilePath :: string
  rw_FileAction :: string
  rw_Protocol :: string
  rw_LocalIP :: string
  rw_LocalPort :: int32
  rw_RemoteIP :: string
  rw_RemotePort :: int32

record Event =
  te_ID :: int64
  te_Type :: string
  te_Timestamp :: go_time
  te_ProcessID :: int32
  te_ParentID :: int32
  te_BinaryPath :: string
  te_SHA256 :: string
  te_CommandLine :: string
  te_Username :: string
  te_FilePath :: string
  te_FileAction :: string
  te_Protocol :: string
  te_LocalIP :: string
  te_LocalPort :: int32
  te_RemoteIP :: string
  te_RemotePort :: int32

definition zero_raw :: RawEvent where
  "zero_raw = \<lparr>rw_Type = [], rw_Timestamp = 0, rw_ProcessID = 0, rw_ParentID = 0,
     rw_BinaryPath = [], rw_SHA256 = [], rw_CommandLine = [], rw_Username = [], rw_FilePath = [],
     rw_FileAction = [], rw_Protocol = [], rw_LocalIP = [], rw_LocalPort = 0, rw_RemoteIP = [],
     rw_RemotePort = 0\<rparr>"

section \<open>Deduplication\<close>

record Deduplicator =
  dd_cache :: "(string \<times> go_time) list"
  dd_ttl :: duration

definition NewDeduplicator :: "duration \<Rightarrow> Deduplicator" where
  "NewDeduplicator ttl = \<lparr>dd_cache = [], dd_ttl = ttl\<rparr>"

definition dedup_key :: "Event \<Rightarrow> string" where
  "dedup_key e =
     (if te_Type e = ''process''
      then ''proc:'' @ show_int (sint (te_ProcessID e)) @ '':'' @ te_BinaryPath e
      else if te_Type e = ''file''
      then ''file:'' @ show_int (sint (te_ProcessID e)) @ '':'' @ te_FilePath e @ '':'' @ te_FileAction e
      else if te_Type e = ''network''
      then ''net:'' @ show_int (sint (te_ProcessID e)) @ '':'' @ te_RemoteIP e @ '':'' @ te_Protocol e
             @ '':'' @ show_int (sint (te_RemotePort e))
      else ''other:'' @ te_Type e @ '':'' @ show_int (time_Unix_seconds (te_Timestamp e)))"

abbreviation cache_limit :: int where "cache_limit \<equiv> 10000"

text \<open>The test and update of the cache for a key at a time.\<close>

definition dedup_seen :: "go_time \<Rightarrow> string \<Rightarrow> Deduplicator \<Rightarrow> bool" where
  "dedup_seen now key d =
     (case map_of (dd_cache d) key of
        Some lastSeen \<Rightarrow> time_Sub now lastSeen < dd_ttl d
      | None \<Rightarrow> False)"

definition dedup_record :: "go_time \<Rightarrow> string \<Rightarrow> Deduplicator \<Rightarrow> Deduplicator" where
  "dedup_record now key d =
     (let cache = AList.update key now (dd_cache d)
      in d\<lparr>dd_cache := (if cache_limit < int (length cache)
           then filter (\<lambda>(k, t). \<not> dd_ttl d < time_Sub now t) cache else cache)\<rparr>)"

definition IsDuplicate :: "go_time \<Rightarrow> Event \<Rightarrow> Deduplicator \<Rightarrow> bool \<times> Deduplicator" where
  "IsDuplicate now e d =
     (if dedup_seen now (dedup_key e) d then (True, d)
      else (False, dedup_record now (dedup_key e) d))"

section \<open>Filter\<close>

definition ShouldFilter :: "string list \<Rightarrow> Event \<Rightarrow> bool" where
  "ShouldFilter excludePaths e \<longleftrightarrow>
     te_Type e = ''file'' \<and> list_ex (HasPrefix (te_FilePath e)) excludePaths"

section \<open>The pipeline\<close>

record Metrics =
  IngestedCount :: uint64
  NormalizedCount :: uint64
  DeduplicatedCount :: uint64
  FilteredCount :: uint64
  BufferedCount :: uint64
  PersistedCount :: uint64

definition zero_metrics :: Metrics where
  "zero_metrics = \<lparr>IngestedCount = 0, NormalizedCount = 0, DeduplicatedCount = 0,
     FilteredCount = 0, BufferedCount = 0, PersistedCount = 0\<rparr>"

text \<open>What the worker writes to: the store (which may be missing), its counter and the world of
  the hooks. \<open>tk_history\<close> is a history variable: the events handed to \<open>flushBatch\<close>.\<close>

record 'h tl_sink =
  tk_store :: "db option"
  tk_persisted :: uint64
  tk_world :: 'h
  tk_history :: "Event list"

type_synonym 'h hook = "Event \<Rightarrow> 'h \<Rightarrow> Event \<times> 'h"

record 'h hooks =
  correlationHook :: "'h hook option"
  analyticsHook :: "'h hook option"

record 'h pipeline =
  tp_worker :: "(Event, 'h tl_sink) worker"
  tp_capacity :: nat
  tp_dedup :: Deduplicator
  tp_excludes :: "string list"
  tp_metrics :: Metrics

definition NewPipeline ::
  "nat \<Rightarrow> db option \<Rightarrow> duration \<Rightarrow> string list \<Rightarrow> 'h \<Rightarrow> 'h pipeline" where
  "NewPipeline capacity store dedupTTL excludes world =
     \<lparr>tp_worker = init_worker \<lparr>tk_store = store, tk_persisted = 0, tk_world = world, tk_history = []\<rparr>,
      tp_capacity = capacity, tp_dedup = NewDeduplicator dedupTTL, tp_excludes = excludes,
      tp_metrics = zero_metrics\<rparr>"

definition normalize :: "(string \<Rightarrow> string) \<Rightarrow> go_time \<Rightarrow> RawEvent \<Rightarrow> Event" where
  "normalize sha now raw =
     \<lparr>te_ID = 0, te_Type = ToLower (rw_Type raw),
      te_Timestamp = (if time_IsZero (rw_Timestamp raw) then now else rw_Timestamp raw),
      te_ProcessID = rw_ProcessID raw, te_ParentID = rw_ParentID raw,
      te_BinaryPath = rw_BinaryPath raw,
      te_SHA256 = (if rw_SHA256 raw = [] \<and> rw_BinaryPath raw \<noteq> [] then sha (rw_BinaryPath raw)
                   else rw_SHA256 raw),
      te_CommandLine = rw_CommandLine raw, te_Username = rw_Username raw,
      te_FilePath = rw_FilePath raw, te_FileAction = rw_FileAction raw,
      te_Protocol = rw_Protocol raw, te_LocalIP = rw_LocalIP raw, te_LocalPort = rw_LocalPort raw,
      te_RemoteIP = rw_RemoteIP raw, te_RemotePort = rw_RemotePort raw\<rparr>"

text \<open>The path an ingested event takes, and \<open>Ingest\<close> itself; \<open>now\<close> is its clock.\<close>

datatype outcome = Deduplicated | Filtered | Buffered | Overflowed

definition no_sink :: "unit \<Rightarrow> Event list \<Rightarrow> 'h tl_sink \<Rightarrow> 'h tl_sink" where
  "no_sink env b s = s"

definition Ingest ::
  "(string \<Rightarrow> string) \<Rightarrow> go_time \<Rightarrow> RawEvent \<Rightarrow> 'h pipeline \<Rightarrow> outcome \<times> 'h pipeline" where
  "Ingest sha now raw p =
     (let e = normalize sha now raw;
          m = (tp_metrics p)\<lparr>IngestedCount := IngestedCount (tp_metrics p) + 1,
                NormalizedCount := NormalizedCount (tp_metrics p) + 1\<rparr>;
          (dup, d) = IsDuplicate now e (tp_dedup p);
          p1 = p\<lparr>tp_dedup := d\<rparr>
      in if dup
         then (Deduplicated, p1\<lparr>tp_metrics := m\<lparr>DeduplicatedCount := DeduplicatedCount m + 1\<rparr>\<rparr>)
         else if ShouldFilter (tp_excludes p) e
         then (Filtered, p1\<lparr>tp_metrics := m\<lparr>FilteredCount := FilteredCount m + 1\<rparr>\<rparr>)
         else case worker_step no_sink (tp_capacity p) (Send e) (tp_worker p) of
                Some w \<Rightarrow> (Buffered, p1\<lparr>tp_worker := w,
                            tp_metrics := m\<lparr>BufferedCount := BufferedCount m + 1\<rparr>\<rparr>)
              | None \<Rightarrow> (Overflowed, p1\<lparr>tp_metrics := m\<rparr>))"

section \<open>Flushing a batch\<close>

record tl_env =
  tf_now :: go_time
  tf_exec :: "nat \<Rightarrow> go_error option"

definition error_of :: "'a result \<Rightarrow> go_error option" where
  "error_of r = (case r of Inl e \<Rightarrow> Some e | Inr _ \<Rightarrow> None)"

definition persist :: "tl_env \<Rightarrow> nat \<Rightarrow> Event \<Rightarrow> db \<Rightarrow> go_error option \<times> db" where
  "persist env n e d =
     (if te_Type e = ''process''
      then map_prod error_of id (InsertProcess (tf_exec env n) (tf_now env) (sint (te_ParentID e))
             (te_BinaryPath e) (te_SHA256 e) (te_CommandLine e) (te_Username e) d)
      else if te_Type e = ''file''
      then map_prod error_of id (InsertFileModification (tf_exec env n) (tf_now env)
             (sint (te_ProcessID e)) (te_FilePath e) (te_FileAction e) d)
      else if te_Type e = ''network''
      then map_prod error_of id (InsertNetworkConnection (tf_exec env n) (tf_now env)
             (sint (te_ProcessID e)) (te_Protocol e) (te_LocalIP e) (sint (te_LocalPort e))
             (te_RemoteIP e) (sint (te_RemotePort e)) d)
      else (None, d))"

definition call_hook :: "'h hook option \<Rightarrow> Event \<times> 'h \<Rightarrow> Event \<times> 'h" where
  "call_hook hook x = (case hook of None \<Rightarrow> x | Some h \<Rightarrow> h (fst x) (snd x))"

definition flush_event :: "'h hooks \<Rightarrow> tl_env \<Rightarrow> nat \<Rightarrow> Event \<Rightarrow> 'h tl_sink \<Rightarrow> 'h tl_sink" where
  "flush_event hk env n e s =
     (let s1 = (case tk_store s of
                  None \<Rightarrow> s
                | Some d \<Rightarrow>
                    (case persist env n e d of
                       (Some _, d') \<Rightarrow> s\<lparr>tk_store := Some d'\<rparr>
                     | (None, d') \<Rightarrow> s\<lparr>tk_store := Some d', tk_persisted := tk_persisted s + 1\<rparr>))
      in s1\<lparr>tk_world := snd (call_hook (analyticsHook hk) (call_hook (correlationHook hk) (e, tk_world s1)))\<rparr>)"

fun flush_list :: "'h hooks \<Rightarrow> tl_env \<Rightarrow> nat \<Rightarrow> Event list \<Rightarrow> 'h tl_sink \<Rightarrow> 'h tl_sink" where
  "flush_list hk env n [] s = s"
| "flush_list hk env n (e # es) s = flush_list hk env (Suc n) es (flush_event hk env n e s)"

definition flushBatch :: "'h hooks \<Rightarrow> tl_env \<Rightarrow> Event list \<Rightarrow> 'h tl_sink \<Rightarrow> 'h tl_sink" where
  "flushBatch hk env batch s = flush_list hk env 0 batch (s\<lparr>tk_history := tk_history s @ batch\<rparr>)"

definition pipeline_step ::
  "'h hooks \<Rightarrow> (Event, tl_env) label \<Rightarrow> 'h pipeline \<Rightarrow> 'h pipeline option" where
  "pipeline_step hk l p = map_option (\<lambda>w. p\<lparr>tp_worker := w\<rparr>)
     (worker_step (flushBatch hk) (tp_capacity p) l (tp_worker p))"

text \<open>\<open>Stop\<close> closes the channel and waits for the worker to return.\<close>

definition pipeline_Stop :: "'h hooks \<Rightarrow> 'h pipeline \<Rightarrow> 'h pipeline option" where
  "pipeline_Stop hk p = pipeline_step hk CloseChan p"

definition GetMetrics :: "'h pipeline \<Rightarrow> Metrics" where
  "GetMetrics p = (tp_metrics p)\<lparr>PersistedCount := tk_persisted (wk_sink (tp_worker p))\<rparr>"

section \<open>Replay\<close>

definition raw_of_process :: "DBProcess \<Rightarrow> RawEvent" where
  "raw_of_process pr = zero_raw\<lparr>rw_Type := ''process'', rw_Timestamp := dp_LaunchedAt pr,
     rw_ProcessID := 0, rw_BinaryPath := dp_BinaryPath pr, rw_CommandLine := dp_CommandLine pr,
     rw_Username := dp_Username pr\<rparr>"

definition raw_of_file :: "DBFileModification \<Rightarrow> RawEvent" where
  "raw_of_file fl = zero_raw\<lparr>rw_Type := ''file'', rw_Timestamp := df_OccurredAt fl,
     rw_FilePath := df_FilePath fl, rw_FileAction := df_Action fl\<rparr>"

definition raw_of_net :: "DBNetworkConnection \<Rightarrow> RawEvent" where
  "raw_of_net nt = zero_raw\<lparr>rw_Type := ''network'', rw_Timestamp := dn_OccurredAt nt,
     rw_Protocol := dn_Protocol nt, rw_LocalIP := dn_LocalIP nt,
     rw_LocalPort := word_of_int (dn_LocalPort nt), rw_RemoteIP := dn_RemoteIP nt,
     rw_RemotePort := word_of_int (dn_RemotePort nt)\<rparr>"

definition ok_rows :: "'a list result \<Rightarrow> 'a list" where
  "ok_rows r = (case r of Inl _ \<Rightarrow> [] | Inr rows \<Rightarrow> rows)"

definition replay_events ::
  "(nat \<Rightarrow> query_fault) \<Rightarrow> local_time \<Rightarrow> local_time \<Rightarrow> db \<Rightarrow> RawEvent list" where
  "replay_events fault start end d =
     map raw_of_process (ok_rows (QueryProcesses (fault 0) start end d))
     @ map raw_of_file (ok_rows (QueryFileModifications (fault 1) start end d))
     @ map raw_of_net (ok_rows (QueryNetworkConnections (fault 2) start end d))"

text \<open>The calls of \<open>Ingest\<close>, each at the next time of the clock.\<close>

fun ingest_all ::
  "(string \<Rightarrow> string) \<Rightarrow> (nat \<Rightarrow> go_time) \<Rightarrow> nat \<Rightarrow> RawEvent list \<Rightarrow> 'h pipeline \<Rightarrow> outcome list \<times> 'h pipeline" where
  "ingest_all sha clock n [] p = ([], p)"
| "ingest_all sha clock n (raw # raws) p =
     (let (out, p1) = Ingest sha (clock n) raw p;
          (outs, p2) = ingest_all sha clock (Suc n) raws p1
      in (out # outs, p2))"

definition Replay ::
  "(string \<Rightarrow> string) \<Rightarrow> (nat \<Rightarrow> go_time) \<Rightarrow> (nat \<Rightarrow> query_fault) \<Rightarrow> local_time \<Rightarrow> local_time
     \<Rightarrow> 'h pipeline \<Rightarrow> unit result \<times> 'h pipeline" where
  "Replay sha clock fault start end p =
     (case tk_store (wk_sink (tp_worker p)) of
        None \<Rightarrow> (Err ''storage engine not initialized for replay'', p)
      | Some d \<Rightarrow> (Ok (), snd (ingest_all sha clock 0 (replay_events fault start end d) p)))"

section \<open>Keys\<close>

lemma pid_prefix_eq:
  "show_int i @ '':'' @ x = show_int j @ '':'' @ y \<longleftrightarrow> i = j \<and> x = y"
  using split_first_eq [OF show_int_no_colon show_int_no_colon] by simp

text \<open>Two events of one of the three telemetry types have the same deduplication key
  exactly when they agree on the process and on the binary path, on the file path and action,
  or on the remote address, protocol and port; for this the action and the protocol must not
  contain a colon, the separator of the key.\<close>

theorem dedup_key_exact:
  assumes "te_Type e \<in> {''process'', ''file'', ''network''}" "te_Type e' = te_Type e"
    and "CHR '':'' \<notin> set (te_FileAction e @ te_FileAction e' @ te_Protocol e @ te_Protocol e')"
  shows "dedup_key e = dedup_key e' \<longleftrightarrow> te_ProcessID e = te_ProcessID e' \<and>
    (if te_Type e = ''process'' then te_BinaryPath e = te_BinaryPath e'
     else if te_Type e = ''file'' then te_FilePath e = te_FilePath e' \<and> te_FileAction e = te_FileAction e'
     else te_RemoteIP e = te_RemoteIP e' \<and> te_Protocol e = te_Protocol e' \<and> te_RemotePort e = te_RemotePort e')"
proof -
  have filek: "te_FilePath e @ '':'' @ te_FileAction e = te_FilePath e' @ '':'' @ te_FileAction e' \<longleftrightarrow>
      te_FilePath e = te_FilePath e' \<and> te_FileAction e = te_FileAction e'"
    using assms(3) split_last_eq [of "CHR '':''" "te_FileAction e" "te_FileAction e'"] by simp
  have netk: "te_RemoteIP e @ '':'' @ te_Protocol e @ '':'' @ show_int i =
        te_RemoteIP e' @ '':'' @ te_Protocol e' @ '':'' @ show_int j \<longleftrightarrow>
      te_RemoteIP e = te_RemoteIP e' \<and> te_Protocol e = te_Protocol e' \<and> i = j" for i j
    using assms(3) split_last_eq [OF show_int_no_colon show_int_no_colon,
        of "te_RemoteIP e @ '':'' @ te_Protocol e" i "te_RemoteIP e' @ '':'' @ te_Protocol e'" j]
      split_last_eq [of "CHR '':''" "te_Protocol e" "te_Protocol e'" "te_RemoteIP e" "te_RemoteIP e'"]
    by auto
  show ?thesis
    using assms(1,2) pid_prefix_eq filek netk by (auto simp: dedup_key_def)
qed

definition sample_event :: Event where
  "sample_event = normalize (\<lambda>_. ''h'') 0 (zero_raw\<lparr>rw_Type := ''FILE'', rw_ProcessID := 7,
     rw_FilePath := ''/etc/passwd'', rw_FileAction := ''write''\<rparr>)"

lemma sample_event_simps [simp]:
  "te_Type sample_event = ''file''" "te_FileAction sample_event = ''write''"
  "te_Protocol sample_event = []" "te_ProcessID sample_event = 7"
  by code_simp+

theorem dedup_key_exact_witness:
  "dedup_key sample_event \<noteq> dedup_key (sample_event\<lparr>te_FileAction := ''read''\<rparr>)"
  using dedup_key_exact [of sample_event "sample_event\<lparr>te_FileAction := ''read''\<rparr>"]
  by simp

text \<open>Without the condition the keys do collide.\<close>

lemma dedup_key_collision:
  "dedup_key (sample_event\<lparr>te_FilePath := ''/a'', te_FileAction := ''b:c''\<rparr>) =
   dedup_key (sample_event\<lparr>te_FilePath := ''/a:b'', te_FileAction := ''c''\<rparr>)"
  by (simp add: dedup_key_def)

section \<open>The cache refines an unbounded memory\<close>

text \<open>What deduplication promises: a memory, never pruned, of when an event with a key was last
  let through; an event is a duplicate if that is less than the time to live ago.\<close>

fun dedup_spec :: "duration \<Rightarrow> (string \<rightharpoonup> go_time) \<Rightarrow> (go_time \<times> Event) list \<Rightarrow> bool list" where
  "dedup_spec ttl seen [] = []"
| "dedup_spec ttl seen ((now, e) # es) =
     (let dup = (case seen (dedup_key e) of None \<Rightarrow> False | Some t \<Rightarrow> time_Sub now t < ttl)
      in dup # dedup_spec ttl (if dup then seen else seen(dedup_key e \<mapsto> now)) es)"

fun dedup_run :: "Deduplicator \<Rightarrow> (go_time \<times> Event) list \<Rightarrow> bool list" where
  "dedup_run d [] = []"
| "dedup_run d ((now, e) # es) = (let (dup, d') = IsDuplicate now e d in dup # dedup_run d' es)"

definition dedup_rel :: "go_time \<Rightarrow> Deduplicator \<Rightarrow> (string \<rightharpoonup> go_time) \<Rightarrow> bool" where
  "dedup_rel now d seen \<longleftrightarrow> distinct (map fst (dd_cache d)) \<and>
     (\<forall>k. map_of (dd_cache d) k = seen k \<or>
       map_of (dd_cache d) k = None \<and> (\<exists>t. seen k = Some t \<and> dd_ttl d < time_Sub now t))"

lemma dedup_rel_later: "dedup_rel now d seen \<Longrightarrow> now \<le> now' \<Longrightarrow> dedup_rel now' d seen"
  unfolding dedup_rel_def by (meson order_less_le_trans time_Sub_mono)

lemma dedup_rel_seen:
  assumes "dedup_rel now d seen"
  shows "dedup_seen now k d = (case seen k of None \<Rightarrow> False | Some t \<Rightarrow> time_Sub now t < dd_ttl d)"
proof (cases "map_of (dd_cache d) k = seen k")
  case True
  then show ?thesis by (simp add: dedup_seen_def)
next
  case False
  with assms have "map_of (dd_cache d) k = None" "\<exists>t. seen k = Some t \<and> dd_ttl d < time_Sub now t"
    by (auto simp: dedup_rel_def)
  then show ?thesis by (auto simp: dedup_seen_def)
qed

lemma map_of_filter_distinct:
  "distinct (map fst al) \<Longrightarrow> map_of (filter (\<lambda>(k, v). P v) al) k =
     (case map_of al k of None \<Rightarrow> None | Some v \<Rightarrow> if P v then Some v else None)"
  by (induction al) (auto split: option.split simp: map_of_eq_None_iff rev_image_eqI)

lemma dedup_record_frame [simp]: "dd_ttl (dedup_record now k d) = dd_ttl d"
  by (simp add: dedup_record_def Let_def)

lemma dedup_rel_record:
  assumes "dedup_rel now d seen"
  shows "dedup_rel now (dedup_record now k d) (seen(k \<mapsto> now))"
proof -
  let ?c = "AList.update k now (dd_cache d)"
  have dist: "distinct (map fst ?c)" using assms by (simp add: dedup_rel_def distinct_update)
  have rel: "map_of ?c j = (seen(k \<mapsto> now)) j \<or>
      map_of ?c j = None \<and> (\<exists>t. (seen(k \<mapsto> now)) j = Some t \<and> dd_ttl d < time_Sub now t)" for j
    using assms by (auto simp: dedup_rel_def update_conv')
  show ?thesis
  proof (cases "cache_limit < int (length ?c)")
    case False
    with dist rel show ?thesis by (simp add: dedup_rel_def dedup_record_def Let_def)
  next
    case True
    have "distinct (map fst (filter P ?c))" for P using dist by (rule distinct_map_filter)
    moreover have "map_of (filter (\<lambda>(k, t). \<not> dd_ttl d < time_Sub now t) ?c) j = (seen(k \<mapsto> now)) j \<or>
      map_of (filter (\<lambda>(k, t). \<not> dd_ttl d < time_Sub now t) ?c) j = None \<and>
        (\<exists>t. (seen(k \<mapsto> now)) j = Some t \<and> dd_ttl d < time_Sub now t)" for j
      using rel [of j] unfolding map_of_filter_distinct [OF dist]
      by (auto split: option.splits)
    ultimately show ?thesis using True by (simp add: dedup_rel_def dedup_record_def Let_def)
  qed
qed

lemma dedup_run_refines:
  "dedup_rel now d seen \<Longrightarrow> sorted (now # map fst es) \<Longrightarrow> dedup_run d es = dedup_spec (dd_ttl d) seen es"
proof (induction es arbitrary: now d seen)
  case Nil
  then show ?case by simp
next
  case (Cons x es)
  obtain t e where x: "x = (t, e)" by (cases x)
  from Cons.prems have rel: "dedup_rel t d seen" and s: "sorted (t # map fst es)"
    by (auto simp: x intro: dedup_rel_later)
  let ?k = "dedup_key e"
  note seen = dedup_rel_seen [OF rel, of ?k]
  show ?case
  proof (cases "dedup_seen t ?k d")
    case True
    with seen Cons.IH [OF rel s] show ?thesis by (simp add: x IsDuplicate_def Let_def)
  next
    case False
    have "dedup_run (dedup_record t ?k d) es = dedup_spec (dd_ttl d) (seen(?k \<mapsto> t)) es"
      using Cons.IH [OF dedup_rel_record [OF rel, of ?k] s] by (simp only: dedup_record_frame)
    with False seen show ?thesis by (simp add: x IsDuplicate_def Let_def)
  qed
qed

text \<open>C12 (refinement). Against a clock that does not run backwards, the bounded cache, which evicts old
  entries once it holds more than 10000 keys, answers every sequence of events exactly as a
  memory that never forgets.\<close>

theorem dedup_refines:
  assumes "sorted (map fst es)"
  shows "dedup_run (NewDeduplicator ttl) es = dedup_spec ttl Map.empty es"
proof (cases es)
  case Nil
  then show ?thesis by simp
next
  case (Cons x xs)
  have "dedup_rel (fst x) (NewDeduplicator ttl) Map.empty"
    by (simp add: dedup_rel_def NewDeduplicator_def)
  from dedup_run_refines [OF this, of es] assms Cons show ?thesis
    by (simp add: NewDeduplicator_def)
qed

theorem dedup_refines_witness:
  "dedup_run (NewDeduplicator 100) [(1000, sample_event), (1050, sample_event), (1100, sample_event)]
   = [False, True, False]"
  using dedup_refines [of "[(1000, sample_event), (1050, sample_event), (1100, sample_event)]" 100]
  by (simp add: time_Sub_def)

section \<open>Runs of the pipeline\<close>

lemma flush_event_frame [simp]: "tk_history (flush_event hk env n e s) = tk_history s"
  by (simp add: flush_event_def Let_def split: option.split prod.split)

lemma flush_list_frame: "tk_history (flush_list hk env n es s) = tk_history s"
  by (induction es arbitrary: n s) simp_all

interpretation tl: batch_sink "flushBatch hk" tk_history for hk :: "'h hooks"
  by unfold_locales (simp add: flushBatch_def flush_list_frame)

text \<open>A run interleaves calls of \<open>Ingest\<close> with steps of the worker; it records the outcome of
  each call with the normalised event.\<close>

datatype p_label = PIngest go_time RawEvent | PWork "(Event, tl_env) label"

fun pipe_run ::
  "(string \<Rightarrow> string) \<Rightarrow> 'h hooks \<Rightarrow> p_label list \<Rightarrow> 'h pipeline
     \<Rightarrow> ((outcome \<times> Event) list \<times> 'h pipeline) option" where
  "pipe_run sha hk [] p = Some ([], p)"
| "pipe_run sha hk (PIngest now raw # ls) p =
     map_option (map_prod (Cons (fst (Ingest sha now raw p), normalize sha now raw)) id)
       (pipe_run sha hk ls (snd (Ingest sha now raw p)))"
| "pipe_run sha hk (PWork l # ls) p =
     (if sends [l] \<noteq> [] then None
      else case pipeline_step hk l p of None \<Rightarrow> None | Some p' \<Rightarrow> pipe_run sha hk ls p')"

definition outcomes :: "outcome \<Rightarrow> (outcome \<times> Event) list \<Rightarrow> Event list" where
  "outcomes o' tr = map snd (filter (\<lambda>x. fst x = o') tr)"

lemma outcomes_simps [simp]:
  "outcomes o' [] = []"
  "outcomes o' (x # tr) = (if fst x = o' then snd x # outcomes o' tr else outcomes o' tr)"
  by (simp_all add: outcomes_def)

lemma Ingest_contents:
  "tl.contents (tp_worker (snd (Ingest sha now raw p))) =
     tl.contents (tp_worker p) @ (if fst (Ingest sha now raw p) = Buffered then [normalize sha now raw] else [])"
  by (auto simp: Ingest_def Let_def tl.contents_def split: prod.splits)

definition add_counts :: "(outcome \<times> Event) list \<Rightarrow> Metrics \<Rightarrow> Metrics" where
  "add_counts tr m = m\<lparr>IngestedCount := IngestedCount m + of_nat (length tr),
     NormalizedCount := NormalizedCount m + of_nat (length tr),
     DeduplicatedCount := DeduplicatedCount m + of_nat (length (outcomes Deduplicated tr)),
     FilteredCount := FilteredCount m + of_nat (length (outcomes Filtered tr)),
     BufferedCount := BufferedCount m + of_nat (length (outcomes Buffered tr))\<rparr>"

lemma add_counts_Nil [simp]: "add_counts [] m = m"
  by (simp add: add_counts_def)

lemma Ingest_counts:
  "tp_metrics (snd (Ingest sha now raw p)) = add_counts [(fst (Ingest sha now raw p), e)] (tp_metrics p)"
  by (simp add: Ingest_def Let_def add_counts_def split: prod.split)

lemma add_counts_Cons: "add_counts tr (add_counts [x] m) = add_counts (x # tr) m"
  by (simp add: add_counts_def)

lemma pipe_run_accounting:
  "pipe_run sha hk ls p = Some (tr, q) \<Longrightarrow>
     tl.contents (tp_worker q) = tl.contents (tp_worker p) @ outcomes Buffered tr
     \<and> tp_metrics q = add_counts tr (tp_metrics p)"
proof (induction sha hk ls p arbitrary: tr rule: pipe_run.induct)
  case (1 sha hk p)
  then show ?case by simp
next
  case (2 sha hk now raw ls p)
  then obtain tr' where tr': "pipe_run sha hk ls (snd (Ingest sha now raw p)) = Some (tr', q)"
    and tr: "tr = (fst (Ingest sha now raw p), normalize sha now raw) # tr'"
    by auto
  from "2.IH" [OF tr'] show ?case
    by (simp add: tr Ingest_contents Ingest_counts [of sha now raw p "normalize sha now raw"] add_counts_Cons)
next
  case (3 sha hk l ls p)
  then obtain p' where l: "sends [l] = []" and p': "pipeline_step hk l p = Some p'"
    and rest: "pipe_run sha hk ls p' = Some (tr, q)"
    by (auto split: if_splits option.splits)
  from p' obtain w where "worker_step (flushBatch hk) (tp_capacity p) l (tp_worker p) = Some w"
    and "p' = p\<lparr>tp_worker := w\<rparr>" by (auto simp: pipeline_step_def)
  with tl.contents_step [of hk] l "3.IH" [OF _ p' rest] show ?case by simp
qed

text \<open>C8 (functional). Every event ever ingested is accounted for: the events the pipeline accepted are,
  in order and once each, those handed to \<open>flushBatch\<close>, those in the current batch and those
  in the queue; and the counters are the numbers of events, duplicates, filtered and
  buffered events, modulo \<open>2 ^ 64\<close>.\<close>

theorem pipeline_accounting:
  assumes "pipe_run sha hk ls (NewPipeline cap store ttl excludes world) = Some (tr, p)"
  shows "tk_history (wk_sink (tp_worker p)) @ wk_batch (tp_worker p) @ wk_queue (tp_worker p)
       = outcomes Buffered tr
    \<and> tp_metrics p = zero_metrics\<lparr>IngestedCount := of_nat (length tr),
        NormalizedCount := of_nat (length tr),
        DeduplicatedCount := of_nat (length (outcomes Deduplicated tr)),
        FilteredCount := of_nat (length (outcomes Filtered tr)),
        BufferedCount := of_nat (length (outcomes Buffered tr))\<rparr>"
  using pipe_run_accounting [OF assms]
  by (simp add: tl.contents_def NewPipeline_def init_worker_def add_counts_def zero_metrics_def)

definition no_hooks :: "unit hooks" where
  "no_hooks = \<lparr>correlationHook = None, analyticsHook = None\<rparr>"

definition quiet :: tl_env where
  "quiet = \<lparr>tf_now = 0, tf_exec = (\<lambda>_. None)\<rparr>"

definition sample_raw :: "string \<Rightarrow> RawEvent" where
  "sample_raw path = zero_raw\<lparr>rw_Type := ''File'', rw_Timestamp := 5, rw_FilePath := path, rw_FileAction := ''write''\<rparr>"

definition sample_labels :: "p_label list" where
  "sample_labels = [PIngest 10 (sample_raw ''/a''), PIngest 20 (sample_raw ''/a''),
     PIngest 30 (sample_raw ''/t/x''), PIngest 40 (sample_raw ''/b''), PWork (Tick quiet)]"

lemma sample_run:
  "map_option (\<lambda>(tr, p). map fst tr) (pipe_run (\<lambda>_. []) no_hooks sample_labels
     (NewPipeline 1 None 100 [''/t''] ())) = Some [Buffered, Deduplicated, Filtered, Overflowed]"
  by code_simp

theorem pipeline_accounting_witness:
  "\<exists>tr p. pipe_run (\<lambda>_. []) no_hooks sample_labels (NewPipeline 1 None 100 [''/t''] ()) = Some (tr, p)
     \<and> BufferedCount (tp_metrics p) = 1 \<and> IngestedCount (tp_metrics p) = 4"
proof -
  obtain tr p where run: "pipe_run (\<lambda>_. []) no_hooks sample_labels
      (NewPipeline 1 None 100 [''/t''] ()) = Some (tr, p)"
    and tr: "map fst tr = [Buffered, Deduplicated, Filtered, Overflowed]"
    using sample_run by (auto simp: map_option_eq_Some)
  then obtain e1 e2 e3 e4 where "tr = [(Buffered, e1), (Deduplicated, e2), (Filtered, e3), (Overflowed, e4)]"
    by (auto simp: map_eq_Cons_conv)
  with pipeline_accounting [OF run] run show ?thesis by (intro exI [of _ tr] exI [of _ p]) simp
qed

text \<open>After \<open>Stop\<close> the worker returns, and everything that was buffered has been flushed.\<close>

lemma pipeline_stop_flushes:
  assumes "pipeline_Stop hk p = Some p1" "wk_phase (tp_worker p) = Looping"
  shows "\<exists>w. worker_run (flushBatch hk) (tp_capacity p1)
       ([SeeClose] @ replicate (length (wk_queue (tp_worker p1))) (DrainRecv env) @ [DrainEnd env]) (tp_worker p1) = Some w
     \<and> wk_phase w = Exited
     \<and> tk_history (wk_sink w) = tk_history (wk_sink (tp_worker p)) @ wk_batch (tp_worker p) @ wk_queue (tp_worker p)"
proof -
  have p1: "\<not> wk_closed (tp_worker p)" "p1 = p\<lparr>tp_worker := (tp_worker p)\<lparr>wk_closed := True\<rparr>\<rparr>"
    using assms(1) by (auto simp: pipeline_Stop_def pipeline_step_def split: if_splits)
  from tl.stop_delivers [OF assms(2) p1(1), of hk "tp_capacity p" env] show ?thesis
    using p1 by (fastforce simp: tl.contents_def)
qed

text \<open>When the context of the worker is cancelled, the events left in the queue are never
  handed to \<open>flushBatch\<close>, whatever happens afterwards: what was delivered, followed by what
  the queue held at that moment, is everything that had been sent.\<close>

theorem cancel_loses_queue:
  assumes "worker_run (flushBatch hk) cap (ls @ [CtxDone env] @ ms) (init_worker s) = Some w"
  shows "\<exists>w1. worker_run (flushBatch hk) cap (ls @ [CtxDone env]) (init_worker s) = Some w1
    \<and> tk_history (wk_sink w) @ wk_queue w1 = tk_history s @ sends ls"
  using tl.cancelled [OF assms] by metis

definition idle_sink :: "unit tl_sink" where
  "idle_sink = \<lparr>tk_store = None, tk_persisted = 0, tk_world = (), tk_history = []\<rparr>"

theorem cancel_loses_queue_witness:
  "\<exists>w. worker_run (flushBatch no_hooks) 4 ([Send sample_event] @ [CtxDone quiet] @ [CloseChan]) (init_worker idle_sink) = Some w
     \<and> tk_history (wk_sink w) = [] \<and> wk_queue w = [sample_event]"
proof -
  let ?ls = "[Send sample_event] @ [CtxDone quiet] @ [CloseChan]"
  obtain w where w: "worker_run (flushBatch no_hooks) 4 ?ls (init_worker idle_sink) = Some w"
    by (simp add: init_worker_def)
  from cancel_loses_queue [OF w] obtain w1 where
    "worker_run (flushBatch no_hooks) 4 ([Send sample_event] @ [CtxDone quiet]) (init_worker idle_sink) = Some w1"
    and "tk_history (wk_sink w) @ wk_queue w1 = tk_history idle_sink @ [sample_event]"
    by auto
  with w show ?thesis
    by (intro exI [of _ w]) (auto simp: init_worker_def flush_def idle_sink_def)
qed

section \<open>Counting what was persisted\<close>

text \<open>With a store, flushing an event advances the persisted counter exactly when the insert
  reported no error. For an event of any other type than process, file and network there is no
  insert, and the event is counted as persisted although the store is unchanged. Without a
  store nothing is counted.\<close>

theorem persisted_counter:
  "tk_persisted (flush_event hk env n e s) =
    (case tk_store s of
       None \<Rightarrow> tk_persisted s
     | Some d \<Rightarrow>
         if te_Type e = ''process'' then (if tf_exec env n = None then tk_persisted s + 1 else tk_persisted s)
         else if te_Type e \<in> {''file'', ''network''}
         then (if tf_exec env n = None \<and> sint (te_ProcessID e) \<in> process_ids d
               then tk_persisted s + 1 else tk_persisted s)
         else tk_persisted s + 1)
   \<and> (te_Type e \<in> {''process'', ''file'', ''network''}
      \<or> tk_store (flush_event hk env n e s) = tk_store s)"
  by (simp add: flush_event_def persist_def Let_def store_op_defs guarded_def sql_insert_defs error_of_def
      split: option.split)

section \<open>Overflow and retry\<close>

lemma dedup_record_lookup:
  assumes "0 \<le> dd_ttl d"
  shows "map_of (dd_cache (dedup_record now k d)) k = Some now"
proof -
  have "(k, now) \<in> set (filter (\<lambda>(k, t). \<not> dd_ttl d < time_Sub now t) (AList.update k now (dd_cache d)))"
    using assms map_of_SomeD [of "AList.update k now (dd_cache d)" k now] by (simp add: update_conv')
  moreover have "map_of (filter (\<lambda>(k, t). P t) (AList.update k now al)) k = Some now" if "P now" for P and al :: "(string \<times> go_time) list"
    using that by (induction al) auto
  ultimately show ?thesis
    using assms by (simp add: dedup_record_def Let_def update_conv')
qed

text \<open>An event dropped because the queue is full has already been recorded as seen: a retry
  of the same event within the time to live is discarded as a duplicate, even if the queue
  has room again.\<close>

theorem overflow_blocks_retry:
  assumes "Ingest sha t raw p = (Overflowed, p1)" "rw_Timestamp raw \<noteq> 0"
    and "tp_dedup q = tp_dedup p1" "t' - t < dd_ttl (tp_dedup p)" "t \<le> t'" "dd_ttl (tp_dedup p) \<le> max_duration"
  shows "fst (Ingest sha t' raw q) = Deduplicated"
proof -
  let ?k = "dedup_key (normalize sha t raw)"
  have same: "normalize sha t' raw = normalize sha t raw"
    using assms(2) by (simp add: normalize_def time_IsZero_def)
  from assms(1) have d: "tp_dedup p1 = dedup_record t ?k (tp_dedup p)"
    by (auto simp: Ingest_def IsDuplicate_def Let_def split: if_splits option.splits)
  have "0 < dd_ttl (tp_dedup p)" using assms(4,5) by simp
  then have "dedup_seen t' ?k (tp_dedup q)"
    using assms(3-6) dedup_record_lookup [of "tp_dedup p" t ?k]
    by (simp add: dedup_seen_def d time_Sub_less_iff)
  then show ?thesis by (simp add: Ingest_def IsDuplicate_def same Let_def)
qed

definition full_pipeline :: "unit pipeline" where
  "full_pipeline = snd (Ingest (\<lambda>_. []) 10 (sample_raw ''/a'') (NewPipeline 1 None 100 [] ()))"

theorem overflow_blocks_retry_witness:
  "fst (Ingest (\<lambda>_. []) 20 (sample_raw ''/b'') full_pipeline) = Overflowed
   \<and> fst (Ingest (\<lambda>_. []) 60 (sample_raw ''/b'')
       ((snd (Ingest (\<lambda>_. []) 20 (sample_raw ''/b'') full_pipeline))\<lparr>tp_worker := init_worker idle_sink\<rparr>)) = Deduplicated"
proof
  show o1: "fst (Ingest (\<lambda>_. []) 20 (sample_raw ''/b'') full_pipeline) = Overflowed" by code_simp
  have ttl: "dd_ttl (tp_dedup full_pipeline) = 100" by code_simp
  show "fst (Ingest (\<lambda>_. []) 60 (sample_raw ''/b'')
       ((snd (Ingest (\<lambda>_. []) 20 (sample_raw ''/b'') full_pipeline))\<lparr>tp_worker := init_worker idle_sink\<rparr>)) = Deduplicated"
    by (rule overflow_blocks_retry [of "\<lambda>_. []" 20 "sample_raw ''/b''" full_pipeline
        "snd (Ingest (\<lambda>_. []) 20 (sample_raw ''/b'') full_pipeline)"])
      (use o1 ttl in \<open>simp_all add: prod_eq_iff sample_raw_def\<close>)
qed

section \<open>What the pipeline hands on\<close>

text \<open>The form every event has once it is normalised.\<close>

definition well_typed :: "Event \<Rightarrow> bool" where
  "well_typed e \<longleftrightarrow> te_ID e = 0 \<and> ToLower (te_Type e) = te_Type e \<and> te_Timestamp e \<noteq> 0
     \<and> (te_BinaryPath e \<noteq> [] \<longrightarrow> te_SHA256 e \<noteq> [])"

lemma normalize_well_typed: "now \<noteq> 0 \<Longrightarrow> \<forall>x. sha x \<noteq> [] \<Longrightarrow> well_typed (normalize sha now raw)"
  by (simp add: well_typed_def normalize_def time_IsZero_def)

lemma pipe_run_events:
  "pipe_run sha hk ls p = Some (tr, q) \<Longrightarrow> x \<in> set tr \<Longrightarrow>
     \<exists>now raw. PIngest now raw \<in> set ls \<and> snd x = normalize sha now raw"
  by (induction sha hk ls p arbitrary: tr rule: pipe_run.induct)
    (fastforce split: if_splits option.splits)+

text \<open>C11 (type). Whatever is ingested and however the worker is interleaved, every event the pipeline holds
  or has handed to \<open>flushBatch\<close> is well typed: its type is in lower case, it has a time, and
  it has a hash whenever it has a binary path.\<close>

theorem pipeline_events_typed:
  assumes "pipe_run sha hk ls (NewPipeline cap store ttl excludes world) = Some (tr, p)"
    and "\<forall>x. sha x \<noteq> []" "\<And>now raw. PIngest now raw \<in> set ls \<Longrightarrow> now \<noteq> 0"
    and "e \<in> set (tk_history (wk_sink (tp_worker p)) @ wk_batch (tp_worker p) @ wk_queue (tp_worker p))"
  shows "well_typed e"
proof -
  have "tk_history (wk_sink (tp_worker p)) @ wk_batch (tp_worker p) @ wk_queue (tp_worker p) = outcomes Buffered tr"
    using pipe_run_accounting [OF assms(1)] by (simp add: tl.contents_def NewPipeline_def init_worker_def)
  with assms(4) obtain x where "x \<in> set tr" "e = snd x" by (auto simp: outcomes_def)
  with pipe_run_events [OF assms(1)] assms(2,3) show ?thesis by (metis normalize_well_typed)
qed

theorem pipeline_events_typed_witness:
  "\<exists>tr p. pipe_run (\<lambda>_. ''0'') no_hooks [PIngest 10 (sample_raw ''/a'')] (NewPipeline 1 None 100 [] ()) = Some (tr, p)
     \<and> (\<exists>e \<in> set (wk_queue (tp_worker p)). well_typed e)"
proof -
  obtain tr p where run: "pipe_run (\<lambda>_. ''0'') no_hooks [PIngest 10 (sample_raw ''/a'')]
      (NewPipeline 1 None 100 [] ()) = Some (tr, p)" by simp
  have "map_option (\<lambda>(tr, p). length (wk_queue (tp_worker p)))
      (pipe_run (\<lambda>_. ''0'') no_hooks [PIngest 10 (sample_raw ''/a'')] (NewPipeline 1 None 100 [] ())) = Some 1" by code_simp
  then have "length (wk_queue (tp_worker p)) = 1" unfolding run by simp
  then obtain e where e: "e \<in> set (wk_queue (tp_worker p))" by (auto simp: length_Suc_conv)
  have "well_typed e"
    by (rule pipeline_events_typed [OF run]) (use e in auto)
  with run e show ?thesis by blast
qed

section \<open>What a replay can store\<close>

text \<open>What a replay ingests carries the PID 0; a process among it has the parent 0 and the path of a stored one.\<close>

definition replayed :: "db \<Rightarrow> Event \<Rightarrow> bool" where
  "replayed d e \<longleftrightarrow> te_ProcessID e = 0 \<and> (te_Type e = ''file'' \<or> te_Type e = ''network''
     \<or> te_Type e = ''process'' \<and> te_ParentID e = 0 \<and> te_BinaryPath e \<in> p_binary_path ` set (processes d))"

lemma set_query_subset: "query fault rows = Inr xs \<Longrightarrow> set xs \<subseteq> set rows"
  using set_take_subset by (fastforce simp: query_def split: query_fault.splits)

lemma ok_rows_query: "set (ok_rows (query fault rows)) \<subseteq> set rows"
  by (cases "query fault rows") (simp_all add: ok_rows_def set_query_subset)

lemma replay_events_replayed:
  assumes "raw \<in> set (replay_events fault start end d)"
  shows "replayed d (normalize sha now raw)"
proof -
  have low: "ToLower ''process'' = ''process''" "ToLower ''file'' = ''file''" "ToLower ''network'' = ''network''"
    by code_simp+
  show ?thesis
    using assms ok_rows_query
    by (fastforce simp: replay_events_def QueryProcesses_def QueryFileModifications_def QueryNetworkConnections_def
        replayed_def normalize_def raw_of_process_def raw_of_file_def raw_of_net_def zero_raw_def low)
qed

lemma ingest_all_queue:
  assumes "\<And>raw now. raw \<in> set raws \<Longrightarrow> E (normalize sha now raw)"
    and "\<forall>e \<in> set (wk_batch (tp_worker p) @ wk_queue (tp_worker p)). E e"
  shows "(\<forall>e \<in> set (wk_batch (tp_worker (snd (ingest_all sha clock n raws p)))
        @ wk_queue (tp_worker (snd (ingest_all sha clock n raws p)))). E e)
    \<and> wk_sink (tp_worker (snd (ingest_all sha clock n raws p))) = wk_sink (tp_worker p)"
  using assms
proof (induction raws arbitrary: n p)
  case (Cons raw raws)
  let ?p1 = "snd (Ingest sha (clock n) raw p)"
  have "(\<forall>e \<in> set (wk_batch (tp_worker ?p1) @ wk_queue (tp_worker ?p1)). E e) \<and> wk_sink (tp_worker ?p1) = wk_sink (tp_worker p)"
    using Cons.prems(1) [of raw "clock n"] Cons.prems(2) by (auto simp: Ingest_def Let_def split: prod.split)
  with Cons.IH [of ?p1 "Suc n"] Cons.prems(1) show ?case by (simp add: case_prod_beta Let_def)
qed simp

text \<open>The store after some replayed events were flushed.\<close>

definition restored :: "db \<Rightarrow> db \<Rightarrow> bool" where
  "restored d d' \<longleftrightarrow> ids_positive d' \<and> proc_seq d \<le> proc_seq d'
     \<and> file_modifications d' = file_modifications d \<and> network_connections d' = network_connections d
     \<and> (\<exists>new. processes d' = processes d @ new \<and> (\<forall>x \<in> set new. proc_seq d < p_process_id x \<and> p_parent_id x = 0
          \<and> p_binary_path x \<in> p_binary_path ` set (processes d)))"

lemma persist_restored:
  assumes "restored d d'" "replayed d e"
  shows "restored d (snd (persist env n e d'))"
proof -
  have "0 \<notin> process_ids d'" using assms(1) by (auto simp: restored_def ids_positive_def)
  then show ?thesis
    using assms unfolding restored_def replayed_def
    by (auto simp: persist_def store_op_defs guarded_def sql_insert_defs Let_def ids_positive_def process_ids_def split: option.split)
qed

lemma flush_restored:
  assumes "\<exists>d'. tk_store s = Some d' \<and> restored d d'" "\<forall>e \<in> set b. replayed d e"
  shows "\<exists>d'. tk_store (flushBatch hk env b s) = Some d' \<and> restored d d'"
proof -
  have "\<exists>d'. tk_store (flush_list hk env n b s) = Some d' \<and> restored d d'"
    if "\<exists>d'. tk_store s = Some d' \<and> restored d d'" for n s
    using that assms(2)
  proof (induction b arbitrary: n s)
    case (Cons e b)
    then obtain d' where d': "tk_store s = Some d'" "restored d d'" by blast
    have "restored d (snd (persist env n e d'))" using d'(2) Cons.prems(2) by (simp add: persist_restored)
    then have "\<exists>d'. tk_store (flush_event hk env n e s) = Some d' \<and> restored d d'"
      using d'(1) by (auto simp: flush_event_def Let_def split: prod.split option.split)
    with Cons.IH Cons.prems(2) show ?case by simp
  qed simp
  with assms(1) show ?thesis by (simp add: flushBatch_def)
qed

text \<open>C39 (error). A replay restores nothing. Take a pipeline that holds no event, with a store that any operations
  have filled, replay any window into it, whatever queries fail, and let the worker run in any way. Then no
  file and no network row has been added, for the replayed events carry the PID 0, which no stored process has;
  and what has been added to the processes are second rows of paths already stored, with new row
  numbers and with 0 as their parent.\<close>

theorem replay_cannot_restore:
  assumes "tk_store (wk_sink (tp_worker p)) = Some d" "d = store_run ops empty_db"
    and "wk_batch (tp_worker p) = []" "wk_queue (tp_worker p) = []"
    and "Replay sha clock fault start end p = (r, p1)"
    and "worker_run (flushBatch hk) (tp_capacity p1) ls (tp_worker p1) = Some w" "sends ls = []"
  shows "\<exists>d' new. tk_store (wk_sink w) = Some d' \<and> file_modifications d' = file_modifications d
    \<and> network_connections d' = network_connections d \<and> processes d' = processes d @ new
    \<and> (\<forall>x \<in> set new. p_process_id x \<notin> process_ids d \<and> p_parent_id x = 0
        \<and> p_binary_path x \<in> p_binary_path ` set (processes d))"
proof -
  have p1: "p1 = snd (ingest_all sha clock 0 (replay_events fault start end d) p)"
    using assms(5) by (simp add: Replay_def assms(1))
  have queued: "\<forall>e \<in> set (wk_batch (tp_worker p1) @ wk_queue (tp_worker p1)). replayed d e"
    and sink: "wk_sink (tp_worker p1) = wk_sink (tp_worker p)"
    using ingest_all_queue [of "replay_events fault start end d" "replayed d" sha p clock 0] replay_events_replayed assms(3,4)
    by (simp_all add: p1)
  have ok: "db_ok d" "ids_positive d"
    unfolding assms(2) by (rule store_run_ok, simp, rule store_run_ids) (simp add: ids_positive_def empty_db_def process_ids_def)
  have "\<exists>d'. tk_store (wk_sink w) = Some d' \<and> restored d d'"
  proof (rule worker_run_events [where P = "\<lambda>s. \<exists>d'. tk_store s = Some d' \<and> restored d d'" and E = "replayed d", OF _ _ queued _ assms(6)])
    show "\<exists>d'. tk_store (wk_sink (tp_worker p1)) = Some d' \<and> restored d d'"
      using ok(2) by (simp add: sink assms(1) restored_def)
    show "\<exists>d'. tk_store (flushBatch hk env b s) = Some d' \<and> restored d d'"
      if "\<exists>d'. tk_store s = Some d' \<and> restored d d'" "\<forall>e \<in> set b. replayed d e" for env b s
      using that by (rule flush_restored)
  qed (simp add: assms(7))
  then show ?thesis using ok(1) by (fastforce simp: restored_def db_ok_def)
qed

definition replay_db :: db where
  "replay_db = store_run [OpProcess None (5 * second) 1 ''/bin/sh'' ''h'' ''sh'' ''root'',
     OpFile None (5 * second) 1 ''/etc/x'' ''write''] empty_db"

lemma replay_db_eval:
  "replay_db = empty_db\<lparr>processes := [\<lparr>p_process_id = 1, p_parent_id = 1, p_binary_path = ''/bin/sh'',
     p_sha256 = ''h'', p_command_line = ''sh'', p_username = ''root'', p_launched_at = 5 * second\<rparr>], proc_seq := 1,
     file_modifications := [\<lparr>f_event_id = 1, f_process_id = 1, f_file_path = ''/etc/x'',
     f_action = ''write'', f_occurred_at = 5 * second\<rparr>], file_seq := 1\<rparr>"
  by (simp add: replay_db_def store_run_def store_op_defs guarded_def sql_insert_defs empty_db_def
      process_ids_def current_timestamp_def)

definition replay_raws :: "RawEvent list" where
  "replay_raws = [raw_of_process \<lparr>dp_BinaryPath = ''/bin/sh'', dp_CommandLine = ''sh'', dp_Username = ''root'', dp_LaunchedAt = 5 * second\<rparr>,
     raw_of_file \<lparr>df_FilePath = ''/etc/x'', df_Action = ''write'', df_OccurredAt = 5 * second\<rparr>]"

lemma replay_db_events: "replay_events (\<lambda>_. NoFault) (in_zone UTC 0) (in_zone UTC (901 * second)) replay_db = replay_raws"
proof -
  have "sql_between (in_zone UTC 0) (in_zone UTC (901 * second)) (5 * second)"
    by (simp add: sql_between_iff dated_def)
  then show ?thesis
    by (simp add: replay_events_def replay_db_eval QueryProcesses_def QueryFileModifications_def QueryNetworkConnections_def
        query_def ok_rows_def empty_db_def replay_raws_def)
qed

definition replay_pipeline :: "unit pipeline" where
  "replay_pipeline = NewPipeline 4 (Some replay_db) 100 [] ()"

theorem replay_cannot_restore_witness:
  "\<exists>w d'. worker_run (flushBatch no_hooks) 4 [Recv quiet, Recv quiet, Tick quiet] (tp_worker (snd (Replay (\<lambda>_. ''0'') (\<lambda>_. 5) (\<lambda>_. NoFault)
       (in_zone UTC 0) (in_zone UTC (901 * second)) replay_pipeline))) = Some w
     \<and> tk_store (wk_sink w) = Some d' \<and> file_modifications d' = file_modifications replay_db"
proof -
  let ?run = "\<lambda>p1. worker_run (flushBatch no_hooks) 4 [Recv quiet, Recv quiet, Tick quiet] (tp_worker p1)"
  have idle: "tk_store (wk_sink (tp_worker replay_pipeline)) = Some replay_db" "wk_batch (tp_worker replay_pipeline) = []"
    "wk_queue (tp_worker replay_pipeline) = []"
    by (simp_all add: replay_pipeline_def NewPipeline_def init_worker_def)
  obtain p1 where p1: "p1 = snd (ingest_all (\<lambda>_. ''0'') (\<lambda>_. 5) 0 replay_raws replay_pipeline)" by simp
  have replay: "Replay (\<lambda>_. ''0'') (\<lambda>_. 5) (\<lambda>_. NoFault) (in_zone UTC 0) (in_zone UTC (901 * second)) replay_pipeline = (Ok (), p1)"
    by (simp only: Replay_def idle(1) option.case replay_db_events p1)
  have "map_option (\<lambda>_. ()) (?run (snd (ingest_all (\<lambda>_. ''0'') (\<lambda>_. 5) 0 replay_raws replay_pipeline))) = Some ()
      \<and> tp_capacity (snd (ingest_all (\<lambda>_. ''0'') (\<lambda>_. 5) 0 replay_raws replay_pipeline)) = 4"
    by code_simp
  then obtain w where w: "?run p1 = Some w" "tp_capacity p1 = 4" unfolding p1 [symmetric] by auto
  have "\<exists>d' new. tk_store (wk_sink w) = Some d' \<and> file_modifications d' = file_modifications replay_db
      \<and> network_connections d' = network_connections replay_db \<and> processes d' = processes replay_db @ new
      \<and> (\<forall>x \<in> set new. p_process_id x \<notin> process_ids replay_db \<and> p_parent_id x = 0
          \<and> p_binary_path x \<in> p_binary_path ` set (processes replay_db))"
    by (rule replay_cannot_restore [OF idle(1) replay_db_def idle(2,3) replay w(1) [folded w(2)]]) simp
  with w(1) show ?thesis unfolding replay by auto
qed

end
