(* ===== verification/Scoring.thy ===== *)
theory Scoring
  imports Float64 "HOL-Library.Multiset"
begin

text \<open>
  Compound risk scores (\<open>internal/scoring/scoring.go\<close>): the complement of the product of the
  complements of severity times weight, each clamped to the unit interval, in floating
  point, every operation rounded on its own as on amd64 (Go may fuse a product and a difference on other processors). Go iterates over a map in an unspecified order: \<open>iter\<close> is the order in which the
  iteration of \<open>GenerateAlert\<close> delivers the collected tags.
\<close>

record EngineResult =
  er_EngineName :: string
  er_Severity :: f64
  er_Weight :: f64
  er_MITREIDs :: "string list"

record Alert =
  al_CompoundScore :: f64
  al_TriggeredBy :: "string list"
  al_MITRETags :: "string list"

definition clamp :: "f64 \<Rightarrow> f64" where
  "clamp x = max 0 (min 1 x)"

definition complement_of :: "EngineResult \<Rightarrow> f64" where
  "complement_of res = fsub 1 (fmul (clamp (er_Severity res)) (clamp (er_Weight res)))"

definition CalculateCompoundScore :: "EngineResult list \<Rightarrow> f64" where
  "CalculateCompoundScore results =
     (if results = [] then 0
      else fsub 1 (foldl (\<lambda>product res. fmul product (complement_of res)) 1 results))"

definition GenerateAlert :: "(string list \<Rightarrow> string list) \<Rightarrow> EngineResult list \<Rightarrow> Alert" where
  "GenerateAlert iter results =
     \<lparr>al_CompoundScore = CalculateCompoundScore results,
      al_TriggeredBy = map er_EngineName results,
      al_MITRETags = iter (remdups (concat (map er_MITREIDs results)))\<rparr>"

definition zero_alert :: Alert where
  "zero_alert = \<lparr>al_CompoundScore = 0, al_TriggeredBy = [], al_MITRETags = []\<rparr>"

section \<open>Bounds\<close>

lemma clamp_unit [simp]: "0 \<le> clamp x" "clamp x \<le> 1"
  by (auto simp: clamp_def)

lemma clamp_ge_1 [simp]: "1 \<le> x \<Longrightarrow> clamp x = 1"
  by (simp add: clamp_def)

lemma complement_unit: "0 \<le> complement_of r \<and> complement_of r \<le> 1"
  unfolding complement_of_def fsub_def fmul_def
  by (intro fl.compl_unit_closed) (simp_all add: fl.mult_unit_closed)

abbreviation product_of :: "f64 \<Rightarrow> EngineResult list \<Rightarrow> f64" where
  "product_of p results \<equiv> foldl (\<lambda>product res. fmul product (complement_of res)) p results"

lemma product_unit:
  "0 \<le> p \<Longrightarrow> p \<le> 1 \<Longrightarrow> 0 \<le> product_of p results \<and> product_of p results \<le> 1"
proof (induction results arbitrary: p)
  case (Cons r rs)
  then have "0 \<le> fmul p (complement_of r) \<and> fmul p (complement_of r) \<le> 1"
    using complement_unit [of r] by (simp add: fmul_def fl.mult_unit_closed)
  with Cons.IH show ?case by simp
qed simp

lemma product_rounded: "rnd64 p = p \<Longrightarrow> rnd64 (product_of p results) = product_of p results"
  by (induction results arbitrary: p) (simp_all add: fmul_def)

lemma product_shrinks: "fmul (product_of 1 results) (complement_of r) \<le> product_of 1 results"
  unfolding fmul_def [of "product_of 1 results" "complement_of r"]
  using product_rounded [of 1 results] product_unit [of 1 results] complement_unit [of r]
  by (intro fl.mult_shrinks) simp_all

lemma compound_score_in_unit: "0 \<le> CalculateCompoundScore results" "CalculateCompoundScore results \<le> 1"
  using product_unit [of 1 results] fl.compl_unit_closed
  by (simp_all add: CalculateCompoundScore_def fsub_def)

text \<open>A compound score lies between 0 and 1, whatever severities and weights the engines
  report, rounding included.\<close>

theorem compound_score_unit: "0 \<le> CalculateCompoundScore results \<and> CalculateCompoundScore results \<le> 1"
  by (simp add: compound_score_in_unit)

lemma compound_score_product: "CalculateCompoundScore results = fsub 1 (product_of 1 results)"
  by (simp add: CalculateCompoundScore_def fsub_def)


text \<open>An alert carries the compound score, the engines in the order of their results, and
  each MITRE tag of any of them exactly once, whatever order the map iteration takes.\<close>

theorem GenerateAlert_spec:
  assumes "\<And>xs. mset (iter xs) = mset xs"
  shows "al_CompoundScore (GenerateAlert iter results) = CalculateCompoundScore results
    \<and> al_TriggeredBy (GenerateAlert iter results) = map er_EngineName results
    \<and> distinct (al_MITRETags (GenerateAlert iter results))
    \<and> set (al_MITRETags (GenerateAlert iter results)) = (\<Union>r \<in> set results. set (er_MITREIDs r))"
proof -
  let ?tags = "remdups (concat (map er_MITREIDs results))"
  have "mset (iter ?tags) = mset ?tags" by (rule assms)
  then have "set (iter ?tags) = set ?tags" "distinct (iter ?tags) = distinct ?tags"
    by (rule mset_eq_setD, rule mset_eq_imp_distinct_iff)
  then show ?thesis by (simp add: GenerateAlert_def)
qed

definition sample_results :: "EngineResult list" where
  "sample_results =
     [\<lparr>er_EngineName = ''Heuristic'', er_Severity = 13 / 2, er_Weight = rnd64 (7 / 10), er_MITREIDs = [''T1059.001'']\<rparr>,
      \<lparr>er_EngineName = ''Sigma'', er_Severity = 7, er_Weight = rnd64 (4 / 5), er_MITREIDs = [''T1059'', ''T1059.001'']\<rparr>]"

theorem GenerateAlert_spec_witness:
  "set (al_MITRETags (GenerateAlert rev sample_results)) = {''T1059'', ''T1059.001''}"
  using GenerateAlert_spec [of rev sample_results] by (simp add: sample_results_def insert_commute)

end
