(* ===== verification/Detect_Pipeline.thy ===== *)
theory Detect_Pipeline
  imports Scoring Telemetry
begin

text \<open>
  The detection pipeline (\<open>internal/detect/pipeline/pipeline.go\<close>): ten stages behind one
  interface, run in order on one event and one detection context. The interface is a
  datatype with a constructor per implementation and \<open>Process\<close> a function on it. A stage may
  change the event (the normaliser does), the context, and the buffered channel of alerts.
  \<open>iter\<close> is the map iteration order of the tags, as in \<open>Scoring\<close>.
\<close>

record DetectionContext =
  dc_EngineResults :: "EngineResult list"
  dc_Matches :: "string list"
  dc_AlertTriggered :: bool
  dc_AlertDetail :: Alert

record alert_chan =
  ac_queue :: "Alert list"
  ac_cap :: nat

datatype DetectionStage =
  NormalizerStage
| BehaviorAnalysisStage
| HeuristicStage f64
| IOCMatchingStage "string \<rightharpoonup> string"
| YaraStage "string \<Rightarrow> bool"
| SigmaStage "string list"
| ThreatIntelStage "string \<Rightarrow> bool"
| CorrelationStage
| RiskScoringStage f64
| AlertStage

text \<open>What a stage works on.\<close>

record stage_state =
  ss_event :: Event
  ss_ctx :: DetectionContext
  ss_chan :: alert_chan

definition add_result :: "EngineResult \<Rightarrow> string \<Rightarrow> stage_state \<Rightarrow> stage_state" where
  "add_result r m s = s\<lparr>ss_ctx := (ss_ctx s)\<lparr>dc_EngineResults := dc_EngineResults (ss_ctx s) @ [r],
     dc_Matches := dc_Matches (ss_ctx s) @ [m]\<rparr>\<rparr>"

definition normalizer_Process :: "stage_state \<Rightarrow> stage_state" where
  "normalizer_Process s = s\<lparr>ss_event := (ss_event s)\<lparr>te_BinaryPath := TrimSpace (te_BinaryPath (ss_event s)),
     te_SHA256 := ToLower (TrimSpace (te_SHA256 (ss_event s)))\<rparr>\<rparr>"

definition behavior_Process :: "stage_state \<Rightarrow> stage_state" where
  "behavior_Process s =
     (if te_Type (ss_event s) = ''process'' \<and> te_ParentID (ss_event s) = 1
      then add_result \<lparr>er_EngineName = ''BehaviorAnalysis'', er_Severity = 3, er_Weight = rnd64 (1 / 2),
             er_MITREIDs = [''T1059'']\<rparr> ''Process spawned directly by system init'' s
      else s)"

definition heuristic_Process :: "stage_state \<Rightarrow> stage_state" where
  "heuristic_Process s =
     (if Contains (te_CommandLine (ss_event s)) ''-nop'' \<or> Contains (te_CommandLine (ss_event s)) ''-enc''
      then add_result \<lparr>er_EngineName = ''Heuristic'', er_Severity = rnd64 (13 / 2), er_Weight = rnd64 (7 / 10),
             er_MITREIDs = [''T1059.001'']\<rparr> ''Anomalous command line argument detected'' s
      else s)"

definition ioc_Process :: "(string \<rightharpoonup> string) \<Rightarrow> stage_state \<Rightarrow> stage_state" where
  "ioc_Process iocList s =
     (case iocList (te_SHA256 (ss_event s)) of
        Some label \<Rightarrow>
          add_result \<lparr>er_EngineName = ''IOCMatching'', er_Severity = rnd64 (19 / 2), er_Weight = rnd64 (9 / 10),
            er_MITREIDs = [''T1204.002'']\<rparr> (''Matched known malicious payload hash: '' @ label) s
      | None \<Rightarrow> s)"

definition yara_Process :: "(string \<Rightarrow> bool) \<Rightarrow> stage_state \<Rightarrow> stage_state" where
  "yara_Process rules s =
     (if te_Type (ss_event s) = ''process'' \<and> rules (te_BinaryPath (ss_event s))
      then add_result \<lparr>er_EngineName = ''YARA'', er_Severity = 8, er_Weight = rnd64 (4 / 5),
             er_MITREIDs = [''T1059'']\<rparr> ''YARA rule matched binary path signature'' s
      else s)"

fun sigma_Process :: "string list \<Rightarrow> stage_state \<Rightarrow> stage_state" where
  "sigma_Process [] s = s"
| "sigma_Process (pat # pats) s =
     (if Contains (te_CommandLine (ss_event s)) pat
      then add_result \<lparr>er_EngineName = ''Sigma'', er_Severity = 7, er_Weight = rnd64 (4 / 5),
             er_MITREIDs = [''T1059'']\<rparr> (''Sigma behavioral match: '' @ pat) s
      else sigma_Process pats s)"

definition intel_Process :: "(string \<Rightarrow> bool) \<Rightarrow> stage_state \<Rightarrow> stage_state" where
  "intel_Process known s =
     (if known (te_RemoteIP (ss_event s))
      then add_result \<lparr>er_EngineName = ''ThreatIntelligence'', er_Severity = 9, er_Weight = rnd64 (9 / 10),
             er_MITREIDs = [''T1071.001'']\<rparr> ''Matched known malicious destination IP'' s
      else s)"

definition correlation_Process :: "stage_state \<Rightarrow> stage_state" where
  "correlation_Process s =
     (if 2 \<le> length (dc_EngineResults (ss_ctx s))
      then add_result \<lparr>er_EngineName = ''Correlation'', er_Severity = 5, er_Weight = rnd64 (1 / 2),
             er_MITREIDs = [''T1059'']\<rparr> ''Multi-stage engine correlation detected'' s
      else s)"

definition risk_Process :: "(string list \<Rightarrow> string list) \<Rightarrow> f64 \<Rightarrow> stage_state \<Rightarrow> stage_state" where
  "risk_Process iter threshold s =
     (let c = ss_ctx s in
      if dc_EngineResults c = [] then s
      else let score = CalculateCompoundScore (dc_EngineResults c);
               c1 = c\<lparr>dc_AlertDetail := GenerateAlert iter (dc_EngineResults c)\<rparr>
           in s\<lparr>ss_ctx := (if threshold \<le> score then c1\<lparr>dc_AlertTriggered := True\<rparr> else c1)\<rparr>)"

definition alert_Process :: "stage_state \<Rightarrow> stage_state" where
  "alert_Process s =
     (if dc_AlertTriggered (ss_ctx s) \<and> length (ac_queue (ss_chan s)) < ac_cap (ss_chan s)
      then s\<lparr>ss_chan := (ss_chan s)\<lparr>ac_queue := ac_queue (ss_chan s) @ [dc_AlertDetail (ss_ctx s)]\<rparr>\<rparr>
      else s)"

text \<open>The interface method \<open>Process\<close> and the pipeline, which ignores the stages' errors.\<close>

fun stage_Process :: "(string list \<Rightarrow> string list) \<Rightarrow> DetectionStage \<Rightarrow> stage_state \<Rightarrow> stage_state" where
  "stage_Process iter NormalizerStage = normalizer_Process"
| "stage_Process iter BehaviorAnalysisStage = behavior_Process"
| "stage_Process iter (HeuristicStage entropyThreshold) = heuristic_Process"
| "stage_Process iter (IOCMatchingStage iocList) = ioc_Process iocList"
| "stage_Process iter (YaraStage rules) = yara_Process rules"
| "stage_Process iter (SigmaStage patterns) = sigma_Process patterns"
| "stage_Process iter (ThreatIntelStage known) = intel_Process known"
| "stage_Process iter CorrelationStage = correlation_Process"
| "stage_Process iter (RiskScoringStage threshold) = risk_Process iter threshold"
| "stage_Process iter AlertStage = alert_Process"

definition empty_context :: DetectionContext where
  "empty_context = \<lparr>dc_EngineResults = [], dc_Matches = [], dc_AlertTriggered = False,
     dc_AlertDetail = zero_alert\<rparr>"

definition pipeline_Process ::
  "(string list \<Rightarrow> string list) \<Rightarrow> DetectionStage list \<Rightarrow> Event \<Rightarrow> alert_chan \<Rightarrow> stage_state" where
  "pipeline_Process iter stages e ch =
     fold (stage_Process iter) stages \<lparr>ss_event = e, ss_ctx = empty_context, ss_chan = ch\<rparr>"

text \<open>The names and constructors of the stages; a pipeline is the list of its stages.\<close>

fun stage_Name :: "DetectionStage \<Rightarrow> string" where
  "stage_Name NormalizerStage = ''Normalizer''"
| "stage_Name BehaviorAnalysisStage = ''BehaviorAnalysis''"
| "stage_Name (HeuristicStage entropyThreshold) = ''Heuristic''"
| "stage_Name (IOCMatchingStage iocList) = ''IOCMatching''"
| "stage_Name (YaraStage rules) = ''YARA''"
| "stage_Name (SigmaStage patterns) = ''Sigma''"
| "stage_Name (ThreatIntelStage known) = ''ThreatIntelligence''"
| "stage_Name CorrelationStage = ''Correlation''"
| "stage_Name (RiskScoringStage threshold) = ''RiskScoring''"
| "stage_Name AlertStage = ''Alert''"

definition NewDetectionPipeline :: "DetectionStage list \<Rightarrow> DetectionStage list" where
  "NewDetectionPipeline stages = stages"

definition NewHeuristicStage :: "f64 \<Rightarrow> DetectionStage" where
  "NewHeuristicStage threshold = HeuristicStage threshold"

definition NewIOCMatchingStage :: "(string \<rightharpoonup> string) \<Rightarrow> DetectionStage" where
  "NewIOCMatchingStage iocList = IOCMatchingStage iocList"

definition NewYaraStage :: "(string \<Rightarrow> bool) \<Rightarrow> DetectionStage" where
  "NewYaraStage rules = YaraStage rules"

definition NewSigmaStage :: "string list \<Rightarrow> DetectionStage" where
  "NewSigmaStage patterns = SigmaStage patterns"

definition NewThreatIntelStage :: "(string \<Rightarrow> bool) \<Rightarrow> DetectionStage" where
  "NewThreatIntelStage malicious = ThreatIntelStage malicious"

definition NewRiskScoringStage :: "f64 \<Rightarrow> DetectionStage" where
  "NewRiskScoringStage threshold = RiskScoringStage threshold"


section \<open>The contract of a stage\<close>

text \<open>
  A stage appends at most one result, with one match line; it never withdraws an alert, and
  it raises one only if the score of the results so far reaches a threshold. It only ever
  appends to the channel, and only when an alert is raised.
\<close>

definition new_results :: "stage_state \<Rightarrow> stage_state \<Rightarrow> EngineResult list" where
  "new_results s t = drop (length (dc_EngineResults (ss_ctx s))) (dc_EngineResults (ss_ctx t))"

definition extends :: "stage_state \<Rightarrow> stage_state \<Rightarrow> bool" where
  "extends s t \<longleftrightarrow> (\<exists>rs ms. dc_EngineResults (ss_ctx t) = dc_EngineResults (ss_ctx s) @ rs
     \<and> dc_Matches (ss_ctx t) = dc_Matches (ss_ctx s) @ ms \<and> length rs = length ms
     \<and> (\<forall>r \<in> set rs. 1 \<le> er_Severity r))"

definition raises :: "f64 option \<Rightarrow> stage_state \<Rightarrow> bool" where
  "raises threshold s = (case threshold of None \<Rightarrow> False
     | Some th \<Rightarrow> dc_EngineResults (ss_ctx s) \<noteq> [] \<and> th \<le> CalculateCompoundScore (dc_EngineResults (ss_ctx s)))"

locale detection_stage =
  fixes proc :: "stage_state \<Rightarrow> stage_state"
    and threshold :: "f64 option"
  assumes results_extend: "extends s (proc s)"
    and triggered: "dc_AlertTriggered (ss_ctx (proc s)) \<longleftrightarrow> dc_AlertTriggered (ss_ctx s) \<or> raises threshold s"
    and channel: "ss_chan (proc s) \<noteq> ss_chan s \<Longrightarrow> dc_AlertTriggered (ss_ctx s)"
begin

lemma never_with_high_threshold:
  assumes "\<not> dc_AlertTriggered (ss_ctx s)" "\<And>th. threshold = Some th \<Longrightarrow> 1 < th"
  shows "\<not> dc_AlertTriggered (ss_ctx (proc s)) \<and> ss_chan (proc s) = ss_chan s"
  using triggered [of s] channel [of s] assms compound_score_unit [of "dc_EngineResults (ss_ctx s)"]
  by (fastforce simp: raises_def split: option.splits)

end

fun stage_threshold :: "DetectionStage \<Rightarrow> f64 option" where
  "stage_threshold (RiskScoringStage th) = Some th"
| "stage_threshold _ = None"

lemmas stage_defs = normalizer_Process_def behavior_Process_def heuristic_Process_def ioc_Process_def
  yara_Process_def intel_Process_def correlation_Process_def risk_Process_def alert_Process_def Let_def

lemma severities [simp]: "1 \<le> rnd64 (13 / 2)" "1 \<le> rnd64 (19 / 2)"
  using rnd64_mono [of 1 "13 / 2"] rnd64_mono [of 1 "19 / 2"] by simp_all

lemma extends_refl [simp]: "extends s s"
  by (auto simp: extends_def)

lemma extends_trans: "extends s t \<Longrightarrow> extends t u \<Longrightarrow> extends s u"
  by (fastforce simp: extends_def)

lemma extends_add_result [simp]: "1 \<le> er_Severity r \<Longrightarrow> extends s (add_result r m s)"
  unfolding extends_def by (rule exI [of _ "[r]"], rule exI [of _ "[m]"]) (simp add: add_result_def)

lemma extends_same: "dc_EngineResults (ss_ctx t) = dc_EngineResults (ss_ctx s) \<Longrightarrow>
    dc_Matches (ss_ctx t) = dc_Matches (ss_ctx s) \<Longrightarrow> extends s t"
  by (simp add: extends_def)

lemma add_result_simps [simp]:
  "dc_AlertTriggered (ss_ctx (add_result r m s)) = dc_AlertTriggered (ss_ctx s)"
  "ss_chan (add_result r m s) = ss_chan s" "ss_event (add_result r m s) = ss_event s"
  "dc_EngineResults (ss_ctx (add_result r m s)) = dc_EngineResults (ss_ctx s) @ [r]"
  by (simp_all add: add_result_def)

lemma sigma_stage:
  "extends s (sigma_Process pats s) \<and> ss_chan (sigma_Process pats s) = ss_chan s
   \<and> dc_AlertTriggered (ss_ctx (sigma_Process pats s)) = dc_AlertTriggered (ss_ctx s)"
  by (induction pats) auto

lemma stage_extends: "extends s (stage_Process iter st s)"
  using sigma_stage by (cases st) (auto simp: stage_defs split: option.split intro: extends_same)

lemma stage_triggered:
  "dc_AlertTriggered (ss_ctx (stage_Process iter st s)) \<longleftrightarrow>
     dc_AlertTriggered (ss_ctx s) \<or> raises (stage_threshold st) s"
  using sigma_stage by (cases st) (auto simp: stage_defs raises_def split: option.split)

lemma stage_channel: "ss_chan (stage_Process iter st s) \<noteq> ss_chan s \<Longrightarrow> dc_AlertTriggered (ss_ctx s)"
  using sigma_stage by (cases st) (auto simp: stage_defs split: option.splits if_splits)

interpretation stage: detection_stage "stage_Process iter st" "stage_threshold st" for iter st
  by unfold_locales (rule stage_extends, rule stage_triggered, rule stage_channel)

section \<open>Runs of the pipeline\<close>

lemma pipeline_append:
  "pipeline_Process iter (xs @ ys) e ch = fold (stage_Process iter) ys (pipeline_Process iter xs e ch)"
  by (simp add: pipeline_Process_def)

lemma run_extends: "extends s (fold (stage_Process iter) stages s)"
proof (induction stages arbitrary: s)
  case (Cons st stages)
  show ?case using extends_trans [OF stage_extends Cons.IH] by simp
qed simp

lemma run_extends_pipeline: "extends (pipeline_Process iter xs e ch) (pipeline_Process iter (xs @ ys) e ch)"
  unfolding pipeline_append by (rule run_extends)

lemma run_starts_empty [simp]:
  "pipeline_Process iter [] e ch = \<lparr>ss_event = e, ss_ctx = empty_context, ss_chan = ch\<rparr>"
  by (simp add: pipeline_Process_def)

lemma run_triggered_mono:
  "dc_AlertTriggered (ss_ctx s) \<Longrightarrow> dc_AlertTriggered (ss_ctx (fold (stage_Process iter) stages s))"
  by (induction stages arbitrary: s) (simp_all add: stage_triggered)

lemma snoc_split:
  "(\<exists>pre post. xs @ [x] = pre @ y # post \<and> Q pre) \<longleftrightarrow> (\<exists>pre post. xs = pre @ y # post \<and> Q pre) \<or> x = y \<and> Q xs"
proof (intro iffI; (elim disjE exE conjE)?)
  fix pre post
  assume "xs @ [x] = pre @ y # post" "Q pre"
  then show "(\<exists>pre post. xs = pre @ y # post \<and> Q pre) \<or> x = y \<and> Q xs"
  proof (cases post rule: rev_cases)
    case (snoc ys z)
    with \<open>xs @ [x] = pre @ y # post\<close> have "xs @ [x] = (pre @ y # ys) @ [z]" by simp
    then have "xs = pre @ y # ys" by (simp only: append1_eq_conv)
    with \<open>Q pre\<close> show ?thesis by blast
  qed simp
next
  fix pre post
  assume "xs = pre @ y # post" "Q pre"
  then show "\<exists>pre post. xs @ [x] = pre @ y # post \<and> Q pre" by auto
qed auto

text \<open>C9 (functional). The pipeline raises an alert exactly when some risk-scoring stage of it finds, on the
  results of the stages before it, at least one result and a compound score of at least its
  threshold; no other stage can raise or withdraw one.\<close>

theorem pipeline_alert_iff:
  "dc_AlertTriggered (ss_ctx (pipeline_Process iter stages e ch)) \<longleftrightarrow>
     (\<exists>th pre post. stages = pre @ RiskScoringStage th # post
        \<and> dc_EngineResults (ss_ctx (pipeline_Process iter pre e ch)) \<noteq> []
        \<and> th \<le> CalculateCompoundScore (dc_EngineResults (ss_ctx (pipeline_Process iter pre e ch))))"
proof (induction stages rule: rev_induct)
  case Nil
  then show ?case by (simp add: empty_context_def)
next
  case (snoc st stages)
  have run: "pipeline_Process iter (stages @ [st]) e ch = stage_Process iter st (pipeline_Process iter stages e ch)"
    by (simp add: pipeline_append)
  show ?case
    unfolding run stage_triggered snoc.IH
    by (subst snoc_split [of stages st "RiskScoringStage th" for th]) (cases st; auto simp: raises_def)
qed

text \<open>A threshold above 1, such as the shipped configuration's 8.5, silences the pipeline: with
  all thresholds above 1 no event and no rule set ever raises an alert, and nothing is
  ever sent on the alert channel.\<close>

theorem high_threshold_never_alerts:
  assumes "\<And>th. RiskScoringStage th \<in> set stages \<Longrightarrow> 1 < th"
  shows "\<not> dc_AlertTriggered (ss_ctx (pipeline_Process iter stages e ch))
    \<and> ss_chan (pipeline_Process iter stages e ch) = ch"
  using assms
proof (induction stages rule: rev_induct)
  case Nil
  then show ?case by (simp add: empty_context_def)
next
  case (snoc st stages)
  let ?s = "pipeline_Process iter stages e ch"
  have "\<not> dc_AlertTriggered (ss_ctx ?s)" "ss_chan ?s = ch" using snoc by auto
  moreover have "stage_threshold st = Some th \<Longrightarrow> 1 < th" for th
    using snoc.prems by (cases st) auto
  ultimately show ?case
    using stage.never_with_high_threshold [of ?s st] by (simp add: pipeline_append)
qed

text \<open>The severities of the stages are on a scale to 10 while the score clamps at 1: each
  counts as 1, so that only the weights matter.\<close>

lemma pipeline_severities:
  "r \<in> set (dc_EngineResults (ss_ctx (pipeline_Process iter stages e ch))) \<Longrightarrow> 1 \<le> er_Severity r"
  using run_extends_pipeline [of iter "[]" e ch stages]
  by (auto simp: extends_def empty_context_def)

lemma saturated_product:
  "\<forall>r \<in> set rs. 1 \<le> er_Severity r \<Longrightarrow> product_of p (map (\<lambda>r. r\<lparr>er_Severity := 1\<rparr>) rs) = product_of p rs"
  by (induction rs arbitrary: p) (simp_all add: complement_of_def)

text \<open>Every result a stage reports comes with one match line, and the severities never
  influence the score: replacing each of them by 1 gives the same compound score.\<close>

theorem pipeline_severity_blind:
  "length (dc_Matches (ss_ctx (pipeline_Process iter stages e ch)))
     = length (dc_EngineResults (ss_ctx (pipeline_Process iter stages e ch)))
   \<and> CalculateCompoundScore (dc_EngineResults (ss_ctx (pipeline_Process iter stages e ch)))
     = CalculateCompoundScore (map (\<lambda>r. r\<lparr>er_Severity := 1\<rparr>)
         (dc_EngineResults (ss_ctx (pipeline_Process iter stages e ch))))"
proof
  show "length (dc_Matches (ss_ctx (pipeline_Process iter stages e ch)))
     = length (dc_EngineResults (ss_ctx (pipeline_Process iter stages e ch)))"
    using run_extends_pipeline [of iter "[]" e ch stages] by (auto simp: extends_def empty_context_def)
  show "CalculateCompoundScore (dc_EngineResults (ss_ctx (pipeline_Process iter stages e ch)))
     = CalculateCompoundScore (map (\<lambda>r. r\<lparr>er_Severity := 1\<rparr>)
         (dc_EngineResults (ss_ctx (pipeline_Process iter stages e ch))))"
    unfolding compound_score_product
    by (subst saturated_product) (auto dest: pipeline_severities)
qed

section \<open>A known hash is always reported\<close>

lemma lower_space [simp]: "is_space (lower_char c) = is_space c"
proof (cases "65 \<le> (of_char c :: nat) \<and> (of_char c :: nat) \<le> 90")
  case True
  then show ?thesis by (simp add: lower_char_def is_space_def Let_def)
next
  case False
  then have "lower_char c = c" by (auto simp: lower_char_def Let_def)
  then show ?thesis by simp
qed

lemma dropWhile_lower: "dropWhile is_space (map lower_char s) = map lower_char (dropWhile is_space s)"
  by (induction s) auto

lemma TrimSpace_ToLower: "TrimSpace (ToLower s) = ToLower (TrimSpace s)"
  by (simp add: TrimSpace_def ToLower_def dropWhile_lower rev_map)

lemma dropWhile_rev_dropWhile:
  "dropWhile P (rev (dropWhile P (rev (dropWhile P s)))) = rev (dropWhile P (rev (dropWhile P s)))"
proof (cases "dropWhile P s")
  case (Cons c t)
  then have "\<not> P c" using hd_dropWhile [of P s] by force
  then have "dropWhile P (rev t @ [c]) = dropWhile P (rev t) @ [c]"
    by (induction "rev t") (auto simp: dropWhile_append)
  with Cons \<open>\<not> P c\<close> show ?thesis by simp
qed (simp only: rev.simps dropWhile.simps)

lemma TrimSpace_idem [simp]: "TrimSpace (TrimSpace s) = TrimSpace s"
  unfolding TrimSpace_def dropWhile_rev_dropWhile by simp

definition sha_normal :: "string \<Rightarrow> stage_state \<Rightarrow> bool" where
  "sha_normal h s \<longleftrightarrow> te_SHA256 (ss_event s) = h"

lemma sigma_event [simp]: "ss_event (sigma_Process pats s) = ss_event s"
  by (induction pats) auto

lemma stage_sha:
  "sha_normal (ToLower (TrimSpace h)) s \<Longrightarrow> sha_normal (ToLower (TrimSpace h)) (stage_Process iter st s)"
  by (cases st) (auto simp: sha_normal_def stage_defs TrimSpace_ToLower split: option.split)

lemma run_sha:
  "sha_normal (ToLower (TrimSpace h)) s \<Longrightarrow>
   sha_normal (ToLower (TrimSpace h)) (fold (stage_Process iter) stages s)"
  by (induction stages arbitrary: s) (simp_all add: stage_sha)

lemma product_le_member:
  "r \<in> set rs \<Longrightarrow> product_of 1 rs \<le> complement_of r"
proof (induction rs rule: rev_induct)
  case (snoc x rs)
  have unit: "0 \<le> product_of 1 rs" "product_of 1 rs \<le> 1" using product_unit [of 1 rs] by simp_all
  show ?case
  proof (cases "r \<in> set rs")
    case True
    with snoc.IH product_shrinks [of rs x] show ?thesis by simp
  next
    case False
    with snoc.prems have "r = x" by simp
    moreover have "fmul (product_of 1 rs) (complement_of x) \<le> complement_of x"
      using fl.mult_shrinks [of "complement_of x" "product_of 1 rs"] unit complement_unit [of x]
      by (simp add: fmul_def complement_of_def fsub_def mult.commute)
    ultimately show ?thesis by simp
  qed
qed simp

lemma score_ge_member: "r \<in> set rs \<Longrightarrow> fsub 1 (complement_of r) \<le> CalculateCompoundScore rs"
  unfolding compound_score_product fsub_def by (rule fl.compl_antimono) (rule product_le_member)

definition ioc_result :: EngineResult where
  "ioc_result = \<lparr>er_EngineName = ''IOCMatching'', er_Severity = rnd64 (19 / 2), er_Weight = rnd64 (9 / 10),
     er_MITREIDs = [''T1204.002'']\<rparr>"

lemma ioc_result_score: "89 / 100 \<le> fsub 1 (complement_of ioc_result)"
  by code_simp

lemma known_hash_found:
  assumes "iocList (ToLower (TrimSpace (te_SHA256 e))) = Some label"
  shows "ioc_result \<in> set (dc_EngineResults (ss_ctx (pipeline_Process iter (NormalizerStage # mid @ IOCMatchingStage iocList # post) e ch)))"
    and "''Matched known malicious payload hash: '' @ label
      \<in> set (dc_Matches (ss_ctx (pipeline_Process iter (NormalizerStage # mid @ IOCMatchingStage iocList # post) e ch)))"
proof -
  define s where "s = pipeline_Process iter (NormalizerStage # mid) e ch"
  define t where "t = stage_Process iter (IOCMatchingStage iocList) s"
  have "sha_normal (ToLower (TrimSpace (te_SHA256 e))) s"
    unfolding s_def pipeline_Process_def
    by (simp, rule run_sha) (simp add: sha_normal_def normalizer_Process_def)
  then have t: "t = add_result ioc_result (''Matched known malicious payload hash: '' @ label) s"
    using assms by (simp add: t_def sha_normal_def ioc_Process_def ioc_result_def)
  have "extends t (fold (stage_Process iter) post t)" by (rule run_extends)
  moreover have "pipeline_Process iter (NormalizerStage # mid @ IOCMatchingStage iocList # post) e ch = fold (stage_Process iter) post t"
    by (simp add: pipeline_Process_def t_def s_def)
  ultimately show "ioc_result \<in> set (dc_EngineResults (ss_ctx (pipeline_Process iter (NormalizerStage # mid @ IOCMatchingStage iocList # post) e ch)))"
    "''Matched known malicious payload hash: '' @ label
      \<in> set (dc_Matches (ss_ctx (pipeline_Process iter (NormalizerStage # mid @ IOCMatchingStage iocList # post) e ch)))"
    using t by (auto simp: extends_def add_result_def)
qed

lemma known_hash_score:
  assumes "iocList (ToLower (TrimSpace (te_SHA256 e))) = Some label"
  shows "89 / 100 \<le> CalculateCompoundScore (dc_EngineResults (ss_ctx
      (pipeline_Process iter (NormalizerStage # mid @ IOCMatchingStage iocList # post) e ch)))"
  using ioc_result_score score_ge_member [OF known_hash_found(1) [where iocList = iocList and e = e and label = label, OF assms]]
  by (rule order_trans)

text \<open>Once an event has passed the normaliser, a hash on the IOC list is always found,
  whatever white space or letter case the sensor reported it in and whatever stages run in
  between; its result then carries any threshold up to 0.89 on its own.\<close>

theorem known_hash_alerts:
  assumes "iocList (ToLower (TrimSpace (te_SHA256 e))) = Some label" "th \<le> 89 / 100"
  shows "''Matched known malicious payload hash: '' @ label \<in> set (dc_Matches (ss_ctx
      (pipeline_Process iter (NormalizerStage # mid @ IOCMatchingStage iocList # post @ [RiskScoringStage th]) e ch)))
    \<and> dc_AlertTriggered (ss_ctx
      (pipeline_Process iter (NormalizerStage # mid @ IOCMatchingStage iocList # post @ [RiskScoringStage th]) e ch))"
proof -
  define u where "u = pipeline_Process iter (NormalizerStage # mid @ IOCMatchingStage iocList # post) e ch"
  note found = known_hash_found [where iocList = iocList and e = e and label = label and iter = iter and mid = mid and post = post
      and ch = ch, OF assms(1), folded u_def]
  have "th \<le> CalculateCompoundScore (dc_EngineResults (ss_ctx u))"
    unfolding u_def
    by (rule order_trans [OF assms(2) known_hash_score [where iocList = iocList and e = e and label = label, OF assms(1)]])
  moreover have run: "pipeline_Process iter (NormalizerStage # mid @ IOCMatchingStage iocList # post @ [RiskScoringStage th]) e ch
      = stage_Process iter (RiskScoringStage th) u"
    by (simp add: pipeline_Process_def u_def)
  ultimately show ?thesis
    unfolding run using found by (auto simp: risk_Process_def Let_def)
qed

section \<open>A run\<close>

definition sample_detection_event :: Event where
  "sample_detection_event = sample_event\<lparr>te_Type := ''process'', te_ParentID := 1,
     te_SHA256 := '' ABC '', te_CommandLine := ''a.out -enc''\<rparr>"

theorem high_threshold_witness:
  "\<not> dc_AlertTriggered (ss_ctx (pipeline_Process id [BehaviorAnalysisStage, HeuristicStage 0,
      CorrelationStage, RiskScoringStage (17 / 2), AlertStage] sample_detection_event \<lparr>ac_queue = [], ac_cap = 4\<rparr>))"
  using high_threshold_never_alerts [of "[BehaviorAnalysisStage, HeuristicStage 0, CorrelationStage,
      RiskScoringStage (17 / 2), AlertStage]" id sample_detection_event "\<lparr>ac_queue = [], ac_cap = 4\<rparr>"] by auto

theorem known_hash_witness:
  "dc_AlertTriggered (ss_ctx (pipeline_Process id (NormalizerStage # [BehaviorAnalysisStage]
     @ IOCMatchingStage [''abc'' \<mapsto> ''dropper''] # [] @ [RiskScoringStage (4 / 5)])
     sample_detection_event \<lparr>ac_queue = [], ac_cap = 4\<rparr>))"
proof -
  have "[''abc'' \<mapsto> ''dropper''] (ToLower (TrimSpace (te_SHA256 sample_detection_event))) = Some ''dropper''"
    by code_simp
  then show ?thesis
    using known_hash_alerts [of "[''abc'' \<mapsto> ''dropper'']" sample_detection_event "''dropper''" "4 / 5" id
      "[BehaviorAnalysisStage]" "[]" "\<lparr>ac_queue = [], ac_cap = 4\<rparr>"] by simp
qed

end
