(* ===== verification/Correlation.thy ===== *)
theory Correlation
  imports Telemetry
begin

text \<open>
  The correlation engine (\<open>internal/correlation/engine.go\<close>): process nodes live on a heap
  that only grows, because \<open>Children\<close> holds pointers and a node that leaves the window's map
  stays reachable from its parent. An address is the node's position on the heap; \<open>nodes\<close>
  maps a PID to the address of the latest process seen with it. The two recursive walks of
  the code (\<open>collectTimeline\<close>, \<open>collectAlertNames\<close>) carry fuel and return \<open>None\<close> when it runs
  out; \<open>sort.Slice\<close>, which is not stable, is a parameter with the contract \<open>slice_sort\<close>.
\<close>

section \<open>Data\<close>

record FileActivity =
  fa_FilePath :: string
  fa_Action :: string
  fa_OccurredAt :: go_time

record NetworkActivity =
  na_Protocol :: string
  na_RemoteIP :: string
  na_RemotePort :: int32
  na_OccurredAt :: go_time

record RegistryActivity =
  ra_KeyPath :: string
  ra_Action :: string
  ra_OccurredAt :: go_time

record AlertActivity =
  aa_RuleName :: string
  aa_Description :: string
  aa_OccurredAt :: go_time

type_synonym node_addr = nat

record ProcessNode =
  pn_PID :: int32
  pn_ParentPID :: int32
  pn_BinaryPath :: string
  pn_CommandLine :: string
  pn_Username :: string
  pn_LaunchedAt :: go_time
  pn_FileChanges :: "FileActivity list"
  pn_NetConnects :: "NetworkActivity list"
  pn_RegistryKeys :: "RegistryActivity list"
  pn_Alerts :: "AlertActivity list"
  pn_Children :: "node_addr list"

record TimelineItem =
  ti_Timestamp :: go_time
  ti_Category :: string
  ti_Description :: string

record corr_engine =
  ce_heap :: "ProcessNode list"
  ce_nodes :: "int32 \<rightharpoonup> node_addr"
  ce_window :: duration

definition NewEngine :: "duration \<Rightarrow> corr_engine" where
  "NewEngine window = \<lparr>ce_heap = [], ce_nodes = Map.empty, ce_window = window\<rparr>"

section \<open>Ingesting events\<close>

definition prune_window :: "go_time \<Rightarrow> corr_engine \<Rightarrow> corr_engine" where
  "prune_window now en = en\<lparr>ce_nodes :=
     map_prune (\<lambda>a. ce_window en < time_Sub now (pn_LaunchedAt (ce_heap en ! a))) (ce_nodes en)\<rparr>"

definition update_node :: "node_addr \<Rightarrow> (ProcessNode \<Rightarrow> ProcessNode) \<Rightarrow> corr_engine \<Rightarrow> corr_engine" where
  "update_node a f en = en\<lparr>ce_heap := (ce_heap en)[a := f (ce_heap en ! a)]\<rparr>"

text \<open>\<open>if node, exists := e.nodes[pid]; exists { ... }\<close>\<close>

definition on_node :: "int32 \<Rightarrow> (ProcessNode \<Rightarrow> ProcessNode) \<Rightarrow> corr_engine \<Rightarrow> corr_engine" where
  "on_node pid f en = (case ce_nodes en pid of None \<Rightarrow> en | Some a \<Rightarrow> update_node a f en)"

definition process_node :: "Event \<Rightarrow> ProcessNode" where
  "process_node ev = \<lparr>pn_PID = te_ProcessID ev, pn_ParentPID = te_ParentID ev,
     pn_BinaryPath = te_BinaryPath ev, pn_CommandLine = te_CommandLine ev,
     pn_Username = te_Username ev, pn_LaunchedAt = te_Timestamp ev, pn_FileChanges = [],
     pn_NetConnects = [], pn_RegistryKeys = [], pn_Alerts = [], pn_Children = []\<rparr>"

definition add_process :: "Event \<Rightarrow> corr_engine \<Rightarrow> corr_engine" where
  "add_process ev en =
     (let a = length (ce_heap en)
      in on_node (te_ParentID ev) (\<lambda>p. p\<lparr>pn_Children := pn_Children p @ [a]\<rparr>)
           (en\<lparr>ce_heap := ce_heap en @ [process_node ev],
               ce_nodes := (ce_nodes en)(te_ProcessID ev \<mapsto> a)\<rparr>))"

definition Correlate :: "go_time \<Rightarrow> Event \<Rightarrow> corr_engine \<Rightarrow> corr_engine" where
  "Correlate now ev en0 =
     (let en = prune_window now en0
      in if te_Type ev = ''process'' then add_process ev en
         else if te_Type ev = ''file'' then
           on_node (te_ProcessID ev) (\<lambda>n. n\<lparr>pn_FileChanges := pn_FileChanges n @
             [\<lparr>fa_FilePath = te_FilePath ev, fa_Action = te_FileAction ev, fa_OccurredAt = te_Timestamp ev\<rparr>]\<rparr>) en
         else if te_Type ev = ''network'' then
           on_node (te_ProcessID ev) (\<lambda>n. n\<lparr>pn_NetConnects := pn_NetConnects n @
             [\<lparr>na_Protocol = te_Protocol ev, na_RemoteIP = te_RemoteIP ev,
               na_RemotePort = te_RemotePort ev, na_OccurredAt = te_Timestamp ev\<rparr>]\<rparr>) en
         else if te_Type ev = ''registry'' then
           on_node (te_ProcessID ev) (\<lambda>n. n\<lparr>pn_RegistryKeys := pn_RegistryKeys n @
             [\<lparr>ra_KeyPath = te_FilePath ev, ra_Action = te_FileAction ev, ra_OccurredAt = te_Timestamp ev\<rparr>]\<rparr>) en
         else en)"

definition RecordAlert :: "go_time \<Rightarrow> int32 \<Rightarrow> string \<Rightarrow> string \<Rightarrow> corr_engine \<Rightarrow> corr_engine" where
  "RecordAlert now pid ruleName desc en =
     on_node pid (\<lambda>n. n\<lparr>pn_Alerts := pn_Alerts n @
       [\<lparr>aa_RuleName = ruleName, aa_Description = desc, aa_OccurredAt = now\<rparr>]\<rparr>) en"

section \<open>Reading the tree\<close>

definition launch_item :: "ProcessNode \<Rightarrow> TimelineItem" where
  "launch_item n = \<lparr>ti_Timestamp = pn_LaunchedAt n, ti_Category = ''PROCESS'',
     ti_Description = ''Process executed: '' @ pn_BinaryPath n @ '' (args: '' @ pn_CommandLine n
       @ '') by '' @ pn_Username n\<rparr>"

definition file_item :: "FileActivity \<Rightarrow> TimelineItem" where
  "file_item f = \<lparr>ti_Timestamp = fa_OccurredAt f, ti_Category = ''FILE'',
     ti_Description = ''File '' @ fa_Action f @ '': '' @ fa_FilePath f\<rparr>"

definition net_item :: "NetworkActivity \<Rightarrow> TimelineItem" where
  "net_item n = \<lparr>ti_Timestamp = na_OccurredAt n, ti_Category = ''NETWORK'',
     ti_Description = ''Network connection: '' @ na_Protocol n @ '' '' @ na_RemoteIP n @ '':''
       @ show_int (sint (na_RemotePort n))\<rparr>"

definition registry_item :: "RegistryActivity \<Rightarrow> TimelineItem" where
  "registry_item r = \<lparr>ti_Timestamp = ra_OccurredAt r, ti_Category = ''REGISTRY'',
     ti_Description = ''Registry '' @ ra_Action r @ '': '' @ ra_KeyPath r\<rparr>"

definition alert_item :: "AlertActivity \<Rightarrow> TimelineItem" where
  "alert_item a = \<lparr>ti_Timestamp = aa_OccurredAt a, ti_Category = ''ALERT'',
     ti_Description = ''Alert '' @ aa_RuleName a @ '' triggered: '' @ aa_Description a\<rparr>"

definition node_items :: "ProcessNode \<Rightarrow> TimelineItem list" where
  "node_items n = launch_item n # map file_item (pn_FileChanges n) @ map net_item (pn_NetConnects n)
     @ map registry_item (pn_RegistryKeys n) @ map alert_item (pn_Alerts n)"

text \<open>A recursive walk: what \<open>own\<close> reads off the node, then the children in order.\<close>

fun walk :: "(ProcessNode \<Rightarrow> 'i list) \<Rightarrow> nat \<Rightarrow> ProcessNode list \<Rightarrow> node_addr \<Rightarrow> 'i list option"
  and walks :: "(ProcessNode \<Rightarrow> 'i list) \<Rightarrow> nat \<Rightarrow> ProcessNode list \<Rightarrow> node_addr list \<Rightarrow> 'i list option" where
  "walk own 0 h a = None"
| "walk own (Suc n) h a = map_option (\<lambda>rest. own (h ! a) @ rest) (walks own n h (pn_Children (h ! a)))"
| "walks own n h [] = Some []"
| "walks own n h (c # cs) =
     (case walk own n h c of
        None \<Rightarrow> None
      | Some xs \<Rightarrow> map_option (\<lambda>rest. xs @ rest) (walks own n h cs))"

abbreviation collectTimeline :: "nat \<Rightarrow> ProcessNode list \<Rightarrow> node_addr \<Rightarrow> TimelineItem list option" where
  "collectTimeline \<equiv> walk node_items"

abbreviation collectAlertNames :: "nat \<Rightarrow> ProcessNode list \<Rightarrow> node_addr \<Rightarrow> string list option" where
  "collectAlertNames \<equiv> walk (\<lambda>n. map aa_RuleName (pn_Alerts n))"

definition not_in_window :: "int32 \<Rightarrow> go_error" where
  "not_in_window pid = ''process node '' @ show_int (sint pid) @ '' not found in active window''"

definition ReconstructTimeline ::
  "(TimelineItem list \<Rightarrow> TimelineItem list) \<Rightarrow> nat \<Rightarrow> int32 \<Rightarrow> corr_engine \<Rightarrow> TimelineItem list result option" where
  "ReconstructTimeline srt fuel pid en =
     (case ce_nodes en pid of
        None \<Rightarrow> Some (Err (not_in_window pid))
      | Some a \<Rightarrow> map_option (\<lambda>items. Ok (srt items)) (collectTimeline fuel (ce_heap en) a))"

definition GroupAlerts :: "nat \<Rightarrow> int32 \<Rightarrow> corr_engine \<Rightarrow> string list result option" where
  "GroupAlerts fuel pid en =
     (case ce_nodes en pid of
        None \<Rightarrow> Some (Err (not_in_window pid))
      | Some a \<Rightarrow> map_option Ok (collectAlertNames fuel (ce_heap en) a))"

section \<open>Runs\<close>

datatype corr_op =
  CorrEvent go_time Event
| CorrAlert go_time int32 string string

fun corr_step :: "corr_op \<Rightarrow> corr_engine \<Rightarrow> corr_engine" where
  "corr_step (CorrEvent now ev) = Correlate now ev"
| "corr_step (CorrAlert now pid ruleName desc) = RecordAlert now pid ruleName desc"

definition corr_run :: "duration \<Rightarrow> corr_op list \<Rightarrow> corr_engine" where
  "corr_run window ops = fold corr_step ops (NewEngine window)"

text \<open>A process event that names its own PID as its parent.\<close>

fun self_parent :: "corr_op \<Rightarrow> bool" where
  "self_parent (CorrEvent now ev) \<longleftrightarrow> te_Type ev = ''process'' \<and> te_ParentID ev = te_ProcessID ev"
| "self_parent (CorrAlert now pid ruleName desc) \<longleftrightarrow> False"

section \<open>The heap is a forest\<close>

definition forest :: "ProcessNode list \<Rightarrow> bool" where
  "forest h \<longleftrightarrow> (\<forall>a < length h. set (pn_Children (h ! a)) \<subseteq> {a<..<length h})"

definition corr_ok :: "corr_engine \<Rightarrow> bool" where
  "corr_ok en \<longleftrightarrow> forest (ce_heap en) \<and> ran (ce_nodes en) \<subseteq> {..< length (ce_heap en)}"

lemma corr_ok_node: "corr_ok en \<Longrightarrow> ce_nodes en pid = Some a \<Longrightarrow> a < length (ce_heap en)"
  by (auto simp: corr_ok_def ran_def)

lemma forest_child: "forest h \<Longrightarrow> a < length h \<Longrightarrow> c \<in> set (pn_Children (h ! a)) \<Longrightarrow> a < c \<and> c < length h"
  unfolding forest_def by (metis greaterThanLessThan_iff subsetD)

lemma forestI: "(\<And>a c. a < length h \<Longrightarrow> c \<in> set (pn_Children (h ! a)) \<Longrightarrow> a < c \<and> c < length h) \<Longrightarrow> forest h"
  unfolding forest_def by (metis greaterThanLessThan_iff subsetI)

lemma NewEngine_ok [invs]: "corr_ok (NewEngine window)"
  by (simp add: corr_ok_def forest_def NewEngine_def)

lemma prune_window_ok [invs]: "corr_ok en \<Longrightarrow> corr_ok (prune_window now en)"
  unfolding corr_ok_def prune_window_def
  by (auto simp del: map_prune_Some dest!: subsetD [OF ran_map_prune] subsetD)

lemma forest_update:
  assumes "forest h" "set (pn_Children x) \<subseteq> set (pn_Children (h ! b)) \<union> {b<..<length h}"
  shows "forest (h[b := x])"
proof (rule forestI)
  fix a c
  assume a: "a < length (h[b := x])" and c: "c \<in> set (pn_Children (h[b := x] ! a))"
  show "a < c \<and> c < length (h[b := x])"
  proof (cases "a = b")
    case True
    with a c have "c \<in> set (pn_Children x)" by simp
    with assms(2) have "c \<in> set (pn_Children (h ! b)) \<or> b < c \<and> c < length h" by auto
    with forest_child [OF assms(1), of b c] True a show ?thesis by auto
  next
    case False
    with a c forest_child [OF assms(1), of a c] show ?thesis by simp
  qed
qed

lemma forest_snoc: "forest h \<Longrightarrow> pn_Children n = [] \<Longrightarrow> forest (h @ [n])"
  by (rule forestI) (auto simp: nth_append less_Suc_eq dest: forest_child split: if_splits)

lemma on_node_ok [invs]:
  "corr_ok en \<Longrightarrow> (\<And>n. pn_Children (f n) = pn_Children n) \<Longrightarrow> corr_ok (on_node pid f en)"
  by (cases "ce_nodes en pid") (auto simp: corr_ok_def on_node_def update_node_def intro!: forest_update)

lemma add_process_ok [invs]:
  assumes "corr_ok en" "te_ParentID ev \<noteq> te_ProcessID ev"
  shows "corr_ok (add_process ev en)"
proof -
  let ?a = "length (ce_heap en)" and ?h = "ce_heap en @ [process_node ev]"
  have h: "forest ?h"
    using assms(1) unfolding corr_ok_def by (intro forest_snoc) (simp_all add: process_node_def)
  have ran: "ran ((ce_nodes en)(te_ProcessID ev \<mapsto> ?a)) \<subseteq> {..< length ?h}"
    using assms(1) by (auto simp: corr_ok_def ran_def less_Suc_eq subset_iff)
  show ?thesis
  proof (cases "ce_nodes en (te_ParentID ev)")
    case None
    with assms(2) h ran show ?thesis by (simp add: add_process_def Let_def on_node_def corr_ok_def)
  next
    case (Some p)
    then have "p < ?a" using assms(1) by (rule corr_ok_node [rotated])
    then have "forest (?h[p := (?h ! p)\<lparr>pn_Children := pn_Children (?h ! p) @ [?a]\<rparr>])"
      by (intro forest_update [OF h]) auto
    with Some assms(2) ran show ?thesis
      by (simp add: add_process_def Let_def on_node_def update_node_def corr_ok_def)
  qed
qed

lemma corr_step_ok [invs]: "corr_ok en \<Longrightarrow> \<not> self_parent op \<Longrightarrow> corr_ok (corr_step op en)"
  by (cases op) (auto simp: Correlate_def RecordAlert_def Let_def intro!: invs)

lemma on_node_length [simp]: "length (ce_heap (on_node pid f en)) = length (ce_heap en)"
  by (simp add: on_node_def update_node_def split: option.split)

lemma corr_step_length: "length (ce_heap (corr_step op en)) \<le> Suc (length (ce_heap en))"
  by (cases op) (auto simp: Correlate_def RecordAlert_def Let_def add_process_def prune_window_def)

lemma corr_run_snoc: "corr_run window (ops @ [op]) = corr_step op (corr_run window ops)"
  by (simp add: corr_run_def)

lemma corr_run_ok:
  "list_all (\<lambda>op. \<not> self_parent op) ops \<Longrightarrow> corr_ok (corr_run window ops)"
proof (induction ops rule: rev_induct)
  case Nil
  then show ?case using NewEngine_ok by (simp add: corr_run_def)
qed (simp add: corr_run_snoc corr_step_ok)

lemma corr_run_length: "length (ce_heap (corr_run window ops)) \<le> length ops"
proof (induction ops rule: rev_induct)
  case Nil
  then show ?case by (simp add: corr_run_def NewEngine_def)
next
  case (snoc op ops)
  then show ?case using corr_step_length [of op "corr_run window ops"] by (simp add: corr_run_snoc)
qed

section \<open>The walks end on a forest\<close>

lemma walks_total: "(\<And>c. c \<in> set cs \<Longrightarrow> walk own n h c \<noteq> None) \<Longrightarrow> walks own n h cs \<noteq> None"
  by (induction cs) (auto split: option.split)

lemma walk_total:
  "forest h \<Longrightarrow> a < length h \<Longrightarrow> length h \<le> n + a \<Longrightarrow> walk own n h a \<noteq> None"
proof (induction n arbitrary: a)
  case (Suc n)
  have "walk own n h c \<noteq> None" if "c \<in> set (pn_Children (h ! a))" for c
    using Suc.IH [of c] forest_child [OF Suc.prems(1,2) that] Suc.prems by auto
  then have "walks own n h (pn_Children (h ! a)) \<noteq> None" by (rule walks_total)
  then show ?case by auto
qed simp

lemma walk_obtains:
  assumes "corr_ok en" "ce_nodes en pid = Some a" "length (ce_heap en) \<le> fuel"
  obtains rest where "walk own fuel (ce_heap en) a = Some (own (ce_heap en ! a) @ rest)"
proof -
  have "walk own fuel (ce_heap en) a \<noteq> None"
    using assms corr_ok_node by (intro walk_total) (auto simp: corr_ok_def)
  then show ?thesis using that by (cases fuel) auto
qed

lemma walk_frame:
  "forest h \<Longrightarrow> b < a \<Longrightarrow> a < length h \<Longrightarrow> walk own n (h[b := x]) a = walk own n h a"
  "forest h \<Longrightarrow> (\<And>c. c \<in> set cs \<Longrightarrow> b < c \<and> c < length h) \<Longrightarrow> walks own n (h[b := x]) cs = walks own n h cs"
proof (induction own n h a and own n h cs rule: walk_walks.induct)
  case (2 own n h a)
  then have "walks own n (h[b := x]) (pn_Children (h ! a)) = walks own n h (pn_Children (h ! a))"
    using forest_child by (metis less_trans)
  with 2 show ?case by simp
qed (auto split: option.split)

section \<open>Timelines\<close>

interpretation timeline_sort: slice_sort "\<lambda>x y. ti_Timestamp x < ti_Timestamp y" "sort_key ti_Timestamp"
  by (rule by_key.slice_sort_axioms)

lemmas sort_by_time = by_key.slice_sort_axioms [where key = ti_Timestamp]

abbreviation sorts_timelines :: "(TimelineItem list \<Rightarrow> TimelineItem list) \<Rightarrow> bool" where
  "sorts_timelines \<equiv> slice_sort (\<lambda>x y. ti_Timestamp x < ti_Timestamp y)"

lemma sorts_timelines_sorted:
  assumes "sorts_timelines srt"
  shows "sorted (map ti_Timestamp (srt items))" "mset (srt items) = mset items"
proof -
  have "sorted_wrt (\<lambda>x y. \<not> ti_Timestamp y < ti_Timestamp x) (srt items)"
    using assms by (rule slice_sort.ordered)
  then show "sorted (map ti_Timestamp (srt items))"
    by (simp add: sorted_map not_less)
  show "mset (srt items) = mset items" using assms by (rule slice_sort.permuted)
qed

definition node_of :: "int32 \<Rightarrow> corr_engine \<Rightarrow> ProcessNode" where
  "node_of pid en = ce_heap en ! the (ce_nodes en pid)"

text \<open>C19 (termination). As long as no process event names its own PID as its parent, the timeline and the
  grouped alerts of every process in the window are returned, whatever PIDs are reused, whatever
  left the window and however deep the tree is: a recursion depth of the number of
  operations so far is enough. The timeline is in order of time and has the launch of the
  process and everything recorded on it.\<close>

theorem timeline_returns:
  assumes "sorts_timelines srt" "list_all (\<lambda>op. \<not> self_parent op) ops" "length ops \<le> fuel"
    and "pid \<in> dom (ce_nodes (corr_run window ops))"
  shows "\<exists>tl names. ReconstructTimeline srt fuel pid (corr_run window ops) = Some (Ok tl)
    \<and> GroupAlerts fuel pid (corr_run window ops) = Some (Ok names)
    \<and> sorted (map ti_Timestamp tl)
    \<and> set (node_items (node_of pid (corr_run window ops))) \<subseteq> set tl
    \<and> set (map aa_RuleName (pn_Alerts (node_of pid (corr_run window ops)))) \<subseteq> set names"
proof -
  let ?en = "corr_run window ops"
  obtain a where a: "ce_nodes ?en pid = Some a" using assms(4) by blast
  have ok: "corr_ok ?en" and fuel: "length (ce_heap ?en) \<le> fuel"
    using assms corr_run_ok corr_run_length order_trans by blast+
  obtain rest where rest: "collectTimeline fuel (ce_heap ?en) a = Some (node_items (ce_heap ?en ! a) @ rest)"
    using walk_obtains [OF ok a fuel] .
  obtain names where names: "collectAlertNames fuel (ce_heap ?en) a
      = Some (map aa_RuleName (pn_Alerts (ce_heap ?en ! a)) @ names)"
    using walk_obtains [OF ok a fuel] .
  show ?thesis
    using rest names a sorts_timelines_sorted(1) [OF assms(1)] slice_sort.same_set [OF assms(1)]
    by (auto simp: ReconstructTimeline_def GroupAlerts_def node_of_def)
qed

text \<open>What an event of each kind adds to the timeline of its process.\<close>

definition activity_item :: "Event \<Rightarrow> TimelineItem" where
  "activity_item ev =
     (if te_Type ev = ''file'' then file_item \<lparr>fa_FilePath = te_FilePath ev, fa_Action = te_FileAction ev, fa_OccurredAt = te_Timestamp ev\<rparr>
      else if te_Type ev = ''network'' then net_item \<lparr>na_Protocol = te_Protocol ev, na_RemoteIP = te_RemoteIP ev,
        na_RemotePort = te_RemotePort ev, na_OccurredAt = te_Timestamp ev\<rparr>
      else registry_item \<lparr>ra_KeyPath = te_FilePath ev, ra_Action = te_FileAction ev, ra_OccurredAt = te_Timestamp ev\<rparr>)"

lemma Correlate_activity:
  assumes "te_Type ev \<in> {''file'', ''network'', ''registry''}" "ce_nodes (prune_window now en) (te_ProcessID ev) = Some a"
  obtains f where "Correlate now ev en = update_node a f (prune_window now en)"
    "\<And>n. pn_Children (f n) = pn_Children n"
    "\<And>n. mset (node_items (f n)) = add_mset (activity_item ev) (mset (node_items n))"
proof -
  let ?fn = "\<lambda>n. n\<lparr>pn_FileChanges := pn_FileChanges n @
      [\<lparr>fa_FilePath = te_FilePath ev, fa_Action = te_FileAction ev, fa_OccurredAt = te_Timestamp ev\<rparr>]\<rparr>"
  let ?nn = "\<lambda>n. n\<lparr>pn_NetConnects := pn_NetConnects n @ [\<lparr>na_Protocol = te_Protocol ev, na_RemoteIP = te_RemoteIP ev,
      na_RemotePort = te_RemotePort ev, na_OccurredAt = te_Timestamp ev\<rparr>]\<rparr>"
  let ?rn = "\<lambda>n. n\<lparr>pn_RegistryKeys := pn_RegistryKeys n @
      [\<lparr>ra_KeyPath = te_FilePath ev, ra_Action = te_FileAction ev, ra_OccurredAt = te_Timestamp ev\<rparr>]\<rparr>"
  from assms(1) consider "te_Type ev = ''file''" | "te_Type ev = ''network''" | "te_Type ev = ''registry''" by auto
  then show ?thesis
  proof cases
    case 1
    with assms(2) show ?thesis
      by (intro that [of ?fn]) (simp_all add: Correlate_def on_node_def node_items_def activity_item_def launch_item_def)
  next
    case 2
    with assms(2) show ?thesis
      by (intro that [of ?nn]) (simp_all add: Correlate_def on_node_def node_items_def activity_item_def launch_item_def)
  next
    case 3
    with assms(2) show ?thesis
      by (intro that [of ?rn]) (simp_all add: Correlate_def on_node_def node_items_def activity_item_def launch_item_def)
  qed
qed

text \<open>C20 (functional). Correlating a file, network or registry event of a process in the window adds
  exactly one item, with the event's time and text, to the timeline of that process, and
  nothing else of the timeline changes.\<close>

theorem activity_recorded:
  assumes "sorts_timelines srt" "list_all (\<lambda>op. \<not> self_parent op) ops" "length ops \<le> fuel"
    and "te_Type ev \<in> {''file'', ''network'', ''registry''}"
    and "ce_nodes (corr_run window ops) (te_ProcessID ev) = Some a"
    and "time_Sub now (pn_LaunchedAt (ce_heap (corr_run window ops) ! a)) \<le> ce_window (corr_run window ops)"
  shows "\<exists>tl tl'. ReconstructTimeline srt fuel (te_ProcessID ev) (corr_run window ops) = Some (Ok tl)
    \<and> ReconstructTimeline srt fuel (te_ProcessID ev) (Correlate now ev (corr_run window ops)) = Some (Ok tl')
    \<and> mset tl' = add_mset (activity_item ev) (mset tl)"
proof -
  let ?en = "corr_run window ops" and ?h = "ce_heap (corr_run window ops)"
  have ok: "corr_ok ?en" and len: "length ?h \<le> fuel"
    using assms corr_run_ok corr_run_length order_trans by blast+
  have a: "a < length ?h" using ok assms(5) by (rule corr_ok_node)
  have pruned: "ce_nodes (prune_window now ?en) (te_ProcessID ev) = Some a"
    using assms(5,6) by (simp add: prune_window_def not_less)
  obtain f where f: "Correlate now ev ?en = update_node a f (prune_window now ?en)"
      "\<And>n. pn_Children (f n) = pn_Children n"
      "\<And>n. mset (node_items (f n)) = add_mset (activity_item ev) (mset (node_items n))"
    using Correlate_activity [OF assms(4) pruned] by blast
  have heap: "ce_heap (Correlate now ev ?en) = ?h[a := f (?h ! a)]"
    and node: "ce_nodes (Correlate now ev ?en) (te_ProcessID ev) = Some a"
    using pruned by (simp_all add: f(1) update_node_def prune_window_def)
  have tree: "forest ?h" using ok by (simp add: corr_ok_def)
  obtain n where n: "fuel = Suc n" using len a by (cases fuel) auto
  obtain rest where rest: "walks node_items n ?h (pn_Children (?h ! a)) = Some rest"
    using walk_obtains [OF ok assms(5) len] unfolding n by auto
  have "walks node_items n (?h[a := f (?h ! a)]) (pn_Children (?h ! a)) = Some rest"
    using rest by (subst walk_frame(2) [OF tree]) (auto dest: forest_child [OF tree a])
  then have new: "collectTimeline fuel (?h[a := f (?h ! a)]) a = Some (node_items (f (?h ! a)) @ rest)"
    using a by (simp add: n f(2))
  have old: "collectTimeline fuel ?h a = Some (node_items (?h ! a) @ rest)"
    using rest by (simp add: n)
  show ?thesis
    using old new assms(5) node heap f(3) [of "?h ! a"] slice_sort.permuted [OF assms(1)]
    by (simp add: ReconstructTimeline_def)
qed

subsection \<open>A node that is its own child\<close>

lemma walks_None: "c \<in> set cs \<Longrightarrow> walk own n h c = None \<Longrightarrow> walks own n h cs = None"
  by (induction cs) (auto split: option.split)

lemma walk_loop: "a \<in> set (pn_Children (h ! a)) \<Longrightarrow> walk own fuel h a = None"
  by (induction fuel) (simp_all add: walks_None)

definition trapped :: "int32 \<Rightarrow> go_time \<Rightarrow> corr_engine \<Rightarrow> bool" where
  "trapped pid launched en \<longleftrightarrow> (case ce_nodes en pid of None \<Rightarrow> False
     | Some a \<Rightarrow> a < length (ce_heap en) \<and> a \<in> set (pn_Children (ce_heap en ! a)) \<and> pn_LaunchedAt (ce_heap en ! a) = launched)"

text \<open>The operation leaves the node in the window and gives its PID to no new process.\<close>

fun stays :: "int32 \<Rightarrow> go_time \<Rightarrow> duration \<Rightarrow> corr_op \<Rightarrow> bool" where
  "stays pid launched window (CorrEvent now ev) \<longleftrightarrow>
     time_Sub now launched \<le> window \<and> (te_Type ev = ''process'' \<longrightarrow> te_ProcessID ev \<noteq> pid)"
| "stays pid launched window (CorrAlert now q ruleName desc) \<longleftrightarrow> True"

lemma trapped_on_node:
  assumes "trapped pid launched en" "\<And>n. set (pn_Children n) \<subseteq> set (pn_Children (f n))" "\<And>n. pn_LaunchedAt (f n) = pn_LaunchedAt n"
  shows "trapped pid launched (on_node q f en)"
proof (cases "ce_nodes en q")
  case None
  then show ?thesis using assms(1) by (simp add: on_node_def)
next
  case (Some b)
  from assms(1) obtain a where "ce_nodes en pid = Some a" "a < length (ce_heap en)" "a \<in> set (pn_Children (ce_heap en ! a))"
    "pn_LaunchedAt (ce_heap en ! a) = launched"
    by (auto simp: trapped_def split: option.splits)
  with Some assms(2,3) show ?thesis by (cases "a = b") (auto simp: trapped_def on_node_def update_node_def)
qed

lemma trapped_prune: "trapped pid launched en \<Longrightarrow> time_Sub now launched \<le> ce_window en \<Longrightarrow> trapped pid launched (prune_window now en)"
  by (auto simp: trapped_def prune_window_def not_less split: option.splits)

lemma trapped_add_process:
  assumes "trapped pid launched en" "te_ProcessID ev \<noteq> pid"
  shows "trapped pid launched (add_process ev en)"
proof -
  from assms have "trapped pid launched (en\<lparr>ce_heap := ce_heap en @ [process_node ev],
      ce_nodes := (ce_nodes en)(te_ProcessID ev \<mapsto> length (ce_heap en))\<rparr>)"
    by (auto simp: trapped_def nth_append split: option.splits)
  then show ?thesis unfolding add_process_def Let_def by (rule trapped_on_node) auto
qed

lemma corr_step_window [simp]: "ce_window (corr_step op en) = ce_window en"
  by (cases op) (simp_all add: Correlate_def RecordAlert_def add_process_def on_node_def update_node_def prune_window_def Let_def
      split: option.split)

lemma trapped_step: "trapped pid launched en \<Longrightarrow> stays pid launched (ce_window en) op \<Longrightarrow> trapped pid launched (corr_step op en)"
  by (cases op) (auto simp: Correlate_def RecordAlert_def Let_def intro!: trapped_on_node trapped_add_process trapped_prune)

lemma trapped_run:
  "trapped pid launched en \<Longrightarrow> list_all (stays pid launched (ce_window en)) ops \<Longrightarrow> trapped pid launched (fold corr_step ops en)"
  by (induction ops arbitrary: en) (simp_all add: trapped_step)

text \<open>C38 (error). A process event that names its own PID as its parent makes its node a child of itself, because the
  engine looks the parent up after it has registered the new node. From then on, whatever
  events and alerts follow, the timeline and the alert grouping of that PID recurse for ever, with whatever
  recursion depth, as long as the node is within the window and no further process event gives its PID to
  another node.\<close>

theorem self_parent_diverges:
  assumes "te_Type ev = ''process''" "te_ParentID ev = te_ProcessID ev"
    and "list_all (stays (te_ProcessID ev) (te_Timestamp ev) (ce_window en)) ops"
  shows "ReconstructTimeline srt fuel (te_ProcessID ev) (fold corr_step ops (Correlate now ev en)) = None
    \<and> GroupAlerts fuel (te_ProcessID ev) (fold corr_step ops (Correlate now ev en)) = None"
proof -
  have "trapped (te_ProcessID ev) (te_Timestamp ev) (Correlate now ev en)"
    using assms(1,2) by (simp add: trapped_def Correlate_def add_process_def on_node_def update_node_def
        prune_window_def process_node_def Let_def)
  moreover have "ce_window (Correlate now ev en) = ce_window en" using corr_step_window [of "CorrEvent now ev"] by simp
  ultimately have "trapped (te_ProcessID ev) (te_Timestamp ev) (fold corr_step ops (Correlate now ev en))"
    using assms(3) by (intro trapped_run) simp_all
  then show ?thesis by (auto simp: trapped_def ReconstructTimeline_def GroupAlerts_def walk_loop split: option.splits)
qed

section \<open>A run\<close>

definition shell_event :: Event where
  "shell_event = sample_event\<lparr>te_Type := ''process'', te_ProcessID := 7, te_ParentID := 1, te_Timestamp := 100\<rparr>"

definition sample_ops :: "corr_op list" where
  "sample_ops = [CorrEvent 100 shell_event,
     CorrEvent 120 (shell_event\<lparr>te_ProcessID := 8, te_ParentID := 7, te_Timestamp := 120\<rparr>),
     CorrAlert 130 8 ''rule'' ''d'']"

definition sample_file_event :: Event where
  "sample_file_event = sample_event\<lparr>te_Timestamp := 110, te_FilePath := ''/etc/passwd''\<rparr>"

lemma sample_ops_run:
  "list_all (\<lambda>op. \<not> self_parent op) sample_ops" "ce_nodes (corr_run 1000 sample_ops) 7 = Some 0"
  "pn_LaunchedAt (ce_heap (corr_run 1000 sample_ops) ! 0) = 100" "ce_window (corr_run 1000 sample_ops) = 1000"
  "te_ProcessID sample_file_event = 7" "te_Type sample_file_event = ''file''"
  by code_simp+

theorem timeline_returns_witness:
  "\<exists>tl. ReconstructTimeline (sort_key ti_Timestamp) 3 7 (corr_run 1000 sample_ops) = Some (Ok tl)"
proof -
  have "length sample_ops \<le> 3" by (simp add: sample_ops_def)
  moreover have "7 \<in> dom (ce_nodes (corr_run 1000 sample_ops))" using sample_ops_run(2) by blast
  ultimately show ?thesis using timeline_returns [OF sort_by_time sample_ops_run(1), of 3 7 1000] by blast
qed

theorem activity_recorded_witness:
  "\<exists>tl'. ReconstructTimeline (sort_key ti_Timestamp) 3 7 (Correlate 150 sample_file_event (corr_run 1000 sample_ops))
     = Some (Ok tl') \<and> activity_item sample_file_event \<in> set tl'"
proof -
  have "length sample_ops \<le> 3" by (simp add: sample_ops_def)
  moreover have "time_Sub 150 100 \<le> (1000 :: int)" by code_simp
  ultimately show ?thesis
    using activity_recorded [OF sort_by_time sample_ops_run(1), of 3 sample_file_event 1000 0 150]
    by (auto simp: sample_ops_run dest!: arg_cong [of _ _ set_mset])
qed

theorem self_parent_diverges_witness:
  "GroupAlerts 1000 7 (fold corr_step [CorrAlert 130 7 ''rule'' ''d'', CorrEvent 140 sample_file_event]
     (Correlate 100 (shell_event\<lparr>te_ParentID := 7\<rparr>) (NewEngine 60))) = None"
proof -
  have "time_Sub 140 100 \<le> (60 :: int)" by code_simp
  then show ?thesis
    using self_parent_diverges [of "shell_event\<lparr>te_ParentID := 7\<rparr>" "NewEngine 60"
        "[CorrAlert 130 7 ''rule'' ''d'', CorrEvent 140 sample_file_event]" id 1000 100]
    by (simp add: shell_event_def sample_ops_run NewEngine_def)
qed

end
