(* ===== verification/Nextgen.thy ===== *)
theory Nextgen
  imports Telemetry "HOL-Library.List_Lexorder" "HOL-Library.Char_ord"
begin

text \<open>
  The sharded correlation engine (\<open>internal/correlation/nextgen/engine.go\<close>): graph nodes on
  a heap that only grows (edges hold pointers, so a node dropped from its shard stays
  reachable), shards chosen by the FNV-1a hash of the node's ID, sequence rules matched
  against the graph, and alerts sent on a buffered channel without blocking. \<open>fmt_time\<close> is
  \<open>Time.Format(time.RFC3339)\<close> in the agent's time zone. The result of an operation is \<open>None\<close>
  where the code panics: a shard count that is zero as a \<open>uint32\<close> divides by zero.
\<close>

section \<open>Data\<close>

type_synonym ng_addr = nat

record ng_edge =
  ed_Type :: string
  ed_Target :: ng_addr
  ed_Timestamp :: go_time

record ng_node =
  nn_ID :: string
  nn_Type :: string
  nn_Timestamp :: go_time
  nn_binary_path :: string
  nn_command_line :: string
  nn_username :: string
  nn_pid :: int32
  nn_parent_id :: int32
  nn_Edges :: "ng_edge list"

record CorrelationRule =
  cr_ID :: string
  cr_Name :: string
  cr_Sequence :: "string list"
  cr_TimeWindow :: duration
  cr_MITREIDs :: "string list"
  cr_Description :: string

record ng_alert =
  ng_RuleID :: string
  ng_RuleName :: string
  ng_RootPID :: int32
  ng_RiskScore :: f64
  ng_ConfidenceScore :: f64
  ng_MITREIDs :: "string list"
  ng_Timeline :: "string list"
  ng_OccurredAt :: go_time

type_synonym shard = "string \<rightharpoonup> ng_addr"

record ng_engine =
  ng_heap :: "ng_node list"
  ng_shards :: "shard list"
  ng_rules :: "CorrelationRule list"
  ng_window :: duration
  ng_suppressed :: "string set"
  ng_chan :: "ng_alert list"
  ng_chan_cap :: nat

definition ng_NewEngine :: "nat \<Rightarrow> duration \<Rightarrow> nat \<Rightarrow> ng_engine" where
  "ng_NewEngine shardCount window chanCap = \<lparr>ng_heap = [], ng_shards = replicate shardCount Map.empty,
     ng_rules = [], ng_window = window, ng_suppressed = {}, ng_chan = [], ng_chan_cap = chanCap\<rparr>"

definition AddRule :: "CorrelationRule \<Rightarrow> ng_engine \<Rightarrow> ng_engine" where
  "AddRule r e = e\<lparr>ng_rules := ng_rules e @ [r]\<rparr>"

definition SuppressAlert :: "string \<Rightarrow> string \<Rightarrow> ng_engine \<Rightarrow> ng_engine" where
  "SuppressAlert ruleID target e = e\<lparr>ng_suppressed := insert (ruleID @ '':'' @ target) (ng_suppressed e)\<rparr>"

section \<open>Shards\<close>

text \<open>\<open>fnv.New32a\<close>.\<close>

definition fnv32a :: "string \<Rightarrow> int32" where
  "fnv32a s = foldl (\<lambda>h c. (Bit_Operations.xor h (of_nat (of_char c))) * 16777619) 2166136261 s"

definition getShard :: "string \<Rightarrow> ng_engine \<Rightarrow> nat option" where
  "getShard ident e =
     (let n = word_of_nat (length (ng_shards e)) :: int32
      in if n = 0 then None else Some (unat (fnv32a ident mod n)))"

section \<open>Matching a sequence\<close>

text \<open>\<open>checkSequence\<close> and its loop over the edges of a node; the sequence still to match stands
  for \<open>seq\<close> and \<open>idx\<close>.\<close>

function (sequential) checkSequence ::
  "ng_node list \<Rightarrow> ng_addr \<Rightarrow> string list \<Rightarrow> ng_addr list \<Rightarrow> duration \<Rightarrow> ng_addr list option"
  and tryEdges ::
  "ng_node list \<Rightarrow> ng_addr \<Rightarrow> ng_edge list \<Rightarrow> string list \<Rightarrow> ng_addr list \<Rightarrow> duration \<Rightarrow> ng_addr list option" where
  "checkSequence h n [] chain w = Some chain"
| "checkSequence h n (t # ts) chain w =
     (if nn_Type (h ! n) \<noteq> t then None
      else let newChain = chain @ [n]
           in if ts = [] then Some newChain else tryEdges h n (nn_Edges (h ! n)) ts newChain w)"
| "tryEdges h n [] ts chain w = None"
| "tryEdges h n (e # es) ts chain w =
     (if w < time_Sub (nn_Timestamp (h ! ed_Target e)) (nn_Timestamp (h ! n)) then tryEdges h n es ts chain w
      else case checkSequence h (ed_Target e) ts chain w of
             Some finalChain \<Rightarrow> Some finalChain
           | None \<Rightarrow> tryEdges h n es ts chain w)"
  by pat_completeness auto

termination
  by (relation "measures [\<lambda>x. case x of Inl (h, n, ts, c, w) \<Rightarrow> length ts | Inr (h, n, es, ts, c, w) \<Rightarrow> length ts,
      \<lambda>x. case x of Inl _ \<Rightarrow> 0 | Inr (h, n, es, ts, c, w) \<Rightarrow> Suc (length es)]") auto

section \<open>Alerts\<close>

definition root_node :: "ng_node list \<Rightarrow> ng_addr \<Rightarrow> ng_addr list \<Rightarrow> ng_addr" where
  "root_node h n chain =
     foldl (\<lambda>root a. if nn_Timestamp (h ! a) < nn_Timestamp (h ! root) then a else root) n chain"

fun chain_risk :: "nat \<Rightarrow> ng_addr list \<Rightarrow> f64 \<Rightarrow> f64" where
  "chain_risk i [] r = r"
| "chain_risk i (a # as) r = chain_risk (Suc i) as (fadd r (fmul (3 / 2) (f64_of_int (int i + 1))))"

definition chain_line :: "(go_time \<Rightarrow> string) \<Rightarrow> ng_node \<Rightarrow> string" where
  "chain_line fmt_time n = ''['' @ fmt_time (nn_Timestamp n) @ ''] '' @ nn_Type n @ '' (ID: '' @ nn_ID n @ '')''"

definition triggerAlert ::
  "(go_time \<Rightarrow> string) \<Rightarrow> go_time \<Rightarrow> CorrelationRule \<Rightarrow> ng_addr list \<Rightarrow> ng_engine \<Rightarrow> ng_engine" where
  "triggerAlert fmt_time now rule chain e =
     (case chain of
        [] \<Rightarrow> e
      | n # rest \<Rightarrow>
          let rootPID = nn_pid (ng_heap e ! root_node (ng_heap e) n rest);
              key = cr_ID rule @ '':'' @ show_int (sint rootPID);
              riskScore = chain_risk 0 chain 0;
              alert = \<lparr>ng_RuleID = cr_ID rule, ng_RuleName = cr_Name rule, ng_RootPID = rootPID,
                ng_RiskScore = (if 10 < riskScore then 10 else riskScore),
                ng_ConfidenceScore = rnd64 (85 / 100), ng_MITREIDs = cr_MITREIDs rule,
                ng_Timeline = map (\<lambda>a. chain_line fmt_time (ng_heap e ! a)) chain, ng_OccurredAt = now\<rparr>
          in if key \<in> ng_suppressed e then e
             else if length (ng_chan e) < ng_chan_cap e then e\<lparr>ng_chan := ng_chan e @ [alert]\<rparr>
             else e)"

fun eval_rules ::
  "(go_time \<Rightarrow> string) \<Rightarrow> go_time \<Rightarrow> ng_addr \<Rightarrow> CorrelationRule list \<Rightarrow> ng_engine \<Rightarrow> ng_engine" where
  "eval_rules fmt_time now a [] e = e"
| "eval_rules fmt_time now a (rule # rules) e =
     eval_rules fmt_time now a rules
       (case checkSequence (ng_heap e) a (cr_Sequence rule) [] (cr_TimeWindow rule) of
          Some chain \<Rightarrow> triggerAlert fmt_time now rule chain e
        | None \<Rightarrow> e)"

definition evaluateRules :: "(go_time \<Rightarrow> string) \<Rightarrow> go_time \<Rightarrow> ng_addr \<Rightarrow> ng_engine \<Rightarrow> ng_engine" where
  "evaluateRules fmt_time now a e = eval_rules fmt_time now a (ng_rules e) e"

section \<open>Ingesting events\<close>

definition process_key :: "int32 \<Rightarrow> string" where
  "process_key pid = ''process:'' @ show_int (sint pid)"

definition node_key :: "Event \<Rightarrow> string" where
  "node_key ev =
     (if te_Type ev = ''process'' then te_Type ev @ '':'' @ show_int (sint (te_ProcessID ev))
      else if te_Type ev = ''network''
      then te_Type ev @ '':'' @ te_RemoteIP ev @ '':'' @ show_int (sint (te_RemotePort ev))
      else te_Type ev @ '':'' @ te_FilePath ev)"

definition new_node :: "Event \<Rightarrow> ng_node" where
  "new_node ev = \<lparr>nn_ID = node_key ev, nn_Type = ToUpper (te_Type ev), nn_Timestamp = te_Timestamp ev,
     nn_binary_path = te_BinaryPath ev, nn_command_line = te_CommandLine ev, nn_username = te_Username ev,
     nn_pid = te_ProcessID ev, nn_parent_id = te_ParentID ev, nn_Edges = []\<rparr>"

definition store_node :: "go_time \<Rightarrow> Event \<Rightarrow> nat \<Rightarrow> ng_engine \<Rightarrow> ng_engine" where
  "store_node now ev i e =
     (let pruned = map_prune (\<lambda>a. ng_window e < time_Sub now (nn_Timestamp (ng_heap e ! a))) (ng_shards e ! i)
      in e\<lparr>ng_heap := ng_heap e @ [new_node ev],
           ng_shards := (ng_shards e)[i := pruned(node_key ev \<mapsto> length (ng_heap e))]\<rparr>)"

definition add_edge :: "ng_addr \<Rightarrow> ng_edge \<Rightarrow> ng_node list \<Rightarrow> ng_node list" where
  "add_edge a ed h = h[a := (h ! a)\<lparr>nn_Edges := nn_Edges (h ! a) @ [ed]\<rparr>]"

definition link_parent :: "Event \<Rightarrow> ng_addr \<Rightarrow> nat \<Rightarrow> ng_engine \<Rightarrow> ng_engine" where
  "link_parent ev node i e =
     (case (ng_shards e ! i) (process_key (te_ParentID ev)) of
        None \<Rightarrow> e
      | Some parentNode \<Rightarrow> e\<lparr>ng_heap :=
          add_edge node \<lparr>ed_Type = ''PARENT_OF'', ed_Target = parentNode, ed_Timestamp = te_Timestamp ev\<rparr>
            (add_edge parentNode \<lparr>ed_Type = ''SPAWNED'', ed_Target = node, ed_Timestamp = te_Timestamp ev\<rparr> (ng_heap e))\<rparr>)"

definition ng_Ingest :: "(go_time \<Rightarrow> string) \<Rightarrow> go_time \<Rightarrow> Event \<Rightarrow> ng_engine \<Rightarrow> ng_engine option" where
  "ng_Ingest fmt_time now ev e =
     (let node = length (ng_heap e)
      in case getShard (node_key ev) e of
           None \<Rightarrow> None
         | Some i \<Rightarrow>
             let e1 = store_node now ev i e
             in if te_Type ev = ''process'' \<and> 0 < sint (te_ParentID ev)
                then case getShard (process_key (te_ParentID ev)) e1 of
                       None \<Rightarrow> None
                     | Some j \<Rightarrow> Some (evaluateRules fmt_time now node (link_parent ev node j e1))
                else Some (evaluateRules fmt_time now node e1))"

section \<open>Timelines\<close>

definition dfs_line :: "(go_time \<Rightarrow> string) \<Rightarrow> ng_node \<Rightarrow> string" where
  "dfs_line fmt_time n = ''['' @ fmt_time (nn_Timestamp n) @ ''] ['' @ nn_Type n @ ''] '' @ nn_ID n"

text \<open>The depth-first walk threads the visited IDs and the lines so far.\<close>

type_synonym dfs_state = "string set \<times> string list"

fun dfsTimeline ::
  "(go_time \<Rightarrow> string) \<Rightarrow> nat \<Rightarrow> ng_node list \<Rightarrow> ng_addr \<Rightarrow> dfs_state \<Rightarrow> dfs_state option"
  and dfsEdges ::
  "(go_time \<Rightarrow> string) \<Rightarrow> nat \<Rightarrow> ng_node list \<Rightarrow> ng_edge list \<Rightarrow> dfs_state \<Rightarrow> dfs_state option" where
  "dfsTimeline fmt_time 0 h n st = None"
| "dfsTimeline fmt_time (Suc fuel) h n (visited, timeline) =
     (if nn_ID (h ! n) \<in> visited then Some (visited, timeline)
      else dfsEdges fmt_time fuel h (nn_Edges (h ! n))
             (insert (nn_ID (h ! n)) visited, timeline @ [dfs_line fmt_time (h ! n)]))"
| "dfsEdges fmt_time fuel h [] st = Some st"
| "dfsEdges fmt_time fuel h (ed # eds) st =
     (case dfsTimeline fmt_time fuel h (ed_Target ed) st of
        None \<Rightarrow> None
      | Some st' \<Rightarrow> dfsEdges fmt_time fuel h eds st')"

text \<open>The outer option is \<open>None\<close> when the code panics, the inner one when the fuel runs out.\<close>

definition ng_ReconstructTimeline ::
  "(go_time \<Rightarrow> string) \<Rightarrow> (string list \<Rightarrow> string list) \<Rightarrow> nat \<Rightarrow> int32 \<Rightarrow> ng_engine \<Rightarrow> string list result option option" where
  "ng_ReconstructTimeline fmt_time srt fuel pid e =
     (case getShard (process_key pid) e of
        None \<Rightarrow> None
      | Some i \<Rightarrow> Some
          (case (ng_shards e ! i) (process_key pid) of
             None \<Rightarrow> Some (Err (''process pid '' @ show_int (sint pid) @ '' not found''))
           | Some n \<Rightarrow> map_option (\<lambda>st. Ok (srt (snd st))) (dfsTimeline fmt_time fuel (ng_heap e) n ({}, []))))"

section \<open>The matcher against its specification\<close>

definition edge_in_window :: "ng_node list \<Rightarrow> duration \<Rightarrow> ng_addr \<Rightarrow> ng_edge \<Rightarrow> bool" where
  "edge_in_window h w n e \<longleftrightarrow> time_Sub (nn_Timestamp (h ! ed_Target e)) (nn_Timestamp (h ! n)) \<le> w"

fun linked :: "ng_node list \<Rightarrow> duration \<Rightarrow> ng_addr list \<Rightarrow> bool" where
  "linked h w [] \<longleftrightarrow> True"
| "linked h w [n] \<longleftrightarrow> True"
| "linked h w (n # m # p) \<longleftrightarrow>
     list_ex (\<lambda>e. ed_Target e = m \<and> edge_in_window h w n e) (nn_Edges (h ! n)) \<and> linked h w (m # p)"

text \<open>A chain from \<open>n\<close> whose node types are the sequence and whose neighbours are linked by edges
  within the window.\<close>

definition chain_of :: "ng_node list \<Rightarrow> duration \<Rightarrow> ng_addr \<Rightarrow> string list \<Rightarrow> ng_addr list \<Rightarrow> bool" where
  "chain_of h w n seq p \<longleftrightarrow> map (\<lambda>a. nn_Type (h ! a)) p = seq \<and> linked h w p \<and> (p = [] \<or> hd p = n)"

lemma chain_of_Nil [simp]: "chain_of h w n [] p \<longleftrightarrow> p = []"
  by (auto simp: chain_of_def)

lemma chain_of_single [simp]: "chain_of h w n [t] p \<longleftrightarrow> nn_Type (h ! n) = t \<and> p = [n]"
  by (auto simp: chain_of_def)

lemma chain_of_Cons:
  assumes "ts \<noteq> []"
  shows "chain_of h w n (t # ts) p \<longleftrightarrow> nn_Type (h ! n) = t \<and>
     (\<exists>e q. e \<in> set (nn_Edges (h ! n)) \<and> edge_in_window h w n e \<and> chain_of h w (ed_Target e) ts q \<and> p = n # q)"
proof
  assume c: "chain_of h w n (t # ts) p"
  with assms obtain m q where "p = n # m # q" by (auto simp: chain_of_def map_eq_Cons_conv neq_Nil_conv)
  with c show "nn_Type (h ! n) = t \<and>
     (\<exists>e q. e \<in> set (nn_Edges (h ! n)) \<and> edge_in_window h w n e \<and> chain_of h w (ed_Target e) ts q \<and> p = n # q)"
    by (auto simp: chain_of_def list_ex_iff)
next
  assume "nn_Type (h ! n) = t \<and>
     (\<exists>e q. e \<in> set (nn_Edges (h ! n)) \<and> edge_in_window h w n e \<and> chain_of h w (ed_Target e) ts q \<and> p = n # q)"
  then obtain e q where eq: "nn_Type (h ! n) = t" "e \<in> set (nn_Edges (h ! n))" "edge_in_window h w n e"
    "chain_of h w (ed_Target e) ts q" "p = n # q" by blast
  with assms obtain r where "q = ed_Target e # r" by (cases q) (auto simp: chain_of_def)
  with eq show "chain_of h w n (t # ts) p" by (auto simp: chain_of_def list_ex_iff)
qed

lemma check_spec:
  "(\<forall>r. checkSequence h n seq chain w = Some r \<longrightarrow> (\<exists>p. r = chain @ p \<and> chain_of h w n seq p))
   \<and> (checkSequence h n seq chain w = None \<longrightarrow> (\<nexists>p. chain_of h w n seq p))"
  "(\<forall>r. tryEdges h n es ts chain w = Some r \<longrightarrow>
       (\<exists>e p. e \<in> set es \<and> edge_in_window h w n e \<and> r = chain @ p \<and> chain_of h w (ed_Target e) ts p))
   \<and> (tryEdges h n es ts chain w = None \<longrightarrow>
       (\<nexists>e p. e \<in> set es \<and> edge_in_window h w n e \<and> chain_of h w (ed_Target e) ts p))"
proof (induction h n seq chain w and h n es ts chain w rule: checkSequence_tryEdges.induct)
  case (2 h n t ts chain w)
  show ?case
  proof (cases "nn_Type (h ! n) = t \<and> ts \<noteq> []")
    case True
    then have IH: "(\<forall>r. tryEdges h n (nn_Edges (h ! n)) ts (chain @ [n]) w = Some r \<longrightarrow>
       (\<exists>e p. e \<in> set (nn_Edges (h ! n)) \<and> edge_in_window h w n e \<and> r = (chain @ [n]) @ p \<and> chain_of h w (ed_Target e) ts p))
   \<and> (tryEdges h n (nn_Edges (h ! n)) ts (chain @ [n]) w = None \<longrightarrow>
       (\<nexists>e p. e \<in> set (nn_Edges (h ! n)) \<and> edge_in_window h w n e \<and> chain_of h w (ed_Target e) ts p))"
      using 2 by blast
    show ?thesis
      unfolding chain_of_Cons [OF conjunct2 [OF True]] using True IH by fastforce
  next
    case False
    then show ?thesis by (auto simp: chain_of_def)
  qed
next
  case (4 h n e es ts chain w)
  show ?case
  proof (cases "edge_in_window h w n e")
    case True
    then show ?thesis
      using 4 by (cases "checkSequence h (ed_Target e) ts chain w") (auto simp: edge_in_window_def, blast)
  next
    case False
    then show ?thesis using 4 by (auto simp: edge_in_window_def, blast)
  qed
qed auto

text \<open>C18 (functional). The rule matcher is sound and complete: it returns a chain that starts at the new node,
  has exactly the types of the rule's sequence and follows edges within the rule's time
  window, and it reports no match only if no such chain exists.\<close>

theorem checkSequence_spec:
  "case checkSequence h n seq [] w of
     Some p \<Rightarrow> chain_of h w n seq p
   | None \<Rightarrow> \<not> (\<exists>p. chain_of h w n seq p)"
  using check_spec(1) [of h n seq "[]" w] by (auto split: option.split)

section \<open>Runs\<close>

datatype ng_op =
  NgIngest go_time Event
| NgRule CorrelationRule
| NgSuppress string string

fun ng_step :: "(go_time \<Rightarrow> string) \<Rightarrow> ng_op \<Rightarrow> ng_engine \<Rightarrow> ng_engine option" where
  "ng_step fmt_time (NgIngest now ev) e = ng_Ingest fmt_time now ev e"
| "ng_step fmt_time (NgRule r) e = Some (AddRule r e)"
| "ng_step fmt_time (NgSuppress ruleID target) e = Some (SuppressAlert ruleID target e)"

fun ng_run :: "(go_time \<Rightarrow> string) \<Rightarrow> ng_op list \<Rightarrow> ng_engine \<Rightarrow> ng_engine option" where
  "ng_run fmt_time [] e = Some e"
| "ng_run fmt_time (op # ops) e =
     (case ng_step fmt_time op e of None \<Rightarrow> None | Some e' \<Rightarrow> ng_run fmt_time ops e')"

section \<open>The shape of the graph\<close>

text \<open>The node was made from some event.\<close>

definition made_from_event :: "ng_node \<Rightarrow> bool" where
  "made_from_event n \<longleftrightarrow> (\<exists>ev. nn_ID n = node_key ev \<and> nn_Type n = ToUpper (te_Type ev))"

definition graph_ok :: "ng_node list \<Rightarrow> bool" where
  "graph_ok h \<longleftrightarrow> (\<forall>n \<in> set h. made_from_event n) \<and>
     (\<forall>n \<in> set h. \<forall>ed \<in> set (nn_Edges n). nn_Type n = ''PROCESS''
        \<and> ed_Target ed < length h \<and> nn_Type (h ! ed_Target ed) = ''PROCESS'')"

definition shard_ok :: "ng_node list \<Rightarrow> shard \<Rightarrow> bool" where
  "shard_ok h m \<longleftrightarrow> (\<forall>k a. m k = Some a \<longrightarrow> a < length h \<and> nn_ID (h ! a) = k)"

text \<open>An alert comes from a registered rule that needs no edge or only names processes.\<close>

definition alert_ok :: "CorrelationRule list \<Rightarrow> ng_alert \<Rightarrow> bool" where
  "alert_ok rules al \<longleftrightarrow> (\<exists>r \<in> set rules. ng_RuleID al = cr_ID r
     \<and> length (ng_Timeline al) = length (cr_Sequence r)
     \<and> (length (cr_Sequence r) = 1 \<or> set (cr_Sequence r) \<subseteq> {''PROCESS''}))
     \<and> 1 \<le> ng_RiskScore al \<and> ng_RiskScore al \<le> 10"

definition ng_ok :: "ng_engine \<Rightarrow> bool" where
  "ng_ok e \<longleftrightarrow> graph_ok (ng_heap e) \<and> (\<forall>m \<in> set (ng_shards e). shard_ok (ng_heap e) m)
     \<and> (\<forall>al \<in> set (ng_chan e). alert_ok (ng_rules e) al) \<and> length (ng_chan e) \<le> ng_chan_cap e"

lemma count_colon_show_int: "count_list (show_int i) (CHR '':'') = 0"
  using show_int_no_colon by (simp add: count_list_0_iff)

text \<open>A node found under the key of a process is a process node.\<close>

lemma process_key_type:
  assumes "node_key ev = process_key pid"
  shows "te_Type ev = ''process''"
proof (rule ccontr)
  assume np: "te_Type ev \<noteq> ''process''"
  then obtain x where x: "node_key ev = te_Type ev @ CHR '':'' # x"
    by (cases "te_Type ev = ''network''") (auto simp: node_key_def)
  have key: "process_key pid = ''process'' @ CHR '':'' # show_int (sint pid)" by (simp add: process_key_def)
  have "count_list (te_Type ev @ CHR '':'' # x) (CHR '':'') = 1"
    unfolding x [symmetric] assms key by (simp add: count_colon_show_int)
  then have "CHR '':'' \<notin> set (te_Type ev)" by (simp add: count_list_0_iff)
  moreover have "CHR '':'' \<notin> set ''process''" by simp
  ultimately have "te_Type ev = ''process''"
    using split_first_eq [of "CHR '':''" "te_Type ev" "''process''" x "show_int (sint pid)"] assms x key by metis
  with np show False ..
qed

lemma ToUpper_process: "ToUpper ''process'' = ''PROCESS''"
  by code_simp

lemma found_parent_type:
  assumes "graph_ok h" "shard_ok h m" "m (process_key pid) = Some a"
  shows "a < length h \<and> nn_Type (h ! a) = ''PROCESS''"
proof -
  have a: "a < length h" "nn_ID (h ! a) = process_key pid" using assms(2,3) by (auto simp: shard_ok_def)
  then have "made_from_event (h ! a)" using assms(1) by (auto simp: graph_ok_def)
  then obtain ev where ev: "node_key ev = process_key pid" "nn_Type (h ! a) = ToUpper (te_Type ev)"
    using a(2) by (auto simp: made_from_event_def)
  then show ?thesis using a(1) process_key_type [OF ev(1)] ToUpper_process by simp
qed

lemma new_node_made: "made_from_event (new_node ev)"
  by (auto simp: made_from_event_def new_node_def)

lemma graph_snoc: "graph_ok h \<Longrightarrow> graph_ok (h @ [new_node ev])"
  using new_node_made by (fastforce simp: graph_ok_def nth_append new_node_def)

lemma shard_snoc: "shard_ok h m \<Longrightarrow> shard_ok (h @ [n]) m"
  by (auto simp: shard_ok_def nth_append less_Suc_eq)

lemma add_edge_nth [simp]:
  "length (add_edge a ed h) = length h"
  "b < length h \<Longrightarrow> nn_ID (add_edge a ed h ! b) = nn_ID (h ! b)"
  "b < length h \<Longrightarrow> nn_Type (add_edge a ed h ! b) = nn_Type (h ! b)"
  by (cases "a = b"; simp add: add_edge_def)+

lemma shard_add_edge: "shard_ok h m \<Longrightarrow> shard_ok (add_edge a ed h) m"
  by (simp add: shard_ok_def)

lemma made_add_edge: "made_from_event n \<Longrightarrow> made_from_event (n\<lparr>nn_Edges := es\<rparr>)"
  by (simp add: made_from_event_def)

lemma graph_add_edge:
  assumes "graph_ok h" "a < length h" "nn_Type (h ! a) = ''PROCESS''"
    "ed_Target ed < length h" "nn_Type (h ! ed_Target ed) = ''PROCESS''"
  shows "graph_ok (add_edge a ed h)"
proof -
  let ?h = "add_edge a ed h" and ?n = "(h ! a)\<lparr>nn_Edges := nn_Edges (h ! a) @ [ed]\<rparr>"
  have sub: "set ?h \<subseteq> insert ?n (set h)" unfolding add_edge_def by (rule set_update_subset_insert)
  have ha: "h ! a \<in> set h" using assms(2) by simp
  show ?thesis
    unfolding graph_ok_def
  proof (intro conjI ballI)
    fix n assume "n \<in> set ?h"
    then show "made_from_event n"
      using sub assms(1) ha made_add_edge by (auto simp: graph_ok_def)
  next
    fix n e assume n: "n \<in> set ?h" and e: "e \<in> set (nn_Edges n)"
    then consider "n \<in> set h" | "n = ?n" using sub by blast
    then have "nn_Type n = ''PROCESS'' \<and> ed_Target e < length h \<and> nn_Type (h ! ed_Target e) = ''PROCESS''"
      using e assms ha by cases (auto simp: graph_ok_def)
    then show "nn_Type n = ''PROCESS''" "ed_Target e < length ?h" "nn_Type (?h ! ed_Target e) = ''PROCESS''"
      by auto
  qed
qed

section \<open>Preservation\<close>

lemma edge_types:
  assumes "graph_ok h" "n < length h" "ed \<in> set (nn_Edges (h ! n))"
  shows "nn_Type (h ! n) = ''PROCESS'' \<and> ed_Target ed < length h \<and> nn_Type (h ! ed_Target ed) = ''PROCESS''"
proof -
  have "h ! n \<in> set h" using assms(2) by simp
  then show ?thesis using assms(1,3) unfolding graph_ok_def by blast
qed

lemma linked_processes:
  "graph_ok h \<Longrightarrow> linked h w (n # m # p) \<Longrightarrow> n < length h \<Longrightarrow>
   set (map (\<lambda>a. nn_Type (h ! a)) (n # m # p)) \<subseteq> {''PROCESS''}"
proof (induction p arbitrary: n m)
  case Nil
  then show ?case using edge_types [of h n] by (auto simp: list_ex_iff)
next
  case (Cons q p)
  then obtain ed where ed: "ed \<in> set (nn_Edges (h ! n))" "ed_Target ed = m" by (auto simp: list_ex_iff)
  from edge_types [OF Cons.prems(1,3) ed(1)] ed(2)
  have "nn_Type (h ! n) = ''PROCESS''" "m < length h" by simp_all
  moreover have "set (map (\<lambda>a. nn_Type (h ! a)) (m # q # p)) \<subseteq> {''PROCESS''}"
    by (rule Cons.IH [OF Cons.prems(1) _ calculation(2)]) (use Cons.prems(2) in simp)
  ultimately show ?case by simp
qed

lemma risk_step: 
  assumes "0 \<le> r"
  shows "1 \<le> fadd r (fmul (3 / 2) (f64_of_int (int i + 1)))"
proof -
  have "1 \<le> f64_of_int (int i + 1)" unfolding f64_of_int_def using rnd64_mono [of 1 "of_int (int i + 1)"] by simp
  then have "1 \<le> fmul (3 / 2) (f64_of_int (int i + 1))"
    unfolding fmul_def using rnd64_mono [of 1 "3 / 2 * f64_of_int (int i + 1)"] by simp
  then show ?thesis
    unfolding fadd_def using assms rnd64_mono [of 1 "r + fmul (3 / 2) (f64_of_int (int i + 1))"] by simp
qed

lemma chain_risk_mono: "1 \<le> r \<Longrightarrow> 1 \<le> chain_risk i as r"
  by (induction as arbitrary: r i) (simp_all add: risk_step)

lemma chain_risk_ge: "0 \<le> r \<Longrightarrow> as \<noteq> [] \<Longrightarrow> 1 \<le> chain_risk i as r"
  by (cases as) (simp_all add: chain_risk_mono risk_step)

lemma alert_ok_add_rule: "alert_ok rules al \<Longrightarrow> alert_ok (rules @ more_rules) al"
  by (auto simp: alert_ok_def)

lemma triggerAlert_frame [simp]:
  "ng_heap (triggerAlert fmt_time now rule chain e) = ng_heap e"
  "ng_shards (triggerAlert fmt_time now rule chain e) = ng_shards e"
  "ng_rules (triggerAlert fmt_time now rule chain e) = ng_rules e"
  by (simp_all add: triggerAlert_def Let_def split: list.split)

lemma triggerAlert_chan:
  "ng_chan (triggerAlert fmt_time now rule chain e) = ng_chan e \<or>
   length (ng_chan e) < ng_chan_cap e \<and> chain \<noteq> [] \<and>
   (\<exists>al. ng_chan (triggerAlert fmt_time now rule chain e) = ng_chan e @ [al] \<and> ng_RuleID al = cr_ID rule
      \<and> length (ng_Timeline al) = length chain \<and> 1 \<le> ng_RiskScore al \<and> ng_RiskScore al \<le> 10)"
  using chain_risk_ge [of 0 chain 0] by (cases chain) (simp_all add: triggerAlert_def Let_def)

lemma triggerAlert_cap [simp]: "ng_chan_cap (triggerAlert fmt_time now rule chain e) = ng_chan_cap e"
  by (simp add: triggerAlert_def Let_def split: list.split)

lemma triggerAlert_ok [invs]:
  assumes e: "ng_ok e" and rule: "rule \<in> set (ng_rules e)" and a: "a < length (ng_heap e)"
    and found: "checkSequence (ng_heap e) a (cr_Sequence rule) [] (cr_TimeWindow rule) = Some chain"
  shows "ng_ok (triggerAlert fmt_time now rule chain e)"
proof (cases "ng_chan (triggerAlert fmt_time now rule chain e) = ng_chan e")
  case True
  with e show ?thesis by (simp add: ng_ok_def)
next
  case False
  then obtain al where al: "ng_chan (triggerAlert fmt_time now rule chain e) = ng_chan e @ [al]"
    "length (ng_chan e) < ng_chan_cap e" "chain \<noteq> []" "ng_RuleID al = cr_ID rule"
    "length (ng_Timeline al) = length chain" "1 \<le> ng_RiskScore al" "ng_RiskScore al \<le> 10"
    using triggerAlert_chan [of fmt_time now rule chain e] by blast
  have c: "chain_of (ng_heap e) (cr_TimeWindow rule) a (cr_Sequence rule) chain"
    using check_spec(1) [of "ng_heap e" a "cr_Sequence rule" "[]" "cr_TimeWindow rule"] found by auto
  have types: "map (\<lambda>b. nn_Type (ng_heap e ! b)) chain = cr_Sequence rule"
    using c by (simp add: chain_of_def)
  then have len: "length chain = length (cr_Sequence rule)" by (metis length_map)
  have "length (cr_Sequence rule) = 1 \<or> set (cr_Sequence rule) \<subseteq> {''PROCESS''}"
  proof (cases "tl chain")
    case Nil
    with al(3) len show ?thesis by (cases chain) auto
  next
    case (Cons m p)
    with al(3) obtain n where p: "chain = n # m # p" by (cases chain) auto
    with c have "n = a" "linked (ng_heap e) (cr_TimeWindow rule) (n # m # p)" by (auto simp: chain_of_def)
    with linked_processes [of "ng_heap e" "cr_TimeWindow rule" n m p] e a
    have "set (map (\<lambda>b. nn_Type (ng_heap e ! b)) chain) \<subseteq> {''PROCESS''}"
      unfolding p by (simp add: ng_ok_def)
    then show ?thesis unfolding types ..
  qed
  with al len rule have "alert_ok (ng_rules e) al" unfolding alert_ok_def by auto
  with e al show ?thesis by (auto simp: ng_ok_def)
qed

lemma eval_rules_frame [simp]:
  "ng_heap (eval_rules fmt_time now a rs e) = ng_heap e" "ng_rules (eval_rules fmt_time now a rs e) = ng_rules e"
  by (induction rs arbitrary: e) (simp_all split: option.split)

lemma eval_rules_ok [invs]:
  "ng_ok e \<Longrightarrow> set rs \<subseteq> set (ng_rules e) \<Longrightarrow> a < length (ng_heap e) \<Longrightarrow> ng_ok (eval_rules fmt_time now a rs e)"
proof (induction rs arbitrary: e)
  case (Cons r rs)
  then show ?case
    by (cases "checkSequence (ng_heap e) a (cr_Sequence r) [] (cr_TimeWindow r)") (simp_all add: triggerAlert_ok)
qed simp

lemma store_node_ok [invs]:
  assumes "ng_ok e"
  shows "ng_ok (store_node now ev i e)"
proof -
  let ?h = "ng_heap e @ [new_node ev]"
  define pruned where "pruned =
    map_prune (\<lambda>a. ng_window e < time_Sub now (nn_Timestamp (ng_heap e ! a))) (ng_shards e ! i)"
  let ?m = "pruned(node_key ev \<mapsto> length (ng_heap e))"
  have step: "store_node now ev i e = e\<lparr>ng_heap := ?h, ng_shards := (ng_shards e)[i := ?m]\<rparr>"
    by (simp add: store_node_def Let_def pruned_def)
  have "shard_ok ?h m" if m: "m \<in> set ((ng_shards e)[i := ?m])" for m
  proof (cases "i < length (ng_shards e)")
    case True
    then have "shard_ok (ng_heap e) (ng_shards e ! i)" using assms by (simp add: ng_ok_def)
    then have "shard_ok (ng_heap e) pruned" by (auto simp: shard_ok_def pruned_def)
    then have "shard_ok ?h pruned" by (rule shard_snoc)
    then have "shard_ok ?h ?m" by (auto simp: shard_ok_def new_node_def)
    moreover have "m = ?m \<or> m \<in> set (ng_shards e)" using m set_update_subset_insert by fastforce
    ultimately show ?thesis using assms shard_snoc by (auto simp: ng_ok_def)
  next
    case False
    with m have "m \<in> set (ng_shards e)" by (simp add: list_update_beyond)
    with assms show ?thesis by (simp add: ng_ok_def shard_snoc)
  qed
  with assms graph_snoc show ?thesis unfolding step by (auto simp: ng_ok_def)
qed

lemma link_parent_ok [invs]:
  assumes e: "ng_ok e" and node: "node < length (ng_heap e)" "nn_Type (ng_heap e ! node) = ''PROCESS''"
    and j: "j < length (ng_shards e)"
  shows "ng_ok (link_parent ev node j e)"
proof (cases "(ng_shards e ! j) (process_key (te_ParentID ev))")
  case None
  with e show ?thesis by (simp add: link_parent_def)
next
  case (Some p)
  have g: "graph_ok (ng_heap e)" and "shard_ok (ng_heap e) (ng_shards e ! j)"
    using e j by (simp_all add: ng_ok_def)
  with Some have p: "p < length (ng_heap e)" "nn_Type (ng_heap e ! p) = ''PROCESS''"
    using found_parent_type by blast+
  let ?h = "add_edge p \<lparr>ed_Type = ''SPAWNED'', ed_Target = node, ed_Timestamp = te_Timestamp ev\<rparr> (ng_heap e)"
  have h: "graph_ok ?h" using p node by (intro graph_add_edge [OF g]) simp_all
  have "graph_ok (add_edge node \<lparr>ed_Type = ''PARENT_OF'', ed_Target = p, ed_Timestamp = te_Timestamp ev\<rparr> ?h)"
    using p node by (intro graph_add_edge [OF h]) simp_all
  with e Some show ?thesis by (simp add: link_parent_def ng_ok_def shard_add_edge)
qed

lemma getShard_bound: "getShard k e = Some i \<Longrightarrow> length (ng_shards e) < 2 ^ 32 \<Longrightarrow> i < length (ng_shards e)"
  using word_mod_less_divisor [of "word_of_nat (length (ng_shards e)) :: int32" "fnv32a k"]
  by (cases "ng_shards e = []")
    (auto simp: getShard_def Let_def word_less_nat_alt unat_of_nat word_gt_0 split: if_splits)

lemma link_parent_frame [simp]:
  "length (ng_heap (link_parent ev node j e)) = length (ng_heap e)" "ng_rules (link_parent ev node j e) = ng_rules e"
  by (simp_all add: link_parent_def split: option.split)

lemma store_node_frame [simp]:
  "length (ng_heap (store_node now ev i e)) = Suc (length (ng_heap e))"
  "ng_heap (store_node now ev i e) ! length (ng_heap e) = new_node ev"
  "length (ng_shards (store_node now ev i e)) = length (ng_shards e)"
  by (simp_all add: store_node_def Let_def)

lemma ng_Ingest_ok [invs]:
  assumes "ng_ok e" "length (ng_shards e) < 2 ^ 32" "ng_Ingest fmt_time now ev e = Some e'"
  shows "ng_ok e'"
proof -
  obtain i where i: "getShard (node_key ev) e = Some i" using assms(3) by (auto simp: ng_Ingest_def Let_def split: option.splits)
  let ?e1 = "store_node now ev i e"
  have e1: "ng_ok ?e1" using assms(1) by (rule store_node_ok)
  show ?thesis
  proof (cases "te_Type ev = ''process'' \<and> 0 < sint (te_ParentID ev)")
    case True
    then obtain j where j: "getShard (process_key (te_ParentID ev)) ?e1 = Some j"
      and e': "e' = evaluateRules fmt_time now (length (ng_heap e)) (link_parent ev (length (ng_heap e)) j ?e1)"
      using assms(3) i by (auto simp: ng_Ingest_def Let_def split: option.splits)
    have "j < length (ng_shards ?e1)" using getShard_bound [OF j] assms(2) by simp
    then have "ng_ok (link_parent ev (length (ng_heap e)) j ?e1)"
      using e1 True by (intro link_parent_ok) (simp_all add: new_node_def ToUpper_process)
    then show ?thesis unfolding e' evaluateRules_def by (intro eval_rules_ok) simp_all
  next
    case False
    then have "e' = evaluateRules fmt_time now (length (ng_heap e)) ?e1"
      using assms(3) i by (auto simp: ng_Ingest_def Let_def)
    with e1 show ?thesis unfolding evaluateRules_def by (auto intro!: eval_rules_ok)
  qed
qed

section \<open>No panic, and every alert is justified\<close>

lemma getShard_total:
  assumes "length (ng_shards e) = n" "0 < n" "n < 2 ^ 32"
  obtains i where "getShard k e = Some i" "i < n"
proof -
  have "(word_of_nat n :: int32) \<noteq> 0" using assms(2,3) by (simp add: word_of_nat_eq_0_iff nat_dvd_not_less)
  then obtain i where "getShard k e = Some i" using assms(1) by (simp add: getShard_def Let_def)
  with getShard_bound assms that show thesis by metis
qed

lemma eval_rules_frame2 [simp]:
  "ng_shards (eval_rules fmt_time now a rs e) = ng_shards e" "ng_chan_cap (eval_rules fmt_time now a rs e) = ng_chan_cap e"
  by (induction rs arbitrary: e) (simp_all split: option.split)

lemma ng_step_total:
  assumes "ng_ok e" "length (ng_shards e) = n" "0 < n" "n < 2 ^ 32"
  obtains e' where "ng_step fmt_time op e = Some e'" "ng_ok e'" "length (ng_shards e') = n"
    "length (ng_heap e') \<le> Suc (length (ng_heap e))" "ng_chan_cap e' = ng_chan_cap e"
proof (cases op)
  case (NgIngest now ev)
  obtain i where i: "getShard (node_key ev) e = Some i" using getShard_total [OF assms(2-4)] .
  let ?e1 = "store_node now ev i e"
  have len: "length (ng_shards ?e1) = n" using assms(2) by simp
  obtain j where j: "getShard (process_key (te_ParentID ev)) ?e1 = Some j" using getShard_total [OF len assms(3,4)] .
  have "\<exists>e'. ng_Ingest fmt_time now ev e = Some e' \<and> length (ng_shards e') = n
      \<and> length (ng_heap e') \<le> Suc (length (ng_heap e)) \<and> ng_chan_cap e' = ng_chan_cap e"
    using i j len by (auto simp: ng_Ingest_def Let_def evaluateRules_def link_parent_def store_node_def split: option.split)
  then show ?thesis using that ng_Ingest_ok [OF assms(1)] assms(2,4) NgIngest by (metis ng_step.simps(1))
next
  case (NgRule r)
  have "ng_ok (AddRule r e)" using assms(1) alert_ok_add_rule by (auto simp: ng_ok_def AddRule_def)
  with NgRule assms that show ?thesis by (simp add: AddRule_def)
next
  case (NgSuppress a b)
  have "ng_ok (SuppressAlert a b e)" using assms(1) by (simp add: ng_ok_def SuppressAlert_def)
  with NgSuppress assms that show ?thesis by (simp add: SuppressAlert_def)
qed

lemma ng_run_total:
  assumes "0 < n" "n < 2 ^ 32"
  shows "ng_ok e \<Longrightarrow> length (ng_shards e) = n \<Longrightarrow>
    \<exists>e'. ng_run fmt_time ops e = Some e' \<and> ng_ok e' \<and> length (ng_shards e') = n
      \<and> length (ng_heap e') \<le> length (ng_heap e) + length ops \<and> ng_chan_cap e' = ng_chan_cap e"
proof (induction ops arbitrary: e)
  case (Cons op ops)
  obtain e1 where e1: "ng_step fmt_time op e = Some e1" "ng_ok e1" "length (ng_shards e1) = n"
    "length (ng_heap e1) \<le> Suc (length (ng_heap e))" "ng_chan_cap e1 = ng_chan_cap e"
    using ng_step_total [OF Cons.prems assms, of fmt_time op] .
  from Cons.IH [OF e1(2,3)] e1 show ?case by auto
qed simp

lemma ng_NewEngine_ok [invs]: "ng_ok (ng_NewEngine n w cap)"
  by (auto simp: ng_ok_def graph_ok_def shard_ok_def ng_NewEngine_def)

text \<open>C17 (safety). With a shard count between 1 and 2^32 - 1 no sequence of operations panics. Every alert
  on the channel, of at most its capacity, comes from a registered rule, has one line per
  element of the rule's sequence and a risk score between 1 and 10; and the rule has a
  sequence of one element or names nothing but processes, because edges are only ever drawn
  between processes: a rule that chains a process to a file, a socket or anything else never fires.\<close>

theorem alerts_justified:
  assumes "0 < n" "n < 2 ^ 32"
  shows "\<exists>e. ng_run fmt_time ops (ng_NewEngine n w cap) = Some e
    \<and> set (ng_chan e) \<subseteq> {al. alert_ok (ng_rules e) al} \<and> length (ng_chan e) \<le> cap"
  using ng_run_total [OF assms, of "ng_NewEngine n w cap" fmt_time ops] ng_NewEngine_ok [of n w cap]
  by (auto simp: ng_ok_def ng_NewEngine_def)

section \<open>The walk of a timeline ends\<close>

definition node_ids :: "ng_node list \<Rightarrow> string set" where
  "node_ids h = nn_ID ` set h"

text \<open>What a walk adds: lines of nodes with distinct IDs not visited before.\<close>

definition visits :: "(go_time \<Rightarrow> string) \<Rightarrow> ng_node list \<Rightarrow> ng_node list \<Rightarrow> dfs_state \<Rightarrow> dfs_state \<Rightarrow> bool" where
  "visits fmt_time h p st st' \<longleftrightarrow> set p \<subseteq> set h \<and> distinct (map nn_ID p) \<and> fst st \<inter> nn_ID ` set p = {}
     \<and> fst st' = fst st \<union> nn_ID ` set p \<and> snd st' = snd st @ map (dfs_line fmt_time) p"

lemma visits_Nil: "visits fmt_time h [] st st"
  by (simp add: visits_def)

lemma visits_append:
  "visits fmt_time h p st st1 \<Longrightarrow> visits fmt_time h q st1 st2 \<Longrightarrow> visits fmt_time h (p @ q) st st2"
  by (auto simp: visits_def)

lemma visits_Cons:
  "n \<in> set h \<Longrightarrow> nn_ID n \<notin> fst st \<Longrightarrow> visits fmt_time h p (insert (nn_ID n) (fst st), snd st @ [dfs_line fmt_time n]) st' \<Longrightarrow>
   visits fmt_time h (n # p) st st'"
  by (auto simp: visits_def)

lemma visits_card:
  "visits fmt_time h p st st' \<Longrightarrow> card (node_ids h - fst st') \<le> card (node_ids h - fst st)"
  by (rule card_mono) (auto simp: visits_def node_ids_def)

lemma dfs_returns:
  "a < length h \<Longrightarrow> graph_ok h \<Longrightarrow> card (node_ids h - fst st) < n \<Longrightarrow>
     \<exists>p st'. dfsTimeline fmt_time n h a st = Some st' \<and> visits fmt_time h p st st' \<and> nn_ID (h ! a) \<in> fst st'"
  "(\<And>ed. ed \<in> set eds \<Longrightarrow> ed_Target ed < length h) \<Longrightarrow> graph_ok h \<Longrightarrow> card (node_ids h - fst st) < n \<Longrightarrow>
     \<exists>p st'. dfsEdges fmt_time n h eds st = Some st' \<and> visits fmt_time h p st st'"
proof (induction fmt_time n h a st and fmt_time n h eds st rule: dfsTimeline_dfsEdges.induct)
  case (2 fmt_time fuel h n visited timeline)
  show ?case
  proof (cases "nn_ID (h ! n) \<in> visited")
    case True
    then show ?thesis using visits_Nil [of fmt_time h "(visited, timeline)"] by auto
  next
    case False
    let ?st = "(insert (nn_ID (h ! n)) visited, timeline @ [dfs_line fmt_time (h ! n)])"
    have n: "h ! n \<in> set h" using 2(2) by simp
    then have "nn_ID (h ! n) \<in> node_ids h - visited" using False by (simp add: node_ids_def)
    then have "card (node_ids h - fst ?st) < card (node_ids h - visited)"
      by (intro psubset_card_mono) (auto simp: node_ids_def)
    then have "card (node_ids h - fst ?st) < fuel" using 2(4) by simp
    with 2(1) [OF False _ 2(3)] edge_types [OF 2(3,2)]
    obtain p st' where p: "dfsEdges fmt_time fuel h (nn_Edges (h ! n)) ?st = Some st'" "visits fmt_time h p ?st st'"
      by blast
    then have v: "visits fmt_time h (h ! n # p) (visited, timeline) st'" using n False by (auto intro: visits_Cons)
    then have "nn_ID (h ! n) \<in> fst st'" by (simp add: visits_def)
    with v show ?thesis using p(1) False by auto
  qed
next
  case (3 fmt_time fuel h st)
  then show ?case using visits_Nil [of fmt_time h st] by auto
next
  case (4 fmt_time fuel h ed eds st)
  obtain p st1 where p: "dfsTimeline fmt_time fuel h (ed_Target ed) st = Some st1" "visits fmt_time h p st st1"
    using 4(1,3-5) by fastforce
  have "card (node_ids h - fst st1) < fuel" using visits_card [OF p(2)] 4(5) by linarith
  then obtain q st2 where q: "dfsEdges fmt_time fuel h eds st1 = Some st2" "visits fmt_time h q st1 st2"
    using 4(2) [OF p(1) _ 4(4)] 4(3) by fastforce
  then show ?case using p visits_append [OF p(2) q(2)] by auto
qed simp

text \<open>C34 (termination). The timeline of a process is always returned: whatever cycles the SPAWNED and
  PARENT_OF edges form, one more level of recursion than there were operations is enough. The
  lines are sorted, belong to nodes with distinct IDs and include the process itself; an
  unknown PID is an error.\<close>

theorem ng_timeline_returns:
  assumes "0 < n" "n < 2 ^ 32" "length ops < fuel" "slice_sort (\<lambda>x y. x < y) srt"
  shows "\<exists>e r. ng_run fmt_time ops (ng_NewEngine n w cap) = Some e
    \<and> ng_ReconstructTimeline fmt_time srt fuel pid e = Some (Some r)
    \<and> (case r of Inl msg \<Rightarrow> msg = ''process pid '' @ show_int (sint pid) @ '' not found''
       | Inr ls \<Rightarrow> sorted ls \<and> (\<exists>p. mset ls = mset (map (dfs_line fmt_time) p) \<and> distinct (map nn_ID p)
            \<and> set p \<subseteq> set (ng_heap e) \<and> process_key pid \<in> nn_ID ` set p))"
proof -
  obtain e where e: "ng_run fmt_time ops (ng_NewEngine n w cap) = Some e" "ng_ok e" "length (ng_shards e) = n"
    "length (ng_heap e) \<le> length ops"
    using ng_run_total [OF assms(1,2), of "ng_NewEngine n w cap" fmt_time ops] ng_NewEngine_ok [of n w cap]
    by (auto simp: ng_NewEngine_def)
  obtain i where i: "getShard (process_key pid) e = Some i" "i < n" using getShard_total [OF e(3) assms(1,2)] .
  show ?thesis
  proof (cases "(ng_shards e ! i) (process_key pid)")
    case None
    with e i show ?thesis by (simp add: ng_ReconstructTimeline_def)
  next
    case (Some a)
    have "shard_ok (ng_heap e) (ng_shards e ! i)" and g: "graph_ok (ng_heap e)" using e(2,3) i(2) by (auto simp: ng_ok_def)
    with Some have a: "a < length (ng_heap e)" "nn_ID (ng_heap e ! a) = process_key pid" by (auto simp: shard_ok_def)
    have "card (node_ids (ng_heap e) - {}) \<le> length (ng_heap e)"
      unfolding node_ids_def by (metis Diff_empty card_image_le card_length finite_set order_trans)
    then have "card (node_ids (ng_heap e) - fst ({}, [] :: string list)) < fuel" using e(4) assms(3) by simp
    from dfs_returns(1) [OF a(1) g this]
    obtain p st where p: "dfsTimeline fmt_time fuel (ng_heap e) a ({}, []) = Some st"
      "visits fmt_time (ng_heap e) p ({}, []) st" "process_key pid \<in> fst st" using a(2) by metis
    have srt: "mset (srt (snd st)) = mset (snd st)" using assms(4) by (rule slice_sort.permuted)
    have "sorted_wrt (\<lambda>x y. \<not> y < x) (srt (snd st))" using assms(4) by (rule slice_sort.ordered)
    then have "sorted (srt (snd st))" by (simp add: not_less)
    then show ?thesis
      using e(1) i(1) Some p srt by (auto simp: ng_ReconstructTimeline_def visits_def intro!: exI [of _ p])
  qed
qed

section \<open>A run\<close>

interpretation line_sort: slice_sort "\<lambda>x y :: string. x < y" "sort_key id"
  using by_key.slice_sort_axioms [where key = "id :: string \<Rightarrow> string"] by simp

definition ng_sample_ops :: "ng_op list" where
  "ng_sample_ops = [NgRule \<lparr>cr_ID = ''R001'', cr_Name = ''spawn'', cr_Sequence = [''PROCESS'', ''PROCESS''],
       cr_TimeWindow = second, cr_MITREIDs = [''T1059''], cr_Description = []\<rparr>,
     NgIngest 1000 (sample_event\<lparr>te_Type := ''process'', te_ProcessID := 200, te_ParentID := 1\<rparr>),
     NgIngest 1100 (sample_event\<lparr>te_Type := ''process'', te_ProcessID := 201, te_ParentID := 200\<rparr>)]"

text \<open>The test of the repository: the child fires the rule; its chain runs from the child to the
  parent, with risk 4.5.\<close>

lemma ng_sample_fires:
  "map_option (\<lambda>e. map (\<lambda>al. (ng_RuleID al, ng_RootPID al, ng_RiskScore al)) (ng_chan e))
     (ng_run (\<lambda>t. ''T'') ng_sample_ops (ng_NewEngine 8 300000000000 100)) = Some [(''R001'', 201, 9 / 2)]"
  by code_simp

theorem alerts_justified_witness:
  "\<exists>e. ng_run (\<lambda>t. ''T'') ng_sample_ops (ng_NewEngine 8 300000000000 100) = Some e \<and> length (ng_chan e) \<le> 100"
  using alerts_justified [of 8 "\<lambda>t. ''T''" ng_sample_ops 300000000000 100] by auto

theorem ng_timeline_returns_witness:
  "\<exists>e r. ng_run (\<lambda>t. ''T'') ng_sample_ops (ng_NewEngine 8 300000000000 100) = Some e
     \<and> ng_ReconstructTimeline (\<lambda>t. ''T'') (sort_key id) 4 201 e = Some (Some r)"
  using ng_timeline_returns [of 8 ng_sample_ops 4 "sort_key id" "\<lambda>t. ''T''" 300000000000 100 201]
    line_sort.slice_sort_axioms by (auto simp: ng_sample_ops_def)

end
