(* ===== verification/Response.thy ===== *)
theory Response
  imports Go_Prelude
begin

text \<open>
  Responses (\<open>internal/response\<close>): killing a process tree, isolating the host, quarantining
  a file. Everything they do goes to the operating system, which is a parameter: \<open>'s\<close> is
  its state, and a record of functions says what \<open>pgrep\<close>, the kill signal and a command do to it.
  What the code relies on is stated by the predicates \<open>unix_os\<close> and \<open>opens_sealed\<close>, which
  theorems take as hypotheses.
\<close>

section \<open>Killing a process tree\<close>

record 's os =
  os_pgrep :: "int \<Rightarrow> 's \<Rightarrow> string result"
  os_kill :: "int \<Rightarrow> 's \<Rightarrow> unit result \<times> 's"
  os_run :: "string list \<Rightarrow> 's \<Rightarrow> unit result \<times> 's"

text \<open>One PID per line; blank lines and lines that are no number are skipped.\<close>

definition parse_pids :: "string \<Rightarrow> int list" where
  "parse_pids out = List.map_filter (\<lambda>line. if TrimSpace line = [] then None else Atoi (TrimSpace line))
     (Split newline out)"

definition findChildPIDs :: "'s os \<Rightarrow> int \<Rightarrow> 's \<Rightarrow> int list result" where
  "findChildPIDs os ppid s = map_sum id parse_pids (os_pgrep os ppid s)"

text \<open>The fuel bounds the depth of the recursion. On Unix \<open>os.FindProcess\<close> always succeeds.\<close>

fun unix_KillTree :: "'s os \<Rightarrow> nat \<Rightarrow> int \<Rightarrow> 's \<Rightarrow> (unit result \<times> 's) option"
  and kill_children :: "'s os \<Rightarrow> nat \<Rightarrow> int list \<Rightarrow> 's \<Rightarrow> 's option" where
  "unix_KillTree os 0 pid s = None"
| "unix_KillTree os (Suc n) pid s =
     (case (case findChildPIDs os pid s of
              Inr pids \<Rightarrow> kill_children os n pids s
            | Inl _ \<Rightarrow> Some s) of
        None \<Rightarrow> None
      | Some s' \<Rightarrow> Some (os_kill os pid s'))"
| "kill_children os n [] s = Some s"
| "kill_children os n (child # pids) s =
     (case unix_KillTree os n child s of
        None \<Rightarrow> None
      | Some (_, s') \<Rightarrow> kill_children os n pids s')"

definition windows_KillTree :: "(int \<Rightarrow> 's \<Rightarrow> go_error option) \<Rightarrow> 's os \<Rightarrow> int \<Rightarrow> 's \<Rightarrow> unit result \<times> 's" where
  "windows_KillTree FindProcess os pid s =
     (case FindProcess pid s of Some err \<Rightarrow> (Err err, s) | None \<Rightarrow> os_kill os pid s)"

section \<open>Isolating the host\<close>

definition linux_IsolateHost :: "'s os \<Rightarrow> 's \<Rightarrow> unit result \<times> 's" where
  "linux_IsolateHost os s =
     (let s1 = snd (os_run os [''iptables'', ''-A'', ''OUTPUT'', ''-p'', ''tcp'', ''--dport'', ''8443'', ''-j'', ''ACCEPT''] s);
          s2 = snd (os_run os [''iptables'', ''-A'', ''OUTPUT'', ''-o'', ''lo'', ''-j'', ''ACCEPT''] s1)
      in os_run os [''iptables'', ''-P'', ''OUTPUT'', ''DROP''] s2)"

definition linux_RestoreHost :: "'s os \<Rightarrow> 's \<Rightarrow> unit result \<times> 's" where
  "linux_RestoreHost os s =
     (let s1 = snd (os_run os [''iptables'', ''-P'', ''OUTPUT'', ''ACCEPT''] s)
      in os_run os [''iptables'', ''-F'', ''OUTPUT''] s1)"

definition darwin_IsolateHost :: "'s os \<Rightarrow> 's \<Rightarrow> unit result \<times> 's" where
  "darwin_IsolateHost os s = os_run os [''pfctl'', ''-e''] s"

definition darwin_RestoreHost :: "'s os \<Rightarrow> 's \<Rightarrow> unit result \<times> 's" where
  "darwin_RestoreHost os s = os_run os [''pfctl'', ''-d''] s"

definition windows_IsolateHost :: "'s os \<Rightarrow> 's \<Rightarrow> unit result \<times> 's" where
  "windows_IsolateHost os s = os_run os [''netsh'', ''advfirewall'', ''set'', ''allprofiles'',
     ''firewallpolicy'', ''blockinbound,blockoutbound''] s"

definition windows_RestoreHost :: "'s os \<Rightarrow> 's \<Rightarrow> unit result \<times> 's" where
  "windows_RestoreHost os s = os_run os [''netsh'', ''advfirewall'', ''set'', ''allprofiles'',
     ''firewallpolicy'', ''blockinbound,allowoutbound''] s"

section \<open>Quarantining a file\<close>

type_synonym files = "string \<rightharpoonup> string"

text \<open>\<open>filepath.Base\<close>, \<open>filepath.Clean\<close> and \<open>filepath.Join\<close> on Unix.\<close>

definition slash :: char where "slash = CHR ''/''"

definition path_Base :: "string \<Rightarrow> string" where
  "path_Base p =
     (if p = [] then ''.''
      else let q = rev (dropWhile (\<lambda>c. c = slash) (rev p))
           in if q = [] then ''/'' else rev (takeWhile (\<lambda>c. c \<noteq> slash) (rev q)))"

fun clean_elems :: "bool \<Rightarrow> string list \<Rightarrow> string list \<Rightarrow> string list" where
  "clean_elems rooted acc [] = rev acc"
| "clean_elems rooted acc (c # cs) =
     (if c = [] \<or> c = ''.'' then clean_elems rooted acc cs
      else if c = ''..'' then
        (case acc of
           a # rest \<Rightarrow> if a = ''..'' then clean_elems rooted (c # acc) cs else clean_elems rooted rest cs
         | [] \<Rightarrow> clean_elems rooted (if rooted then [] else [c]) cs)
      else clean_elems rooted (c # acc) cs)"

definition path_Clean :: "string \<Rightarrow> string" where
  "path_Clean p =
     (let rooted = HasPrefix p ''/''; q = join_with ''/'' (clean_elems rooted [] (Split slash p))
      in if rooted then slash # q else if q = [] then ''.'' else q)"

definition path_Join :: "string list \<Rightarrow> string" where
  "path_Join elems =
     (let es = filter (\<lambda>e. e \<noteq> []) elems in if es = [] then [] else path_Clean (join_with ''/'' es))"

text \<open>
  The environment of one call: the errors the system reports, the random nonce, and \<open>GCM.Seal\<close>
  for a key and a nonce. A write that fails may leave a prefix in the file (\<open>None\<close>: the file was
  not opened). \<open>aes.NewCipher\<close> accepts keys of 16, 24 and 32 bytes.
\<close>

record quarantine_env =
  qe_seal :: "string \<Rightarrow> string \<Rightarrow> string \<Rightarrow> string"
  qe_nonce :: "string result"
  qe_read_err :: "go_error option"
  qe_mkdir_err :: "go_error option"
  qe_write_err :: "(go_error \<times> nat option) option"
  qe_remove_err :: "go_error option"

definition quarantine_path :: "string \<Rightarrow> string \<Rightarrow> string" where
  "quarantine_path srcPath destDir = path_Join [destDir, path_Base srcPath @ ''.quarantine'']"

definition no_such_file :: "string \<Rightarrow> go_error" where
  "no_such_file p = ''open '' @ p @ '': no such file or directory''"

definition read_file :: "quarantine_env \<Rightarrow> string \<Rightarrow> files \<Rightarrow> string result" where
  "read_file env p fs = (case qe_read_err env of
     Some err \<Rightarrow> Err err
   | None \<Rightarrow> (case fs p of None \<Rightarrow> Err (no_such_file p) | Some data \<Rightarrow> Ok data))"

definition QuarantineFile ::
  "quarantine_env \<Rightarrow> string \<Rightarrow> string \<Rightarrow> string \<Rightarrow> files \<Rightarrow> unit result \<times> files" where
  "QuarantineFile env key srcPath destDir fs =
     (case read_file env srcPath fs of
        Inl err \<Rightarrow> (Err err, fs)
      | Inr data \<Rightarrow>
        if length key \<notin> {16, 24, 32} then (Err (''crypto/aes: invalid key size '' @ show_nat (length key)), fs)
        else case qe_nonce env of
          Inl err \<Rightarrow> (Err err, fs)
        | Inr nonce \<Rightarrow>
          let encrypted = nonce @ qe_seal env key nonce data in
          case qe_mkdir_err env of
            Some err \<Rightarrow> (Err err, fs)
          | None \<Rightarrow>
            let destPath = quarantine_path srcPath destDir in
            case qe_write_err env of
              Some (err, None) \<Rightarrow> (Err err, fs)
            | Some (err, Some n) \<Rightarrow> (Err err, fs(destPath \<mapsto> take n encrypted))
            | None \<Rightarrow>
              let fs1 = fs(destPath \<mapsto> encrypted) in
              case qe_remove_err env of
                Some err \<Rightarrow> (Err err, fs1)
              | None \<Rightarrow> (Ok (), fs1(srcPath := None)))"

section \<open>What the code relies on\<close>

text \<open>The process table as pairs of a PID and its parent's PID.\<close>

type_synonym ptable = "(int \<times> int) list"

definition children_of :: "ptable \<Rightarrow> int \<Rightarrow> int list" where
  "children_of t p = map fst (filter (\<lambda>e. snd e = p) t)"

text \<open>A killed process disappears and its children become children of PID 1.\<close>

definition reap :: "int \<Rightarrow> ptable \<Rightarrow> ptable" where
  "reap p t = map (\<lambda>e. if snd e = p then (fst e, 1) else e) (filter (\<lambda>e. fst e \<noteq> p) t)"

definition pgrep_output :: "int list \<Rightarrow> string result" where
  "pgrep_output cs = (if cs = [] then Err ''exit status 1'' else Ok (concat (map (\<lambda>c. show_int c @ [newline]) cs)))"

text \<open>A Unix system on which the agent may kill every process: \<open>pgrep -P\<close> prints the children,
  one PID per line, and fails when there are none; the kill signal removes a living process
  and fails without effect for a PID that is not there.\<close>

definition unix_os :: "'s os \<Rightarrow> ('s \<Rightarrow> ptable) \<Rightarrow> bool" where
  "unix_os os view \<longleftrightarrow> (\<forall>p s. os_pgrep os p s = pgrep_output (children_of (view s) p)
     \<and> is_ok (fst (os_kill os p s)) = (p \<in> fst ` set (view s))
     \<and> view (snd (os_kill os p s)) = (if p \<in> fst ` set (view s) then reap p (view s) else view s))"

definition descendants :: "ptable \<Rightarrow> int \<Rightarrow> int set" where
  "descendants t p = {d. (p, d) \<in> {(q, c). (c, q) \<in> set t}\<^sup>*}"

text \<open>Processes are younger than their parents: \<open>rank\<close> is the order of their start, of which there
  are at most \<open>N\<close>. PIDs are positive and fit an \<open>int\<close>.\<close>

definition ranked :: "(int \<Rightarrow> nat) \<Rightarrow> nat \<Rightarrow> ptable \<Rightarrow> bool" where
  "ranked rank N t \<longleftrightarrow> list_all (\<lambda>e. rank (snd e) < rank (fst e) \<and> rank (fst e) \<le> N
     \<and> 0 < fst e \<and> fst e < 2147483648) t"

section \<open>Reading the output of pgrep\<close>

lemma newline_no_digit: "newline \<notin> set (show_int i)"
proof
  assume "newline \<in> set (show_int i)"
  then have "is_digit newline \<or> newline = CHR ''-''" by (rule show_int_chars)
  moreover have "\<not> is_digit newline" "newline \<noteq> CHR ''-''" by code_simp+
  ultimately show False by blast
qed

lemma parse_pids_lines:
  "list_all (\<lambda>c. 0 < c \<and> c < 2147483648) cs \<Longrightarrow> parse_pids (concat (map (\<lambda>c. show_int c @ [newline]) cs)) = cs"
proof (induction cs)
  case Nil
  then show ?case by (simp add: parse_pids_def List.map_filter_def TrimSpace_def)
next
  case (Cons c cs)
  then show ?case
    using Atoi_show_int [of c] by (simp add: parse_pids_def List.map_filter_simps newline_no_digit)
qed

lemma ranked_children: "ranked rank N t \<Longrightarrow> list_all (\<lambda>c. 0 < c \<and> c < 2147483648 \<and> rank p < rank c \<and> rank c \<le> N) (children_of t p)"
  by (auto simp: ranked_def children_of_def list_all_iff)

lemma findChildPIDs_unix:
  assumes "unix_os os view" "ranked rank N (view s)"
  shows "(case findChildPIDs os p s of Inr pids \<Rightarrow> pids | Inl _ \<Rightarrow> []) = children_of (view s) p"
proof -
  have "parse_pids (concat (map (\<lambda>c. show_int c @ [newline]) (children_of (view s) p))) = children_of (view s) p"
    using ranked_children [OF assms(2), of p] by (intro parse_pids_lines) (auto simp: list_all_iff)
  then show ?thesis
    using assms(1) by (auto simp: findChildPIDs_def unix_os_def pgrep_output_def)
qed

lemma KillTree_children:
  "unix_KillTree os (Suc n) p s =
     (case kill_children os n (case findChildPIDs os p s of Inr pids \<Rightarrow> pids | Inl _ \<Rightarrow> []) s of
        None \<Rightarrow> None | Some s' \<Rightarrow> Some (os_kill os p s'))"
  by (simp split: sum.split)

section \<open>Descendants\<close>

lemma descendants_self [simp]: "p \<in> descendants t p"
  by (simp add: descendants_def)

lemma descendants_step: "d \<in> descendants t p \<Longrightarrow> (e, d) \<in> set t \<Longrightarrow> e \<in> descendants t p"
  by (auto simp: descendants_def intro: rtrancl_into_rtrancl)

lemma descendants_induct [consumes 1, case_names self step]:
  assumes "d \<in> descendants t p" "P p" "\<And>d e. d \<in> descendants t p \<Longrightarrow> (e, d) \<in> set t \<Longrightarrow> P d \<Longrightarrow> P e"
  shows "P d"
  using assms(1) unfolding descendants_def
proof (clarify)
  assume "(p, d) \<in> {(q, c). (c, q) \<in> set t}\<^sup>*"
  then show "P d"
    by (induction rule: rtrancl_induct) (use assms in \<open>auto simp: descendants_def\<close>)
qed

lemma descendants_children: "descendants t p = insert p (\<Union>c \<in> set (children_of t p). descendants t c)"
proof (rule set_eqI, rule iffI)
  fix d assume "d \<in> descendants t p"
  then show "d \<in> insert p (\<Union>c \<in> set (children_of t p). descendants t c)"
  proof (induction rule: descendants_induct)
    case (step d e)
    then show ?case using descendants_step [of d t _ e] by (auto simp: children_of_def image_iff)
  qed simp
next
  fix d assume "d \<in> insert p (\<Union>c \<in> set (children_of t p). descendants t c)"
  then consider "d = p" | c where "(c, p) \<in> set t" "d \<in> descendants t c" by (auto simp: children_of_def)
  then show "d \<in> descendants t p"
    by cases (auto simp: descendants_def intro: converse_rtrancl_into_rtrancl)
qed

lemma descendants_rank: "d \<in> descendants t p \<Longrightarrow> ranked rank N t \<Longrightarrow> rank p \<le> rank d"
  by (induction rule: descendants_induct) (auto simp: ranked_def list_all_iff)

definition without :: "int set \<Rightarrow> ptable \<Rightarrow> ptable" where
  "without X t = filter (\<lambda>e. fst e \<notin> X) t"

lemma without_without [simp]: "without X (without Y t) = without (Y \<union> X) t"
  by (auto simp: without_def intro: filter_cong)

lemma without_empty [simp]: "without {} t = t"
  by (simp add: without_def)

lemma ranked_without: "ranked rank N t \<Longrightarrow> ranked rank N (without X t)"
  by (auto simp: ranked_def without_def list_all_iff)

text \<open>Removing the descendants of one process does not hide those of another.\<close>

lemma descendants_without:
  "descendants t c \<union> descendants (without (descendants t c) t) d = descendants t c \<union> descendants t d"
proof -
  have "x \<in> descendants t d" if "x \<in> descendants (without (descendants t c) t) d" for x
    using that
  proof (induction rule: descendants_induct)
    case (step x y)
    then show ?case by (auto simp: without_def intro: descendants_step)
  qed simp
  moreover have "x \<in> descendants t c \<union> descendants (without (descendants t c) t) d" if "x \<in> descendants t d" for x
    using that
  proof (induction rule: descendants_induct)
    case (step x y)
    show ?case
    proof (cases "y \<in> descendants t c")
      case False
      with step have "x \<notin> descendants t c" using descendants_step by blast
      moreover have "(y, x) \<in> set (without (descendants t c) t)" using step(2) False by (simp add: without_def)
      ultimately show ?thesis using step(3) descendants_step by blast
    qed simp
  qed simp
  ultimately show ?thesis by blast
qed

lemma reap_leaf: "(\<forall>e \<in> set t. snd e \<noteq> p) \<Longrightarrow> reap p t = without {p} t"
  unfolding reap_def without_def by (subst map_idI) force+

section \<open>The whole tree is killed\<close>

lemma kill_children_view:
  assumes kill: "\<And>c s. c \<in> set cs \<Longrightarrow> ranked rank N (view s) \<Longrightarrow>
      \<exists>r s'. unix_KillTree os n c s = Some (r, s') \<and> view s' = without (descendants (view s) c) (view s)"
  shows "ranked rank N (view s) \<Longrightarrow> \<exists>s'. kill_children os n cs s = Some s'
    \<and> view s' = without (\<Union>c \<in> set cs. descendants (view s) c) (view s)"
  using kill
proof (induction cs arbitrary: s)
  case (Cons c cs)
  let ?D = "descendants (view s) c"
  obtain r s1 where s1: "unix_KillTree os n c s = Some (r, s1)" "view s1 = without ?D (view s)"
    using Cons.prems(2) [of c s] Cons.prems(1) by auto
  have "ranked rank N (view s1)" using Cons.prems(1) s1(2) ranked_without by simp
  with Cons.IH [of s1] Cons.prems(2) obtain s2 where s2: "kill_children os n cs s1 = Some s2"
    "view s2 = without (\<Union>d \<in> set cs. descendants (view s1) d) (view s1)"
    by auto
  have "?D \<union> (\<Union>d \<in> set cs. descendants (without ?D (view s)) d) = ?D \<union> (\<Union>d \<in> set cs. descendants (view s) d)"
    using descendants_without [of "view s" c] by blast
  then have "view s2 = without (?D \<union> (\<Union>d \<in> set cs. descendants (view s) d)) (view s)"
    unfolding s2(2) s1(2) without_without by simp
  with s1(1) s2(1) show ?case by simp
qed simp

lemma KillTree_view:
  assumes os: "unix_os os view"
  shows "ranked rank N (view s) \<Longrightarrow> rank p \<le> N \<Longrightarrow> N < n + rank p \<Longrightarrow>
    \<exists>r s'. unix_KillTree os n p s = Some (r, s') \<and> view s' = without (descendants (view s) p) (view s)
      \<and> is_ok r = (p \<in> fst ` set (view s))"
proof (induction n arbitrary: p s)
  case (Suc n)
  let ?cs = "children_of (view s) p"
  have sub: "\<exists>r s'. unix_KillTree os n c s1 = Some (r, s') \<and> view s' = without (descendants (view s1) c) (view s1)"
    if "c \<in> set ?cs" "ranked rank N (view s1)" for c s1
  proof -
    have "rank p < rank c" "rank c \<le> N" using ranked_children [OF Suc.prems(1), of p] that(1) by (auto simp: list_all_iff)
    with Suc.IH [OF that(2), of c] Suc.prems show ?thesis by auto
  qed
  define X where "X = (\<Union>c \<in> set ?cs. descendants (view s) c)"
  obtain s1 where s1: "kill_children os n ?cs s = Some s1" "view s1 = without X (view s)"
    using kill_children_view [of ?cs rank N view os n s, OF sub Suc.prems(1)] by (auto simp: X_def)
  have D: "descendants (view s) p = insert p X" unfolding X_def by (rule descendants_children)
  have "p \<notin> X"
  proof
    assume "p \<in> X"
    then obtain c where c: "c \<in> set ?cs" "p \<in> descendants (view s) c" by (auto simp: X_def)
    from descendants_rank [OF c(2) Suc.prems(1)] have "rank c \<le> rank p" .
    with ranked_children [OF Suc.prems(1), of p] c(1) show False by (auto simp: list_all_iff)
  qed
  then have alive: "p \<in> fst ` set (view s1) \<longleftrightarrow> p \<in> fst ` set (view s)"
    by (force simp: s1(2) without_def image_iff)
  have "\<forall>c \<in> set ?cs. c \<in> X" using descendants_self unfolding X_def by blast
  then have leaf: "\<forall>e \<in> set (view s1). snd e \<noteq> p"
    by (force simp: s1(2) without_def children_of_def)
  let ?k = "os_kill os p s1"
  have "view (snd ?k) = (if p \<in> fst ` set (view s1) then without {p} (view s1) else view s1)"
    using os reap_leaf [OF leaf] by (simp add: unix_os_def)
  moreover have "p \<notin> fst ` set (view s1) \<Longrightarrow> without {p} (view s1) = view s1"
    by (auto simp: without_def filter_id_conv image_iff)
  ultimately have "view (snd ?k) = without {p} (view s1)" by simp
  then have "view (snd ?k) = without (insert p X) (view s)" by (simp add: s1(2))
  moreover have "is_ok (fst ?k) = (p \<in> fst ` set (view s))" using os alive by (simp add: unix_os_def)
  moreover have "unix_KillTree os (Suc n) p s = Some ?k"
    by (simp only: KillTree_children findChildPIDs_unix [OF os Suc.prems(1)] s1(1) option.case)
  ultimately show ?case unfolding D by (cases ?k) auto
qed simp

text \<open>C22 (functional). Killing a process tree on Unix removes the process and all its descendants, at any depth,
  and leaves every other process with its parent as it was; the call returns, and it
  succeeds exactly if the root was alive. Children are killed before their parent, so that
  none is handed over to PID 1 and escapes. The recursion is no deeper than the number of
  processes.\<close>

theorem KillTree_spec:
  assumes "unix_os os view" "ranked rank N (view s)" "rank pid \<le> N" "N < fuel"
  shows "\<exists>r s'. unix_KillTree os fuel pid s = Some (r, s')
    \<and> is_ok r = (pid \<in> fst ` set (view s))
    \<and> view s' = filter (\<lambda>e. fst e \<notin> descendants (view s) pid) (view s)"
  using KillTree_view [OF assms(1-3), of fuel] assms(4) by (auto simp: without_def)

text \<open>A concrete system: the state is the process table itself.\<close>

definition table_os :: "ptable os" where
  "table_os = \<lparr>os_pgrep = \<lambda>p t. pgrep_output (children_of t p),
     os_kill = \<lambda>p t. if list_ex (\<lambda>e. fst e = p) t then (Ok (), reap p t) else (Err ''os: process already finished'', t),
     os_run = \<lambda>args t. (Ok (), t)\<rparr>"

lemma table_os_unix: "unix_os table_os id"
  by (auto simp: unix_os_def table_os_def list_ex_iff image_iff)

definition sample_table :: ptable where
  "sample_table = [(1, 0), (10, 1), (20, 10), (21, 10), (30, 20), (40, 1)]"

theorem KillTree_spec_witness:
  "\<exists>r s'. unix_KillTree table_os 41 10 sample_table = Some (r, s')
     \<and> s' = filter (\<lambda>e. fst e \<notin> descendants sample_table 10) sample_table"
proof -
  have "ranked nat 40 sample_table" by (simp add: ranked_def sample_table_def)
  then show ?thesis
    using KillTree_spec [OF table_os_unix, of nat 40 sample_table 10 41] by auto
qed

lemma sample_kill: "unix_KillTree table_os 41 10 sample_table = Some (Ok (), [(1, 0), (40, 1)])"
  by code_simp

section \<open>Quarantine never loses a file\<close>

text \<open>What the code relies on of \<open>GCM\<close>: with the key and the nonce the sealed data opens again.\<close>

definition opens_sealed :: "(string \<Rightarrow> string \<Rightarrow> string \<Rightarrow> string) \<Rightarrow> (string \<Rightarrow> string \<Rightarrow> string \<Rightarrow> string option) \<Rightarrow> bool" where
  "opens_sealed seal unseal \<longleftrightarrow> (\<forall>key nonce data. unseal key nonce (seal key nonce data) = Some data)"

definition recovers ::
  "(string \<Rightarrow> string \<Rightarrow> string \<Rightarrow> string option) \<Rightarrow> string \<Rightarrow> string option \<Rightarrow> string option" where
  "recovers unseal key f = (case f of None \<Rightarrow> None | Some c \<Rightarrow> unseal key (take 12 c) (drop 12 c))"

lemma quarantine_success:
  assumes "QuarantineFile env key p destDir fs = (Ok (), fs')"
  obtains nonce data where "qe_nonce env = Ok nonce" "fs p = Some data"
    "fs' = fs(quarantine_path p destDir \<mapsto> nonce @ qe_seal env key nonce data, p := None)"
  using assms that unfolding QuarantineFile_def read_file_def Let_def
  by (auto split: sum.splits option.splits if_splits prod.splits)

lemma quarantine_failure:
  assumes "QuarantineFile env key p destDir fs = (Err err, fs')"
  obtains "fs' = fs" | c where "fs' = fs(quarantine_path p destDir \<mapsto> c)"
  using assms that unfolding QuarantineFile_def read_file_def Let_def
  by (auto split: sum.splits option.splits if_splits prod.splits)

text \<open>C23 (safety). Whatever fails on the way - reading, the key, the nonce, creating the directory, writing
  part or all of the copy, removing the original - the content of a file is never lost: either the
  original is untouched, or the call has succeeded, the original is gone and the quarantined
  copy opens to exactly its content. No third file changes.\<close>

theorem quarantine_keeps_content:
  assumes "opens_sealed (qe_seal env) unseal" "\<And>nonce. qe_nonce env = Ok nonce \<Longrightarrow> length nonce = 12"
    and "quarantine_path srcPath destDir \<noteq> srcPath"
    and "QuarantineFile env key srcPath destDir fs = (r, fs')"
  shows "(fs' srcPath = fs srcPath \<and> \<not> is_ok r
      \<or> is_ok r \<and> fs' srcPath = None \<and> fs srcPath \<noteq> None
         \<and> recovers unseal key (fs' (quarantine_path srcPath destDir)) = fs srcPath)
    \<and> restrict_map fs' (- {srcPath, quarantine_path srcPath destDir})
      = restrict_map fs (- {srcPath, quarantine_path srcPath destDir})"
proof (cases r)
  case (Inl err)
  show ?thesis
    by (rule quarantine_failure [OF assms(4) [unfolded Inl]]) (use assms(3) Inl in \<open>simp_all add: restrict_map_def fun_eq_iff\<close>)
next
  case (Inr u)
  obtain nonce data where "qe_nonce env = Ok nonce" "fs srcPath = Some data"
    "fs' = fs(quarantine_path srcPath destDir \<mapsto> nonce @ qe_seal env key nonce data, srcPath := None)"
    using quarantine_success assms(4) Inr by (metis old.unit.exhaust)
  with assms(1-3) Inr show ?thesis
    by (simp add: opens_sealed_def recovers_def restrict_map_def fun_eq_iff)
qed

definition sample_qenv :: quarantine_env where
  "sample_qenv = \<lparr>qe_seal = \<lambda>key nonce data. rev data @ ''tag'', qe_nonce = Ok ''0123456789ab'', qe_read_err = None,
     qe_mkdir_err = None, qe_write_err = None, qe_remove_err = None\<rparr>"

definition sample_unseal :: "string \<Rightarrow> string \<Rightarrow> string \<Rightarrow> string option" where
  "sample_unseal key nonce c = Some (rev (take (length c - 3) c))"

definition sample_key :: string where
  "sample_key = ''12345678901234567890123456789012''"

lemma sample_quarantine_path: "quarantine_path ''/tmp/evil'' ''/var/q'' = ''/var/q/evil.quarantine''"
  by code_simp

theorem quarantine_keeps_content_witness:
  "recovers sample_unseal sample_key
     (snd (QuarantineFile sample_qenv sample_key ''/tmp/evil'' ''/var/q'' [''/tmp/evil'' \<mapsto> ''payload'']) ''/var/q/evil.quarantine'')
     = Some ''payload''"
proof -
  let ?q = "QuarantineFile sample_qenv sample_key ''/tmp/evil'' ''/var/q'' [''/tmp/evil'' \<mapsto> ''payload'']"
  have "opens_sealed (qe_seal sample_qenv) sample_unseal"
    by (simp add: opens_sealed_def sample_qenv_def sample_unseal_def)
  moreover have "is_ok (fst ?q)" by code_simp
  ultimately show ?thesis
    using quarantine_keeps_content [of sample_qenv sample_unseal "''/tmp/evil''" "''/var/q''" sample_key
        "[''/tmp/evil'' \<mapsto> ''payload'']" "fst ?q" "snd ?q"]
    by (auto simp: sample_quarantine_path sample_qenv_def)
qed

text \<open>The name of the quarantined copy is the base name of the file: quarantining two files of
  the same name from different directories succeeds both times, and the second copy
  replaces the first, whose content is then nowhere.\<close>

theorem quarantine_same_name_overwrites:
  assumes "path_Base p1 = path_Base p2" "p1 \<noteq> p2"
    and "quarantine_path p1 destDir \<noteq> p1" "quarantine_path p1 destDir \<noteq> p2"
    and "QuarantineFile env1 key p1 destDir fs = (Ok (), fs1)" "QuarantineFile env2 key p2 destDir fs1 = (Ok (), fs2)"
  shows "fs2 p1 = None \<and> fs2 p2 = None
    \<and> (\<exists>nonce. qe_nonce env2 = Ok nonce
        \<and> fs2 (quarantine_path p1 destDir) = Some (nonce @ qe_seal env2 key nonce (the (fs p2))))"
proof -
  have same: "quarantine_path p2 destDir = quarantine_path p1 destDir" using assms(1) by (simp add: quarantine_path_def)
  obtain nonce1 data1 where 1: "fs1 = fs(quarantine_path p1 destDir \<mapsto> nonce1 @ qe_seal env1 key nonce1 data1, p1 := None)"
    using quarantine_success [OF assms(5)] by metis
  obtain nonce2 data2 where 2: "qe_nonce env2 = Ok nonce2" "fs1 p2 = Some data2"
    "fs2 = fs1(quarantine_path p1 destDir \<mapsto> nonce2 @ qe_seal env2 key nonce2 data2, p2 := None)"
    using quarantine_success [OF assms(6)] unfolding same by metis
  have "fs p2 = Some data2" using 1 2(2) assms(2,4) by simp
  then show ?thesis using 1 2 assms(2-4) by simp
qed

theorem quarantine_same_name_overwrites_witness:
  "\<exists>fs1 fs2. QuarantineFile sample_qenv sample_key ''/a/x'' ''/q'' [''/a/x'' \<mapsto> ''one'', ''/b/x'' \<mapsto> ''two''] = (Ok (), fs1)
     \<and> QuarantineFile sample_qenv sample_key ''/b/x'' ''/q'' fs1 = (Ok (), fs2)
     \<and> fs2 ''/q/x.quarantine'' = Some (''0123456789ab'' @ rev ''two'' @ ''tag'')"
proof -
  let ?fs = "[''/a/x'' \<mapsto> ''one'', ''/b/x'' \<mapsto> ''two'']"
  let ?q1 = "QuarantineFile sample_qenv sample_key ''/a/x'' ''/q'' ?fs"
  let ?q2 = "QuarantineFile sample_qenv sample_key ''/b/x'' ''/q'' (snd ?q1)"
  have ok: "fst ?q1 = Ok ()" "fst ?q2 = Ok ()" by code_simp+
  have p: "quarantine_path ''/a/x'' ''/q'' = ''/q/x.quarantine''" "path_Base ''/a/x'' = path_Base ''/b/x''" by code_simp+
  have "?q1 = (Ok (), snd ?q1)" "?q2 = (Ok (), snd ?q2)" using ok by (metis prod.collapse)+
  with quarantine_same_name_overwrites [of "''/a/x''" "''/b/x''" "''/q''" sample_qenv sample_key ?fs "snd ?q1" sample_qenv "snd ?q2"] p
  show ?thesis by (auto simp: sample_qenv_def)
qed

end
