(* ===== verification/Policy_Engine.thy ===== *)
theory Policy_Engine
  imports Response Float64
begin

text \<open>
  The configuration records of \<open>internal/config/config.go\<close> and the policy engine
  (\<open>internal/policy/policy.go\<close>): validation, loading and activation of policies, the
  inherited rule lookup, and automatic mitigation, which calls the responses of \<open>Response\<close>.
  \<open>viper\<close> and the file it reads are parameters of \<open>LoadConfig\<close>. The rule lookup follows parent
  links and carries fuel.
\<close>

section \<open>Configuration\<close>

record AgentConfig =
  ag_ID :: string
  ag_LogLevel :: string
  ag_IPCSocket :: string
  ag_IPCToken :: string
  ag_HeartbeatIntervalSeconds :: int

record TelemetryConfig =
  tc_ProcessMonitoring :: bool
  tc_FileMonitoring :: bool
  tc_RegistryMonitoring :: bool
  tc_NetworkMonitoring :: bool
  tc_USBMonitoring :: bool

record HashReputationConfig =
  hr_Enabled :: bool
  hr_DBPath :: string

record YaraConfig =
  yc_Enabled :: bool
  yc_RulesDir :: string

record SigmaConfig =
  sc_Enabled :: bool
  sc_RulesDir :: string

record HeuristicsConfig =
  hc_EntropyThreshold :: f64

record EnginesConfig =
  eg_HashReputation :: HashReputationConfig
  eg_Yara :: YaraConfig
  eg_Sigma :: SigmaConfig
  eg_Heuristics :: HeuristicsConfig

record StorageConfig =
  st_Path :: string
  st_RetentionDays :: int
  st_MaxSizeMB :: int

record ActionConfig =
  ac_Name :: string
  ac_Enabled :: bool

record ResponseConfig =
  rc_AutoMitigation :: bool
  rc_RiskThreshold :: f64
  rc_Actions :: "ActionConfig list"
  rc_QuarantineKey :: string

record Config =
  cf_Agent :: AgentConfig
  cf_Telemetry :: TelemetryConfig
  cf_Engines :: EnginesConfig
  cf_Storage :: StorageConfig
  cf_Response :: ResponseConfig

text \<open>\<open>ReadInConfig\<close> gives the parsed values of the file, \<open>Unmarshal\<close> decodes them.\<close>

definition LoadConfig :: "(string \<Rightarrow> 'v result) \<Rightarrow> ('v \<Rightarrow> Config result) \<Rightarrow> string \<Rightarrow> Config result" where
  "LoadConfig ReadInConfig Unmarshal path =
     (case ReadInConfig path of Inl err \<Rightarrow> Err err | Inr v \<Rightarrow> Unmarshal v)"

section \<open>Policies\<close>

type_synonym PolicyAction = string

abbreviation ActionAllow :: PolicyAction where "ActionAllow \<equiv> ''Allow''"
abbreviation ActionDeny :: PolicyAction where "ActionDeny \<equiv> ''Deny''"
abbreviation ActionMonitor :: PolicyAction where "ActionMonitor \<equiv> ''Monitor''"
abbreviation ActionAudit :: PolicyAction where "ActionAudit \<equiv> ''Audit''"
abbreviation ActionIgnore :: PolicyAction where "ActionIgnore \<equiv> ''Ignore''"

record Rule =
  ru_ID :: string
  ru_Name :: string
  ru_Action :: PolicyAction
  ru_ProcessPath :: string
  ru_RiskScore :: f64

record Policy =
  po_ID :: string
  po_ParentID :: string
  po_Rules :: "Rule list"
  po_Version :: int

record PolicyEngine =
  pe_cfg :: "ResponseConfig option"
  pe_policies :: "string \<rightharpoonup> Policy"
  pe_activePolicyID :: string

definition NewPolicyEngine :: "ResponseConfig option \<Rightarrow> PolicyEngine" where
  "NewPolicyEngine cfg = \<lparr>pe_cfg = cfg, pe_policies = Map.empty, pe_activePolicyID = []\<rparr>"

definition valid_action :: "PolicyAction \<Rightarrow> bool" where
  "valid_action act \<longleftrightarrow> act = ActionAllow \<or> act = ActionDeny \<or> act = ActionMonitor \<or> act = ActionAudit \<or> act = ActionIgnore"

fun validate_rules :: "Rule list \<Rightarrow> unit result" where
  "validate_rules [] = Ok ()"
| "validate_rules (r # rs) =
     (if ru_ID r = [] then Err ''rule ID cannot be empty''
      else if \<not> valid_action (ru_Action r) then Err (''invalid policy action: '' @ ru_Action r)
      else if ru_ProcessPath r = [] then Err ''rule process path cannot be empty''
      else validate_rules rs)"

definition ValidatePolicy :: "Policy \<Rightarrow> unit result" where
  "ValidatePolicy p = (if po_ID p = [] then Err ''policy ID cannot be empty'' else validate_rules (po_Rules p))"

definition LoadPolicy :: "Policy \<Rightarrow> PolicyEngine \<Rightarrow> unit result \<times> PolicyEngine" where
  "LoadPolicy p pe =
     (case ValidatePolicy p of
        Inl err \<Rightarrow> (Err err, pe)
      | Inr _ \<Rightarrow> (Ok (), pe\<lparr>pe_policies := (pe_policies pe)(po_ID p \<mapsto> p)\<rparr>))"

definition SetActivePolicy :: "string \<Rightarrow> PolicyEngine \<Rightarrow> unit result \<times> PolicyEngine" where
  "SetActivePolicy ident pe =
     (if pe_policies pe ident = None then (Err (''policy '' @ ident @ '' not loaded''), pe)
      else (Ok (), pe\<lparr>pe_activePolicyID := ident\<rparr>))"

fun match_rules :: "string \<Rightarrow> Rule list \<Rightarrow> PolicyAction option" where
  "match_rules processPath [] = None"
| "match_rules processPath (r # rs) =
     (if Contains processPath (ru_ProcessPath r) then Some (ru_Action r) else match_rules processPath rs)"

fun evaluateChain :: "nat \<Rightarrow> (string \<rightharpoonup> Policy) \<Rightarrow> string \<Rightarrow> string \<Rightarrow> PolicyAction option" where
  "evaluateChain 0 policies policyID processPath = None"
| "evaluateChain (Suc n) policies policyID processPath =
     (case policies policyID of
        None \<Rightarrow> Some ActionMonitor
      | Some p \<Rightarrow>
          (case match_rules processPath (po_Rules p) of
             Some act \<Rightarrow> Some act
           | None \<Rightarrow> if po_ParentID p \<noteq> [] then evaluateChain n policies (po_ParentID p) processPath
                     else Some ActionMonitor))"

definition EvaluateRule :: "nat \<Rightarrow> PolicyEngine \<Rightarrow> string \<Rightarrow> PolicyAction option" where
  "EvaluateRule fuel pe processPath =
     (if pe_activePolicyID pe = [] then Some ActionMonitor
      else evaluateChain fuel (pe_policies pe) (pe_activePolicyID pe) processPath)"

section \<open>Automatic mitigation\<close>

text \<open>A value of the map \<open>details\<close>; only \<open>int\<close> and \<open>string\<close> values are looked at.\<close>

datatype detail = DInt int | DString string | DOther

text \<open>The host, and the functions the responses need on it.\<close>

record 's host =
  ho_sys :: 's
  ho_files :: files

record 's responders =
  rp_os :: "'s os"
  rp_KillTree :: "'s os \<Rightarrow> int \<Rightarrow> 's \<Rightarrow> (unit result \<times> 's) option"
  rp_IsolateHost :: "'s os \<Rightarrow> 's \<Rightarrow> unit result \<times> 's"
  rp_quarantine :: quarantine_env

definition linux_responders :: "'s os \<Rightarrow> nat \<Rightarrow> quarantine_env \<Rightarrow> 's responders" where
  "linux_responders os fuel env = \<lparr>rp_os = os, rp_KillTree = \<lambda>os pid s. unix_KillTree os fuel pid s,
     rp_IsolateHost = linux_IsolateHost, rp_quarantine = env\<rparr>"

definition mitigation_key :: string where
  "mitigation_key = ''12345678901234567890123456789012''"

text \<open>One case of the \<open>switch\<close>: \<open>None\<close> when the call does not return; \<open>Ok False\<close> when the case does
  not apply (\<open>continue\<close>).\<close>

definition run_action ::
  "'s responders \<Rightarrow> (string \<rightharpoonup> detail) \<Rightarrow> string \<Rightarrow> 's host \<Rightarrow> (bool result \<times> 's host) option" where
  "run_action rp details name h =
     (if name = ''kill'' then
        (case details ''pid'' of
           Some (DInt pid) \<Rightarrow>
             (case rp_KillTree rp (rp_os rp) pid (ho_sys h) of
                None \<Rightarrow> None
              | Some (r, s) \<Rightarrow> Some (case r of Inl err \<Rightarrow> Err (''failed to execute auto-kill: '' @ err)
                  | Inr _ \<Rightarrow> Ok True, h\<lparr>ho_sys := s\<rparr>))
         | _ \<Rightarrow> Some (Ok False, h))
      else if name = ''isolate'' then
        (case rp_IsolateHost rp (rp_os rp) (ho_sys h) of
           (r, s) \<Rightarrow> Some (case r of Inl err \<Rightarrow> Err (''failed to execute auto-isolate: '' @ err)
             | Inr _ \<Rightarrow> Ok True, h\<lparr>ho_sys := s\<rparr>))
      else if name = ''quarantine'' then
        (case details ''filepath'' of
           Some (DString filepath) \<Rightarrow>
             (case QuarantineFile (rp_quarantine rp) mitigation_key filepath ''/var/lib/aegis/quarantine'' (ho_files h) of
                (r, fs) \<Rightarrow> Some (case r of Inl err \<Rightarrow> Err (''failed to execute auto-quarantine: '' @ err)
                  | Inr _ \<Rightarrow> Ok True, h\<lparr>ho_files := fs\<rparr>))
         | _ \<Rightarrow> Some (Ok False, h))
      else Some (Ok False, h))"

fun run_actions ::
  "'s responders \<Rightarrow> (string \<rightharpoonup> detail) \<Rightarrow> ActionConfig list \<Rightarrow> string list \<Rightarrow> 's host \<Rightarrow>
     (string list result \<times> 's host) option" where
  "run_actions rp details [] executed h = Some (Ok executed, h)"
| "run_actions rp details (a # as) executed h =
     (if \<not> ac_Enabled a then run_actions rp details as executed h
      else case run_action rp details (ac_Name a) h of
        None \<Rightarrow> None
      | Some (Inl err, h') \<Rightarrow> Some (Err err, h')
      | Some (Inr done, h') \<Rightarrow>
          run_actions rp details as (if done then executed @ [ac_Name a] else executed) h')"

definition EvaluateAndMitigate ::
  "'s responders \<Rightarrow> PolicyEngine \<Rightarrow> f64 \<Rightarrow> (string \<rightharpoonup> detail) \<Rightarrow> 's host \<Rightarrow> (string result \<times> 's host) option" where
  "EvaluateAndMitigate rp pe score details h =
     (case pe_cfg pe of
        None \<Rightarrow> Some (Ok ''auto-mitigation disabled'', h)
      | Some cfg \<Rightarrow>
          if \<not> rc_AutoMitigation cfg then Some (Ok ''auto-mitigation disabled'', h)
          else if score < rc_RiskThreshold cfg
          then Some (Ok (''score '' @ fmt_2f score @ '' below risk threshold '' @ fmt_2f (rc_RiskThreshold cfg)), h)
          else case run_actions rp details (rc_Actions cfg) [] h of
            None \<Rightarrow> None
          | Some (Inl err, h') \<Rightarrow> Some (Err err, h')
          | Some (Inr executed, h') \<Rightarrow>
              Some (Ok (if executed = [] then ''no matching actions executed''
                else ''auto-mitigation executed actions: '' @ show_strings executed), h'))"

section \<open>The policies of an engine are valid\<close>

definition pe_ok :: "PolicyEngine \<Rightarrow> bool" where
  "pe_ok pe \<longleftrightarrow> (\<forall>ident p. pe_policies pe ident = Some p \<longrightarrow> po_ID p = ident \<and> is_ok (ValidatePolicy p))
     \<and> (pe_activePolicyID pe = [] \<or> pe_activePolicyID pe \<in> dom (pe_policies pe))"

datatype pe_op = OpLoad Policy | OpActivate string

fun pe_step :: "pe_op \<Rightarrow> PolicyEngine \<Rightarrow> PolicyEngine" where
  "pe_step (OpLoad p) pe = snd (LoadPolicy p pe)"
| "pe_step (OpActivate ident) pe = snd (SetActivePolicy ident pe)"

lemma NewPolicyEngine_ok [invs]: "pe_ok (NewPolicyEngine cfg)"
  by (simp add: pe_ok_def NewPolicyEngine_def)

lemma pe_step_ok [invs]: "pe_ok pe \<Longrightarrow> pe_ok (pe_step op pe)"
  by (cases op) (auto simp: pe_ok_def LoadPolicy_def SetActivePolicy_def split: sum.split)

lemma pe_run_ok: "pe_ok pe \<Longrightarrow> pe_ok (fold pe_step ops pe)"
  by (induction ops arbitrary: pe) (simp_all add: pe_step_ok)

section \<open>The lookup against its specification\<close>

text \<open>The policies from \<open>ident\<close> up its parent links, as far as they are loaded.\<close>

inductive ancestry :: "(string \<rightharpoonup> Policy) \<Rightarrow> string \<Rightarrow> Policy list \<Rightarrow> bool" for policies where
  missing: "policies ident = None \<Longrightarrow> ancestry policies ident []"
| root: "policies ident = Some p \<Longrightarrow> po_ParentID p = [] \<Longrightarrow> ancestry policies ident [p]"
| inherits: "policies ident = Some p \<Longrightarrow> po_ParentID p \<noteq> [] \<Longrightarrow> ancestry policies (po_ParentID p) ps
    \<Longrightarrow> ancestry policies ident (p # ps)"

inductive_cases ancestry_ConsE: "ancestry policies ident (p # ps)"

definition first_match :: "string \<Rightarrow> Policy list \<Rightarrow> PolicyAction" where
  "first_match processPath ps =
     (case filter (\<lambda>r. Contains processPath (ru_ProcessPath r)) (concat (map po_Rules ps)) of
        [] \<Rightarrow> ActionMonitor | r # _ \<Rightarrow> ru_Action r)"

lemma match_rules_filter:
  "match_rules path rs = (case filter (\<lambda>r. Contains path (ru_ProcessPath r)) rs of [] \<Rightarrow> None | r # _ \<Rightarrow> Some (ru_Action r))"
  by (induction rs) auto

lemma evaluateChain_ancestry:
  "ancestry policies ident ps \<Longrightarrow> length ps < fuel \<Longrightarrow> evaluateChain fuel policies ident path = Some (first_match path ps)"
proof (induction arbitrary: fuel rule: ancestry.induct)
  case (inherits ident p ps)
  then obtain n where "fuel = Suc n" "length ps < n" by (cases fuel) auto
  with inherits show ?case
    by (auto simp: first_match_def match_rules_filter split: list.split)
qed (auto simp: gr0_conv_Suc less_Suc_eq_0_disj first_match_def match_rules_filter neq_Nil_conv
    dest!: less_imp_Suc_add split: list.split)

lemma ancestry_exists:
  assumes "\<And>ident p. policies ident = Some p \<Longrightarrow> po_ParentID p \<noteq> [] \<Longrightarrow> (rank (po_ParentID p) :: nat) < rank ident"
  shows "\<exists>ps. ancestry policies ident ps \<and> length ps \<le> Suc (rank ident)"
proof (induction "rank ident" arbitrary: ident rule: less_induct)
  case less
  show ?case
  proof (cases "policies ident")
    case None
    then have "ancestry policies ident []" by (rule missing)
    then show ?thesis by (metis le0 list.size(3))
  next
    case (Some p)
    show ?thesis
    proof (cases "po_ParentID p = []")
      case True
      with Some have "ancestry policies ident [p]" by (rule root)
      then show ?thesis by fastforce
    next
      case False
      with assms Some have r: "rank (po_ParentID p) < rank ident" by blast
      then obtain ps where ps: "ancestry policies (po_ParentID p) ps" "length ps \<le> Suc (rank (po_ParentID p))"
        using less by blast
      have "ancestry policies ident (p # ps)" using Some False ps(1) by (rule inherits)
      moreover have "length (p # ps) \<le> Suc (rank ident)" using ps(2) r by simp
      ultimately show ?thesis by blast
    qed
  qed
qed

lemma ancestry_loaded: "ancestry policies ident ps \<Longrightarrow> set ps \<subseteq> ran policies"
  by (induction rule: ancestry.induct) (auto simp: ran_def)

lemma valid_rules_actions: "is_ok (validate_rules rs) \<Longrightarrow> r \<in> set rs \<Longrightarrow> valid_action (ru_Action r)"
  by (induction rs) (auto split: if_splits)

lemma first_match_valid:
  assumes "\<And>p. p \<in> set ps \<Longrightarrow> is_ok (ValidatePolicy p)"
  shows "valid_action (first_match path ps)"
proof (cases "filter (\<lambda>r. Contains path (ru_ProcessPath r)) (concat (map po_Rules ps))")
  case Nil
  then show ?thesis by (simp add: first_match_def valid_action_def)
next
  case (Cons r rs)
  then have "r \<in> set (filter (\<lambda>r. Contains path (ru_ProcessPath r)) (concat (map po_Rules ps)))" by simp
  then obtain p where p: "p \<in> set ps" "r \<in> set (po_Rules p)" by auto
  with assms [OF p(1)] have "is_ok (validate_rules (po_Rules p))" by (simp add: ValidatePolicy_def split: if_splits)
  with p(2) have "valid_action (ru_Action r)" by (rule valid_rules_actions [rotated])
  with Cons show ?thesis by (simp add: first_match_def)
qed

text \<open>C21 (functional). Whatever policies were loaded and activated, as long as their parent links have no cycle
  the lookup returns, and its answer is the action of the first rule whose path occurs in the
  process path, in the order of the active policy, its parent, its parent's parent; it is
  Monitor if no rule matches. The answer is always one of the five actions.\<close>

theorem EvaluateRule_spec:
  assumes "pe = fold pe_step ops (NewPolicyEngine cfg)"
    and "\<And>ident p. pe_policies pe ident = Some p \<Longrightarrow> po_ParentID p \<noteq> [] \<Longrightarrow> rank (po_ParentID p) < rank ident"
    and "Suc (rank (pe_activePolicyID pe)) < fuel" "pe_activePolicyID pe \<noteq> []"
  shows "\<exists>ps. ancestry (pe_policies pe) (pe_activePolicyID pe) ps
    \<and> EvaluateRule fuel pe processPath = Some (first_match processPath ps)
    \<and> valid_action (first_match processPath ps)"
proof -
  obtain ps where ps: "ancestry (pe_policies pe) (pe_activePolicyID pe) ps"
    "length ps \<le> Suc (rank (pe_activePolicyID pe))"
    using ancestry_exists [of "pe_policies pe" rank] assms(2) by blast
  have "pe_ok pe" unfolding assms(1) by (rule pe_run_ok) (rule NewPolicyEngine_ok)
  then have "is_ok (ValidatePolicy p)" if "p \<in> set ps" for p
    using that ancestry_loaded [OF ps(1)] by (auto simp: pe_ok_def ran_def)
  then have "valid_action (first_match processPath ps)" by (rule first_match_valid)
  moreover have "EvaluateRule fuel pe processPath = Some (first_match processPath ps)"
    using evaluateChain_ancestry [OF ps(1)] ps(2) assms(3,4) by (simp add: EvaluateRule_def)
  ultimately show ?thesis using ps(1) by blast
qed

text \<open>A cycle of parent links without a matching rule is followed for ever.\<close>

lemma evaluateChain_cycle:
  assumes "\<And>ident. ident \<in> C \<Longrightarrow> \<exists>p. policies ident = Some p \<and> match_rules path (po_Rules p) = None
      \<and> po_ParentID p \<noteq> [] \<and> po_ParentID p \<in> C"
  shows "ident \<in> C \<Longrightarrow> evaluateChain fuel policies ident path = None"
proof (induction fuel arbitrary: ident)
  case (Suc n)
  from assms [OF Suc.prems] obtain p where "policies ident = Some p" "match_rules path (po_Rules p) = None"
    "po_ParentID p \<noteq> []" "po_ParentID p \<in> C" by blast
  with Suc.IH show ?case by simp
qed simp

text \<open>C37 (error). Loading does not look at the parent links: two valid policies that name each other as
  parent (or one that names itself) are accepted and can be activated, and from then on the lookup of
  a process path that none of their rules matches never returns, whatever the recursion depth.\<close>

theorem parent_cycle_diverges:
  assumes "is_ok (ValidatePolicy p)" "is_ok (ValidatePolicy q)"
    and "po_ParentID p = po_ID q" "po_ParentID q = po_ID p"
    and "match_rules path (po_Rules p) = None" "match_rules path (po_Rules q) = None"
  shows "is_ok (fst (LoadPolicy q (snd (LoadPolicy p pe))))
    \<and> is_ok (fst (SetActivePolicy (po_ID p) (snd (LoadPolicy q (snd (LoadPolicy p pe))))))
    \<and> EvaluateRule fuel (snd (SetActivePolicy (po_ID p) (snd (LoadPolicy q (snd (LoadPolicy p pe)))))) path = None"
proof -
  let ?pols = "(pe_policies pe)(po_ID p \<mapsto> p, po_ID q \<mapsto> q)"
  have ids: "po_ID p \<noteq> []" "po_ID q \<noteq> []" using assms(1,2) by (auto simp: ValidatePolicy_def)
  have "evaluateChain fuel ?pols (po_ID p) path = None"
    by (rule evaluateChain_cycle [of "{po_ID p, po_ID q}"]) (use assms(3-6) ids in \<open>auto split: if_splits\<close>)
  with assms(1,2) ids show ?thesis
    by (auto simp: LoadPolicy_def SetActivePolicy_def EvaluateRule_def elim!: is_okE)
qed

section \<open>Mitigation\<close>

lemma run_action_unknown: "name \<notin> {''kill'', ''isolate'', ''quarantine''} \<Longrightarrow> run_action rp details name h = Some (Ok False, h)"
  by (simp add: run_action_def)

definition armed :: "ActionConfig list \<Rightarrow> bool" where
  "armed as \<longleftrightarrow> list_ex (\<lambda>a. ac_Enabled a \<and> ac_Name a \<in> {''kill'', ''isolate'', ''quarantine''}) as"

lemma run_actions_unarmed: "\<not> armed as \<Longrightarrow> run_actions rp details as executed h = Some (Ok executed, h)"
  by (induction as) (auto simp: armed_def run_action_unknown)

text \<open>The engine touches the host only if mitigation is switched on, the score reaches the
  configured threshold and some enabled action carries one of the three names the code knows;
  otherwise it returns a message, without error and without any effect.\<close>

theorem mitigation_gate:
  "(\<exists>cfg. pe_cfg pe = Some cfg \<and> rc_AutoMitigation cfg \<and> rc_RiskThreshold cfg \<le> score \<and> armed (rc_Actions cfg))
   \<or> (\<exists>msg. EvaluateAndMitigate rp pe score details h = Some (Ok msg, h))"
  using run_actions_unarmed [of "rc_Actions (the (pe_cfg pe))" rp details "[]" h]
  by (cases "pe_cfg pe"; cases "armed (rc_Actions (the (pe_cfg pe)))") (auto simp: EvaluateAndMitigate_def not_less not_le)

definition shipped_actions :: "ActionConfig list" where
  "shipped_actions = [\<lparr>ac_Name = ''isolate_network'', ac_Enabled = True\<rparr>, \<lparr>ac_Name = ''kill_process'', ac_Enabled = True\<rparr>]"

definition shipped_response :: ResponseConfig where
  "shipped_response = \<lparr>rc_AutoMitigation = False, rc_RiskThreshold = 17 / 2, rc_Actions = shipped_actions,
     rc_QuarantineKey = ''12345678901234567890123456789012''\<rparr>"

text \<open>The actions of the shipped configuration, isolate_network and kill_process, are names the
  engine does not know: switched on and with any score it reports that no action matched and
  leaves the host alone.\<close>

theorem shipped_actions_unknown:
  "EvaluateAndMitigate rp (NewPolicyEngine (Some (shipped_response\<lparr>rc_AutoMitigation := True\<rparr>))) (max score (17 / 2)) details h
     = Some (Ok ''no matching actions executed'', h)"
proof -
  have "\<not> armed shipped_actions" by (simp add: armed_def shipped_actions_def)
  then show ?thesis
    by (simp add: EvaluateAndMitigate_def NewPolicyEngine_def shipped_response_def run_actions_unarmed)
qed

text \<open>With the action kill enabled and a score at the threshold, mitigation on a Unix host
  removes exactly the process of the alert and its descendants and reports the action; if the
  process is gone already, it reports the failure.\<close>

theorem mitigation_kills_tree:
  assumes "unix_os os view" "ranked rank N (view (ho_sys h))" "rank pid \<le> N" "N < fuel"
    and "pe_cfg pe = Some cfg" "rc_AutoMitigation cfg" "rc_RiskThreshold cfg \<le> score"
    and "rc_Actions cfg = [\<lparr>ac_Name = ''kill'', ac_Enabled = True\<rparr>]" "details ''pid'' = Some (DInt pid)"
  shows "\<exists>r h'. EvaluateAndMitigate (linux_responders os fuel env) pe score details h = Some (r, h')
    \<and> (if pid \<in> fst ` set (view (ho_sys h)) then r = Ok ''auto-mitigation executed actions: [kill]'' else \<not> is_ok r)
    \<and> view (ho_sys h') = filter (\<lambda>e. fst e \<notin> descendants (view (ho_sys h)) pid) (view (ho_sys h))
    \<and> ho_files h' = ho_files h"
proof -
  obtain r s' where k: "unix_KillTree os fuel pid (ho_sys h) = Some (r, s')"
    "is_ok r = (pid \<in> fst ` set (view (ho_sys h)))"
    "view s' = filter (\<lambda>e. fst e \<notin> descendants (view (ho_sys h)) pid) (view (ho_sys h))"
    using KillTree_view [OF assms(1-3), of fuel] assms(4) by (auto simp: without_def)
  show ?thesis
    using assms(5-9) k
    by (cases r) (auto simp: EvaluateAndMitigate_def run_action_def linux_responders_def show_strings_def)
qed

section \<open>Samples\<close>

definition sample_rule :: "string \<Rightarrow> PolicyAction \<Rightarrow> string \<Rightarrow> Rule" where
  "sample_rule ident act path = \<lparr>ru_ID = ident, ru_Name = ident, ru_Action = act, ru_ProcessPath = path, ru_RiskScore = 0\<rparr>"

definition base_policy :: Policy where
  "base_policy = \<lparr>po_ID = ''base'', po_ParentID = [], po_Rules = [sample_rule ''r1'' ActionDeny ''/tmp''], po_Version = 1\<rparr>"

definition site_policy :: Policy where
  "site_policy = \<lparr>po_ID = ''site'', po_ParentID = ''base'', po_Rules = [sample_rule ''r2'' ActionAllow ''/tmp/ok''], po_Version = 1\<rparr>"

lemma sample_decision:
  "EvaluateRule 3 (fold pe_step [OpLoad base_policy, OpLoad site_policy, OpActivate ''site''] (NewPolicyEngine None)) ''/tmp/x''
     = Some ActionDeny"
  by code_simp

lemma sample_policies:
  "fold pe_step [OpLoad base_policy, OpLoad site_policy, OpActivate ''site''] (NewPolicyEngine None)
     = \<lparr>pe_cfg = None, pe_policies = [''base'' \<mapsto> base_policy, ''site'' \<mapsto> site_policy], pe_activePolicyID = ''site''\<rparr>"
  by (simp add: LoadPolicy_def SetActivePolicy_def NewPolicyEngine_def ValidatePolicy_def valid_action_def
      base_policy_def site_policy_def sample_rule_def)

theorem EvaluateRule_spec_witness:
  "\<exists>ps. EvaluateRule 3 (fold pe_step [OpLoad base_policy, OpLoad site_policy, OpActivate ''site''] (NewPolicyEngine None)) ''/tmp/x''
     = Some (first_match ''/tmp/x'' ps)"
proof -
  let ?ops = "[OpLoad base_policy, OpLoad site_policy, OpActivate ''site'']"
  let ?pe = "fold pe_step ?ops (NewPolicyEngine None)"
  let ?rank = "\<lambda>ident. if ident = ''site'' then 1 else 0 :: nat"
  have "?rank (po_ParentID p) < ?rank ident" if "pe_policies ?pe ident = Some p" "po_ParentID p \<noteq> []" for ident p
    using that unfolding sample_policies by (auto simp: base_policy_def site_policy_def split: if_splits)
  moreover have "pe_activePolicyID ?pe = ''site''" unfolding sample_policies by simp
  ultimately show ?thesis
    using EvaluateRule_spec [OF refl, of ?ops None ?rank 3 "''/tmp/x''"] by fastforce
qed

theorem parent_cycle_diverges_witness:
  "EvaluateRule 100 (snd (SetActivePolicy ''base'' (snd (LoadPolicy site_policy
     (snd (LoadPolicy (base_policy\<lparr>po_ParentID := ''site''\<rparr>) (NewPolicyEngine None))))))) ''/usr/bin/ls'' = None"
proof -
  let ?p = "base_policy\<lparr>po_ParentID := ''site''\<rparr>"
  have "is_ok (ValidatePolicy ?p)" "is_ok (ValidatePolicy site_policy)"
    "match_rules ''/usr/bin/ls'' (po_Rules ?p) = None" "match_rules ''/usr/bin/ls'' (po_Rules site_policy) = None"
    by code_simp+
  then show ?thesis
    using parent_cycle_diverges [of ?p site_policy "''/usr/bin/ls''" "NewPolicyEngine None" 100]
    by (simp add: base_policy_def site_policy_def)
qed

definition kill_config :: ResponseConfig where
  "kill_config = \<lparr>rc_AutoMitigation = True, rc_RiskThreshold = 4 / 5,
     rc_Actions = [\<lparr>ac_Name = ''kill'', ac_Enabled = True\<rparr>], rc_QuarantineKey = []\<rparr>"

theorem mitigation_kills_tree_witness:
  "\<exists>h'. EvaluateAndMitigate (linux_responders table_os 41 sample_qenv) (NewPolicyEngine (Some kill_config)) 1
      [''pid'' \<mapsto> DInt 10] \<lparr>ho_sys = sample_table, ho_files = Map.empty\<rparr>
      = Some (Ok ''auto-mitigation executed actions: [kill]'', h')"
proof -
  have "ranked nat 40 sample_table" "10 \<in> fst ` set sample_table" by (simp_all add: ranked_def sample_table_def)
  then show ?thesis
    using mitigation_kills_tree [OF table_os_unix, of nat 40 "\<lparr>ho_sys = sample_table, ho_files = Map.empty\<rparr>" 10 41
        "NewPolicyEngine (Some kill_config)" kill_config 1 "[''pid'' \<mapsto> DInt 10]" sample_qenv]
    by (auto simp: NewPolicyEngine_def kill_config_def)
qed

end
