(* ===== verification/Intel.thy ===== *)
theory Intel
  imports Storage
begin

text \<open>
  Threat intelligence (\<open>internal/intel\<close>): the TAXII client, which ingests STIX bundles into the
  indicator table of the store (\<open>taxii.go\<close>), and the feed manager, which polls the sources and
  loads the table into the in-memory reputation engine (\<open>intel.go\<close>). JSON decoding and the HTTP
  exchange are parameters; the SQL engine's errors are given per statement.
\<close>

section \<open>The reputation engine\<close>

type_synonym IOCType = string

abbreviation IOCHash :: IOCType where "IOCHash \<equiv> ''hash''"
abbreviation IOCDomain :: IOCType where "IOCDomain \<equiv> ''domain''"
abbreviation IOCURL :: IOCType where "IOCURL \<equiv> ''url''"
abbreviation IOCCertificate :: IOCType where "IOCCertificate \<equiv> ''certificate''"
abbreviation IOCJA3 :: IOCType where "IOCJA3 \<equiv> ''ja3''"
abbreviation IOCJA4 :: IOCType where "IOCJA4 \<equiv> ''ja4''"
abbreviation IOCMitre :: IOCType where "IOCMitre \<equiv> ''mitre''"

record Indicator =
  in_Pattern :: string
  in_Type :: IOCType
  in_Label :: string
  in_Version :: int
  in_Description :: string
  in_LastUpdated :: go_time

type_synonym ReputationEngine = "IOCType \<rightharpoonup> (string \<rightharpoonup> Indicator)"

definition ioc_types :: "IOCType list" where
  "ioc_types = [IOCHash, IOCDomain, IOCURL, IOCCertificate, IOCJA3, IOCJA4, IOCMitre]"

definition NewReputationEngine :: ReputationEngine where
  "NewReputationEngine = map_of (map (\<lambda>t. (t, Map.empty)) ioc_types)"

fun Load :: "Indicator list \<Rightarrow> ReputationEngine \<Rightarrow> ReputationEngine" where
  "Load [] re = re"
| "Load (ind # inds) re =
     Load inds (case re (in_Type ind) of
        None \<Rightarrow> re
      | Some sub \<Rightarrow> re(in_Type ind \<mapsto> sub(in_Pattern ind \<mapsto> ind)))"

definition Lookup :: "string \<Rightarrow> IOCType \<Rightarrow> ReputationEngine \<Rightarrow> Indicator option" where
  "Lookup pattern iocType re = (case re iocType of Some sub \<Rightarrow> sub pattern | None \<Rightarrow> None)"

section \<open>The TAXII client\<close>

record STIXObject =
  sx_Type :: string
  sx_ID :: string
  sx_Pattern :: string
  sx_PatternType :: string
  sx_Labels :: "string list"

record STIXBundle =
  sb_Type :: string
  sb_Objects :: "STIXObject list"

record http_request =
  hq_Method :: string
  hq_URL :: string
  hq_Accept :: string
  hq_BasicAuth :: "(string \<times> string) option"

record http_response =
  hs_StatusCode :: int
  hs_Status :: string
  hs_Body :: "string result"

record taxii_env =
  tx_now :: go_time
  tx_unmarshal :: "string \<Rightarrow> STIXBundle result"
  tx_request_err :: "string \<Rightarrow> go_error option"
  tx_do :: "http_request \<Rightarrow> http_response result"
  tx_insert_err :: "int \<Rightarrow> go_error option"
  tx_query_err :: "go_error option"

text \<open>The errors of the inserts are given by the identifier the row would get.\<close>

fun ingest_objects :: "taxii_env \<Rightarrow> STIXObject list \<Rightarrow> db \<Rightarrow> unit result \<times> db" where
  "ingest_objects env [] d = (Ok (), d)"
| "ingest_objects env (obj # objs) d =
     (if sx_Type obj = ''indicator'' then
        (let label = (case sx_Labels obj of [] \<Rightarrow> ''unknown'' | l # _ \<Rightarrow> l)
         in case InsertIndicator (tx_insert_err env (ind_seq d + 1)) (tx_now env) (sx_Pattern obj) (sx_PatternType obj) label d of
              (Inl err, d') \<Rightarrow> (Err err, d')
            | (Inr _, d') \<Rightarrow> ingest_objects env objs d')
      else ingest_objects env objs d)"

definition IngestSTIXBundle :: "taxii_env \<Rightarrow> string \<Rightarrow> db \<Rightarrow> unit result \<times> db" where
  "IngestSTIXBundle env data d =
     (case tx_unmarshal env data of
        Inl err \<Rightarrow> (Err err, d)
      | Inr bundle \<Rightarrow>
          if sb_Type bundle \<noteq> ''bundle'' then (Err ''invalid STIX object type: expected bundle'', d)
          else ingest_objects env (sb_Objects bundle) d)"

definition taxii_request :: "string \<Rightarrow> string \<Rightarrow> string \<Rightarrow> http_request" where
  "taxii_request endpointURL username password =
     \<lparr>hq_Method = ''GET'', hq_URL = endpointURL, hq_Accept = ''application/vnd.oasis.taxii+json; version=2.1'',
      hq_BasicAuth = (if username \<noteq> [] \<or> password \<noteq> [] then Some (username, password) else None)\<rparr>"

definition PollFeed :: "taxii_env \<Rightarrow> string \<Rightarrow> string \<Rightarrow> string \<Rightarrow> db \<Rightarrow> unit result \<times> db" where
  "PollFeed env endpointURL username password d =
     (case tx_request_err env endpointURL of
        Some err \<Rightarrow> (Err err, d)
      | None \<Rightarrow>
        (case tx_do env (taxii_request endpointURL username password) of
           Inl err \<Rightarrow> (Err err, d)
         | Inr res \<Rightarrow>
             if hs_StatusCode res \<noteq> 200 then (Err (''TAXII server returned non-OK status: '' @ hs_Status res), d)
             else case hs_Body res of
               Inl err \<Rightarrow> (Err err, d)
             | Inr body \<Rightarrow> IngestSTIXBundle env body d))"

section \<open>The feed manager\<close>

record FeedManager =
  fm_sources :: "string list"
  fm_offlineMode :: bool
  fm_version :: int

definition NewFeedManager :: FeedManager where
  "NewFeedManager = \<lparr>fm_sources = [], fm_offlineMode = False, fm_version = 1\<rparr>"

definition SetOfflineMode :: "bool \<Rightarrow> FeedManager \<Rightarrow> FeedManager" where
  "SetOfflineMode offline fm = fm\<lparr>fm_offlineMode := offline\<rparr>"

definition AddSource :: "string \<Rightarrow> FeedManager \<Rightarrow> FeedManager" where
  "AddSource url fm = fm\<lparr>fm_sources := fm_sources fm @ [url]\<rparr>"

definition ioc_type_of :: "string \<Rightarrow> IOCType" where
  "ioc_type_of pType =
     (if pType = ''domain'' then IOCDomain else if pType = ''url'' then IOCURL
      else if pType = ''certificate'' then IOCCertificate else if pType = ''ja3'' then IOCJA3
      else if pType = ''ja4'' then IOCJA4 else if pType = ''mitre'' then IOCMitre else IOCHash)"

definition indicator_of :: "go_time \<Rightarrow> int \<Rightarrow> ind_row \<Rightarrow> Indicator" where
  "indicator_of now ver r = \<lparr>in_Pattern = i_pattern r, in_Type = ioc_type_of (i_pattern_type r),
     in_Label = i_threat_label r, in_Version = ver,
     in_Description = ''Offline threat intelligence payload'', in_LastUpdated = now\<rparr>"

definition cacheIndicatorsFromStore ::
  "taxii_env \<Rightarrow> int \<Rightarrow> db \<Rightarrow> ReputationEngine \<Rightarrow> unit result \<times> ReputationEngine" where
  "cacheIndicatorsFromStore env ver d engine =
     (case tx_query_err env of
        Some err \<Rightarrow> (Err err, engine)
      | None \<Rightarrow> (Ok (), Load (map (indicator_of (tx_now env) ver) (indicators d)) engine))"

fun poll_all :: "taxii_env \<Rightarrow> string list \<Rightarrow> bool \<Rightarrow> db \<Rightarrow> bool \<times> db" where
  "poll_all env [] hasSuccess d = (hasSuccess, d)"
| "poll_all env (src # srcs) hasSuccess d =
     (case PollFeed env src [] [] d of (r, d') \<Rightarrow> poll_all env srcs (hasSuccess \<or> is_ok r) d')"

text \<open>\<open>loadOfflineIndicators\<close> reads the version from the manager, which is the one just set.\<close>

definition loadOfflineIndicators ::
  "taxii_env \<Rightarrow> FeedManager \<Rightarrow> db \<Rightarrow> ReputationEngine \<Rightarrow> unit result \<times> ReputationEngine" where
  "loadOfflineIndicators env fm d engine = cacheIndicatorsFromStore env (fm_version fm) d engine"

definition Sync ::
  "taxii_env \<Rightarrow> FeedManager \<Rightarrow> db \<Rightarrow> ReputationEngine \<Rightarrow> unit result \<times> FeedManager \<times> db \<times> ReputationEngine" where
  "Sync env fm0 d engine =
     (let fm = fm0\<lparr>fm_version := fm_version fm0 + 1\<rparr>
      in if fm_offlineMode fm then
           (case loadOfflineIndicators env fm d engine of (r, re) \<Rightarrow> (r, fm, d, re))
         else
           (case poll_all env (fm_sources fm) False d of
              (hasSuccess, d') \<Rightarrow>
                (case (if \<not> hasSuccess \<and> fm_sources fm \<noteq> [] then loadOfflineIndicators env fm d' engine
                       else cacheIndicatorsFromStore env (fm_version fm) d' engine) of
                   (r, re) \<Rightarrow> (r, fm, d', re))))"

definition IngestMockBundle :: "taxii_env \<Rightarrow> bool \<Rightarrow> string \<Rightarrow> db \<Rightarrow> unit result \<times> db" where
  "IngestMockBundle env has_client data d =
     (if \<not> has_client then (Err ''TAXII client not configured'', d) else IngestSTIXBundle env data d)"

section \<open>What a synchronisation leaves in the engine\<close>

lemma Load_append: "Load (xs @ ys) re = Load ys (Load xs re)"
  by (induction xs arbitrary: re) simp_all

lemma Load_dom [simp]: "dom (Load inds re) = dom re"
  by (induction inds arbitrary: re) (auto split: option.split)

text \<open>The last indicator of a pattern and a type wins.\<close>

definition latest :: "string \<Rightarrow> IOCType \<Rightarrow> Indicator list \<Rightarrow> Indicator option" where
  "latest pattern t inds = find (\<lambda>i. in_Pattern i = pattern \<and> in_Type i = t) (rev inds)"

lemma find_append: "find P (xs @ ys) = (case find P xs of None \<Rightarrow> find P ys | Some x \<Rightarrow> Some x)"
  by (induction xs) auto

lemma Lookup_Load:
  assumes "t \<in> dom re"
  shows "Lookup pattern t (Load inds re) = (case latest pattern t inds of Some i \<Rightarrow> Some i | None \<Rightarrow> Lookup pattern t re)"
proof (induction inds rule: rev_induct)
  case Nil
  then show ?case by (simp add: latest_def)
next
  case (snoc i inds)
  have "t \<in> dom (Load inds re)" using assms by simp
  then obtain sub where sub: "Load inds re t = Some sub" by blast
  show ?case
  proof (cases "in_Pattern i = pattern \<and> in_Type i = t")
    case True
    with sub show ?thesis by (auto simp: Load_append Lookup_def latest_def)
  next
    case False
    with snoc sub show ?thesis by (auto simp: Load_append Lookup_def latest_def split: option.splits)
  qed
qed

lemma ioc_type_dom: "ioc_type_of pType \<in> dom NewReputationEngine"
  by (simp add: NewReputationEngine_def ioc_types_def ioc_type_of_def)

lemma Sync_result:
  assumes "Sync env fm d engine = (r, fm', d', re)"
  shows "(r, re) = cacheIndicatorsFromStore env (fm_version fm + 1) d' engine"
    and "fm' = fm\<lparr>fm_version := fm_version fm + 1\<rparr>"
    and "d' = (if fm_offlineMode fm then d else snd (poll_all env (fm_sources fm) False d))"
  using assms by (auto simp: Sync_def loadOfflineIndicators_def Let_def split: prod.splits if_splits)

section \<open>Rows are only added\<close>

definition adds_rows :: "db \<Rightarrow> db \<Rightarrow> bool" where
  "adds_rows d d' \<longleftrightarrow> set (indicators d) \<subseteq> set (indicators d')"

lemma adds_rows_refl [simp]: "adds_rows d d"
  by (simp add: adds_rows_def)

lemma adds_rows_trans: "adds_rows d d1 \<Longrightarrow> adds_rows d1 d2 \<Longrightarrow> adds_rows d d2"
  by (auto simp: adds_rows_def)

lemma InsertIndicator_adds: "adds_rows d (snd (InsertIndicator fault now p pt l d))"
  by (auto simp: adds_rows_def InsertIndicator_def guarded_def sql_insert_indicator_def Let_def split: option.split)

lemma ingest_objects_adds: "adds_rows d (snd (ingest_objects env objs d))"
proof (induction objs arbitrary: d)
  case (Cons obj objs)
  let ?label = "case sx_Labels obj of [] \<Rightarrow> ''unknown'' | l # _ \<Rightarrow> l"
  let ?ins = "InsertIndicator (tx_insert_err env (ind_seq d + 1)) (tx_now env) (sx_Pattern obj) (sx_PatternType obj) ?label d"
  obtain r d1 where ins: "?ins = (r, d1)" by (cases ?ins)
  have one: "adds_rows d d1" using InsertIndicator_adds [of d] ins by (metis snd_conv)
  then have "adds_rows d (snd (ingest_objects env objs d1))" using Cons by (rule adds_rows_trans)
  with one ins Cons show ?case by (simp add: Let_def split: sum.split)
qed simp

lemma PollFeed_adds: "adds_rows d (snd (PollFeed env url u p d))"
  using ingest_objects_adds by (auto simp: PollFeed_def IngestSTIXBundle_def split: option.split sum.split)

lemma poll_all_adds: "adds_rows d (snd (poll_all env srcs b d))"
proof (induction srcs arbitrary: b d)
  case (Cons src srcs)
  obtain r d1 where p: "PollFeed env src [] [] d = (r, d1)" by (cases "PollFeed env src [] [] d")
  with PollFeed_adds [of d env src "[]" "[]"] have "adds_rows d d1" by simp
  with Cons [of d1 "b \<or> is_ok r"] p show ?case by (auto intro: adds_rows_trans)
qed simp

text \<open>The row an indicator object becomes.\<close>

definition stored :: "db \<Rightarrow> STIXObject \<Rightarrow> bool" where
  "stored d obj \<longleftrightarrow> list_ex (\<lambda>r. i_pattern r = sx_Pattern obj \<and> i_pattern_type r = sx_PatternType obj) (indicators d)"

lemma stored_adds: "stored d obj \<Longrightarrow> adds_rows d d' \<Longrightarrow> stored d' obj"
  by (auto simp: stored_def adds_rows_def list_ex_iff)

lemma ingest_objects_stores:
  assumes "\<And>i. tx_insert_err env i = None"
  shows "fst (ingest_objects env objs d) = Ok () \<and>
    (obj \<in> set objs \<longrightarrow> sx_Type obj = ''indicator'' \<longrightarrow> stored (snd (ingest_objects env objs d)) obj)"
proof (induction objs arbitrary: d)
  case (Cons ob objs)
  show ?case
  proof (cases "sx_Type ob = ''indicator''")
    case True
    let ?label = "case sx_Labels ob of [] \<Rightarrow> ''unknown'' | l # _ \<Rightarrow> l"
    let ?d = "snd (sql_insert_indicator (tx_now env) (sx_Pattern ob) (sx_PatternType ob) ?label d)"
    have step: "ingest_objects env (ob # objs) d = ingest_objects env objs ?d"
      using True assms by (simp add: InsertIndicator_def guarded_def sql_insert_indicator_def Let_def)
    have "stored ?d ob" by (simp add: stored_def sql_insert_indicator_def Let_def)
    then have "stored (snd (ingest_objects env objs ?d)) ob" using ingest_objects_adds stored_adds by blast
    with Cons [of ?d] step show ?thesis by auto
  next
    case False
    with Cons [of d] show ?thesis by auto
  qed
qed simp

lemma PollFeed_stores:
  assumes "\<And>i. tx_insert_err env i = None" "tx_request_err env url = None"
    "tx_do env (taxii_request url [] []) = Ok res" "hs_StatusCode res = 200" "hs_Body res = Ok body"
    "tx_unmarshal env body = Ok bundle" "sb_Type bundle = ''bundle''"
    "obj \<in> set (sb_Objects bundle)" "sx_Type obj = ''indicator''"
  shows "stored (snd (PollFeed env url [] [] d)) obj"
  using ingest_objects_stores [OF assms(1), of "sb_Objects bundle" d obj] assms(2-9)
  by (simp add: PollFeed_def IngestSTIXBundle_def)

lemma poll_all_stores:
  assumes "\<And>d. stored (snd (PollFeed env url [] [] d)) obj"
  shows "url \<in> set srcs \<Longrightarrow> stored (snd (poll_all env srcs b d)) obj"
proof (induction srcs arbitrary: b d)
  case (Cons src srcs)
  obtain r d1 where p: "PollFeed env src [] [] d = (r, d1)" by (cases "PollFeed env src [] [] d")
  show ?case
  proof (cases "url = src")
    case True
    then have "stored d1 obj" using assms [of d] p by simp
    then show ?thesis using stored_adds poll_all_adds p by fastforce
  next
    case False
    with Cons p show ?thesis by simp
  qed
qed simp

section \<open>Properties\<close>

text \<open>A synchronisation that succeeds makes the engine agree with the store: for each of the
  seven indicator types the engine answers with the last stored row of that pattern whose
  declared type maps to it, stamped with the new version of the feed; patterns the store
  does not have keep their old answer, so that an indicator is never withdrawn.\<close>

theorem Sync_spec:
  assumes "Sync env fm d engine = (Ok (), fm', d', engine')" "iocType \<in> dom engine"
  shows "Lookup pattern iocType engine' =
      (case latest pattern iocType (map (indicator_of (tx_now env) (fm_version fm + 1)) (indicators d')) of
         Some ind \<Rightarrow> Some ind
       | None \<Rightarrow> Lookup pattern iocType engine)
    \<and> fm_version fm' = fm_version fm + 1 \<and> set (indicators d) \<subseteq> set (indicators d')"
proof -
  have "engine' = Load (map (indicator_of (tx_now env) (fm_version fm + 1)) (indicators d')) engine"
    using Sync_result(1) [OF assms(1)] by (simp add: cacheIndicatorsFromStore_def split: option.splits)
  moreover have "adds_rows d d'"
    using Sync_result(3) [OF assms(1)] poll_all_adds by simp
  ultimately show ?thesis
    using Lookup_Load [OF assms(2)] Sync_result(2) [OF assms(1)] by (simp add: adds_rows_def)
qed

text \<open>C24 (roundtrip). An indicator published by a TAXII server reaches detection: if one of the sources
  answers with a bundle and the store accepts the rows, then after the synchronisation the
  engine finds every indicator of that bundle under its pattern and type, whatever the other
  sources do.\<close>

theorem published_indicator_found:
  assumes "\<And>i. tx_insert_err env i = None" "tx_query_err env = None" "tx_request_err env url = None"
    and "tx_do env (taxii_request url [] []) = Ok res" "hs_StatusCode res = 200" "hs_Body res = Ok body"
    and "tx_unmarshal env body = Ok bundle" "sb_Type bundle = ''bundle''"
    and "obj \<in> set (sb_Objects bundle)" "sx_Type obj = ''indicator''"
    and "url \<in> set (fm_sources fm)" "\<not> fm_offlineMode fm"
  shows "\<exists>fm' d' engine' ind. Sync env fm d NewReputationEngine = (Ok (), fm', d', engine')
    \<and> Lookup (sx_Pattern obj) (ioc_type_of (sx_PatternType obj)) engine' = Some ind
    \<and> in_Pattern ind = sx_Pattern obj"
proof -
  let ?t = "ioc_type_of (sx_PatternType obj)"
  obtain r fm' d' engine' where sync: "Sync env fm d NewReputationEngine = (r, fm', d', engine')"
    by (metis prod_cases4)
  have ok: "r = Ok ()" using Sync_result(1) [OF sync] assms(2) by (simp add: cacheIndicatorsFromStore_def)
  have "stored d' obj"
    using poll_all_stores [OF PollFeed_stores [OF assms(1,3-10)] assms(11)] Sync_result(3) [OF sync] assms(12) by simp
  then obtain row where row: "row \<in> set (indicators d')" "i_pattern row = sx_Pattern obj" "i_pattern_type row = sx_PatternType obj"
    by (auto simp: stored_def list_ex_iff)
  let ?inds = "map (indicator_of (tx_now env) (fm_version fm + 1)) (indicators d')"
  have "latest (sx_Pattern obj) ?t ?inds \<noteq> None"
    using row by (auto simp: latest_def find_None_iff indicator_of_def)
  then obtain ind where ind: "latest (sx_Pattern obj) ?t ?inds = Some ind" by blast
  then have "in_Pattern ind = sx_Pattern obj" by (auto simp: latest_def find_Some_iff)
  moreover have "Lookup (sx_Pattern obj) ?t engine' = Some ind"
    using Sync_spec [OF sync [unfolded ok], of ?t "sx_Pattern obj"] ind ioc_type_dom by simp
  ultimately show ?thesis using sync ok by blast
qed

text \<open>A pattern type outside the seven, such as the \<open>stix\<close> of the repository's own test bundle, is
  filed as a hash, with the whole STIX pattern as its key.\<close>

lemma stix_pattern_is_hash: "ioc_type_of ''stix'' = IOCHash"
  by (simp add: ioc_type_of_def)

section \<open>A run\<close>

definition sample_bundle :: STIXBundle where
  "sample_bundle = \<lparr>sb_Type = ''bundle'', sb_Objects = [\<lparr>sx_Type = ''indicator'', sx_ID = ''indicator--1'',
     sx_Pattern = ''evil.com'', sx_PatternType = ''domain'', sx_Labels = [''malicious'']\<rparr>]\<rparr>"

definition sample_taxii :: taxii_env where
  "sample_taxii = \<lparr>tx_now = 5, tx_unmarshal = \<lambda>s. if s = ''B'' then Ok sample_bundle else Err ''json'',
     tx_request_err = \<lambda>_. None,
     tx_do = \<lambda>q. if hq_URL q = ''https://feed'' then Ok \<lparr>hs_StatusCode = 200, hs_Status = ''200 OK'', hs_Body = Ok ''B''\<rparr>
       else Err ''no route'',
     tx_insert_err = \<lambda>_. None, tx_query_err = None\<rparr>"

definition sample_manager :: FeedManager where
  "sample_manager = AddSource ''https://feed'' (AddSource ''https://down'' NewFeedManager)"

theorem published_indicator_found_witness:
  "\<exists>fm' d' engine' ind. Sync sample_taxii sample_manager empty_db NewReputationEngine = (Ok (), fm', d', engine')
     \<and> Lookup ''evil.com'' IOCDomain engine' = Some ind \<and> in_Pattern ind = ''evil.com''"
  using published_indicator_found [of sample_taxii "''https://feed''" "\<lparr>hs_StatusCode = 200, hs_Status = ''200 OK'', hs_Body = Ok ''B''\<rparr>"
      "''B''" sample_bundle "hd (sb_Objects sample_bundle)" sample_manager empty_db]
  by (simp add: sample_taxii_def sample_bundle_def sample_manager_def AddSource_def NewFeedManager_def
      taxii_request_def ioc_type_of_def)

theorem Sync_spec_witness:
  "Lookup ''good.com'' IOCDomain (snd (snd (snd (Sync sample_taxii sample_manager empty_db NewReputationEngine)))) = None"
proof -
  let ?s = "Sync sample_taxii sample_manager empty_db NewReputationEngine"
  have ok: "fst ?s = Ok ()" by code_simp
  obtain r fm' d' re where s: "?s = (r, fm', d', re)" by (metis prod_cases4)
  have rows: "map (\<lambda>r. (i_pattern r, i_pattern_type r)) (indicators (fst (snd (snd ?s)))) = [(''evil.com'', ''domain'')]"
    by code_simp
  have "IOCDomain \<in> dom NewReputationEngine" using ioc_type_dom [of "''domain''"] by (simp add: ioc_type_of_def)
  then show ?thesis
    using Sync_spec [of sample_taxii sample_manager empty_db NewReputationEngine fm' d' re IOCDomain "''good.com''"] ok rows s
    by (auto simp: latest_def find_None_iff indicator_of_def map_eq_Cons_conv Lookup_def NewReputationEngine_def ioc_types_def)
qed

end
