(* ===== verification/Forensics.thy ===== *)
theory Forensics
  imports Storage
begin

text \<open>
  Forensics (\<open>internal/forensics\<close>): the timeline of the store (\<open>timeline.go\<close>), the evidence
  package with its hash, and the acquisition report (\<open>collector.go\<close>). JSON, SHA-256, the
  rendering of times and \<open>sort.Slice\<close> are parameters; the file system is a map and each write
  has an outcome: success, or an error that may leave a prefix of the data.
\<close>

section \<open>Timelines\<close>

record TimelineEvent =
  tv_Timestamp :: go_time
  tv_Category :: string
  tv_Description :: string

definition process_entry :: "DBProcess \<Rightarrow> TimelineEvent" where
  "process_entry p = \<lparr>tv_Timestamp = dp_LaunchedAt p, tv_Category = ''PROCESS'',
     tv_Description = ''Process executed: '' @ dp_BinaryPath p @ '' (args: '' @ dp_CommandLine p @ '') by user '' @ dp_Username p\<rparr>"

definition file_entry :: "DBFileModification \<Rightarrow> TimelineEvent" where
  "file_entry f = \<lparr>tv_Timestamp = df_OccurredAt f, tv_Category = ''FILE'',
     tv_Description = ''File '' @ df_Action f @ '': '' @ df_FilePath f\<rparr>"

definition net_entry :: "DBNetworkConnection \<Rightarrow> TimelineEvent" where
  "net_entry n = \<lparr>tv_Timestamp = dn_OccurredAt n, tv_Category = ''NETWORK'',
     tv_Description = ''Network connection: '' @ dn_Protocol n @ '' '' @ dn_LocalIP n @ '':'' @ show_int (dn_LocalPort n)
       @ '' -> '' @ dn_RemoteIP n @ '':'' @ show_int (dn_RemotePort n)\<rparr>"

definition rows_or_none :: "'a list result \<Rightarrow> 'a list" where
  "rows_or_none r = (case r of Inl _ \<Rightarrow> [] | Inr rows \<Rightarrow> rows)"

text \<open>The three queries may fail independently; a failed query contributes nothing.\<close>

record query_faults =
  qf_processes :: query_fault
  qf_files :: query_fault
  qf_nets :: query_fault

definition timeline_entries :: "query_faults \<Rightarrow> local_time \<Rightarrow> local_time \<Rightarrow> db \<Rightarrow> TimelineEvent list" where
  "timeline_entries qf start end d =
     map process_entry (rows_or_none (QueryProcesses (qf_processes qf) start end d))
     @ map file_entry (rows_or_none (QueryFileModifications (qf_files qf) start end d))
     @ map net_entry (rows_or_none (QueryNetworkConnections (qf_nets qf) start end d))"

definition BuildTimeline ::
  "(TimelineEvent list \<Rightarrow> TimelineEvent list) \<Rightarrow> query_faults \<Rightarrow> local_time \<Rightarrow> local_time \<Rightarrow> db \<Rightarrow> TimelineEvent list result" where
  "BuildTimeline srt qf start end d = Ok (srt (timeline_entries qf start end d))"

interpretation entry_sort: slice_sort "\<lambda>x y. tv_Timestamp x < tv_Timestamp y" "sort_key tv_Timestamp"
  by (rule by_key.slice_sort_axioms)

lemmas sort_entries = by_key.slice_sort_axioms [where key = tv_Timestamp]

abbreviation sorts_entries :: "(TimelineEvent list \<Rightarrow> TimelineEvent list) \<Rightarrow> bool" where
  "sorts_entries \<equiv> slice_sort (\<lambda>x y. tv_Timestamp x < tv_Timestamp y)"

lemma sorts_entries_sorted: "sorts_entries srt \<Longrightarrow> sorted (map tv_Timestamp (srt xs))"
  using slice_sort.ordered [of "\<lambda>x y. tv_Timestamp x < tv_Timestamp y" srt xs] by (simp add: sorted_map not_less)

text \<open>All entries of the store; a timeline without failing queries has those whose time the queries select.\<close>

definition no_query_faults :: query_faults where
  "no_query_faults = \<lparr>qf_processes = NoFault, qf_files = NoFault, qf_nets = NoFault\<rparr>"

definition all_entries :: "db \<Rightarrow> TimelineEvent list" where
  "all_entries d =
     map (\<lambda>r. process_entry \<lparr>dp_BinaryPath = p_binary_path r, dp_CommandLine = p_command_line r, dp_Username = p_username r,
         dp_LaunchedAt = p_launched_at r\<rparr>) (processes d)
     @ map (\<lambda>r. file_entry \<lparr>df_FilePath = f_file_path r, df_Action = f_action r, df_OccurredAt = f_occurred_at r\<rparr>) (file_modifications d)
     @ map (\<lambda>r. net_entry \<lparr>dn_Protocol = n_protocol r, dn_LocalIP = n_local_ip r, dn_LocalPort = n_local_port r,
         dn_RemoteIP = n_remote_ip r, dn_RemotePort = n_remote_port r, dn_OccurredAt = n_occurred_at r\<rparr>) (network_connections d)"

lemma entry_times [simp]:
  "tv_Timestamp (process_entry p) = dp_LaunchedAt p" "tv_Timestamp (file_entry f) = df_OccurredAt f"
  "tv_Timestamp (net_entry n) = dn_OccurredAt n"
  by (simp_all add: process_entry_def file_entry_def net_entry_def)

lemma timeline_entries_complete:
  "timeline_entries no_query_faults start end d = filter (\<lambda>e. sql_between start end (tv_Timestamp e)) (all_entries d)"
  by (simp add: timeline_entries_def no_query_faults_def all_entries_def rows_or_none_def query_def QueryProcesses_def
      QueryFileModifications_def QueryNetworkConnections_def filter_map o_def)

lemma rows_or_none_queryD:
  "x \<in> set (rows_or_none (query fault (map g (filter P rows)))) \<Longrightarrow> \<exists>r \<in> set rows. P r \<and> x = g r"
  by (cases fault) (auto simp: rows_or_none_def query_def dest!: in_set_takeD)

text \<open>Whatever fails, a timeline has no other entries.\<close>

lemma timeline_entries_sound:
  assumes "e \<in> set (timeline_entries qf start end d)"
  shows "e \<in> set (all_entries d) \<and> sql_between start end (tv_Timestamp e)"
  using assms unfolding timeline_entries_def set_append set_map
  by (auto simp: all_entries_def QueryProcesses_def QueryFileModifications_def QueryNetworkConnections_def
      dest!: rows_or_none_queryD)

text \<open>The window in Unix seconds: the texts of the bounds are on the wall clock of their zone, so the window is
  shifted by the zone's offset, and the second it starts in is not part of it.\<close>

definition datable :: "db \<Rightarrow> bool" where
  "datable d \<longleftrightarrow> list_all (\<lambda>e. dated (tv_Timestamp e div second)) (all_entries d)"

lemma timeline_window:
  assumes "datable d" "dated (wall_seconds start)" "dated (wall_seconds end)"
  shows "timeline_entries no_query_faults start end d
    = filter (\<lambda>e. wall_seconds start < tv_Timestamp e div second \<and> tv_Timestamp e div second \<le> wall_seconds end) (all_entries d)"
  unfolding timeline_entries_complete
  by (rule filter_cong) (use assms in \<open>auto simp: datable_def list_all_iff sql_between_iff\<close>)

lemma wall_Unix: "wall_seconds (in_zone tz (time_of_Unix s)) = s + unix_epoch_seconds + fst (tz (time_of_Unix s))"
  by (simp add: wall_zone time_of_Unix_def)

section \<open>Evidence\<close>

definition bslash :: char where
  "bslash = char_of (92 :: nat)"

record ProcessArtifact =
  pa_PID :: int
  pa_Name :: string
  pa_Path :: string
  pa_CommandLine :: string

record ModuleArtifact =
  ma_ProcessPID :: int
  ma_ModuleName :: string
  ma_ModulePath :: string

record ServiceArtifact =
  sa_Name :: string
  sa_Status :: string
  sa_Type :: string

record DriverArtifact =
  da_Name :: string
  da_Path :: string

record NetworkArtifact =
  nw_Protocol :: string
  nw_Local :: string
  nw_Remote :: string
  nw_State :: string

record StartupArtifact =
  su_Name :: string
  su_Path :: string

record EventLogArtifact =
  el_Provider :: string
  el_EventID :: int
  el_Timestamp :: go_time
  el_Message :: string

record RegistryArtifact =
  rg_KeyPath :: string
  rg_Value :: string

record EvidencePackage =
  ep_Timestamp :: go_time
  ep_Processes :: "ProcessArtifact list"
  ep_Modules :: "ModuleArtifact list"
  ep_Services :: "ServiceArtifact list"
  ep_Drivers :: "DriverArtifact list"
  ep_Network :: "NetworkArtifact list"
  ep_Startup :: "StartupArtifact list"
  ep_EventLogs :: "EventLogArtifact list"
  ep_Registry :: "RegistryArtifact list"
  ep_Timeline :: "TimelineEvent list"
  ep_PackageHash :: string

text \<open>The artifacts are constants of the code; only the timeline comes from the store, if the
  collector has a builder.\<close>

definition CollectEvidence ::
  "(TimelineEvent list \<Rightarrow> TimelineEvent list) \<Rightarrow> query_faults \<Rightarrow> go_time \<Rightarrow> db option \<Rightarrow> local_time \<Rightarrow> local_time \<Rightarrow> EvidencePackage result" where
  "CollectEvidence srt qf now store start end =
     Ok \<lparr>ep_Timestamp = now,
       ep_Processes = [\<lparr>pa_PID = 100, pa_Name = ''systemd'', pa_Path = ''/usr/lib/systemd/systemd'', pa_CommandLine = ''--system''\<rparr>,
         \<lparr>pa_PID = 456, pa_Name = ''aegisd'', pa_Path = ''/usr/local/bin/aegisd'', pa_CommandLine = ''--config /etc/aegis.yaml''\<rparr>],
       ep_Modules = [\<lparr>ma_ProcessPID = 456, ma_ModuleName = ''libc.so'', ma_ModulePath = ''/usr/lib/libc.so''\<rparr>],
       ep_Services = [\<lparr>sa_Name = ''aegis'', sa_Status = ''running'', sa_Type = ''systemd''\<rparr>],
       ep_Drivers = [\<lparr>da_Name = ''ext4'', da_Path = ''kernel''\<rparr>],
       ep_Network = [\<lparr>nw_Protocol = ''tcp'', nw_Local = ''127.0.0.1:50051'', nw_Remote = ''0.0.0.0:0'', nw_State = ''listen''\<rparr>],
       ep_Startup = [\<lparr>su_Name = ''aegis-boot'', su_Path = ''/etc/init.d/aegis''\<rparr>],
       ep_EventLogs = [\<lparr>el_Provider = ''systemd'', el_EventID = 1, el_Timestamp = now - 5 * 60 * second, el_Message = ''Started Aegis EDR Daemon''\<rparr>],
       ep_Registry = [\<lparr>rg_KeyPath = ''HKLM'' @ [bslash] @ ''Software'' @ [bslash] @ ''Microsoft'' @ [bslash] @ ''Windows'' @ [bslash]
         @ ''CurrentVersion'' @ [bslash] @ ''Run'', rg_Value = ''aegis''\<rparr>],
       ep_Timeline = (case store of
          None \<Rightarrow> []
        | Some d \<Rightarrow> (case BuildTimeline srt qf start end d of Inl _ \<Rightarrow> [] | Inr events \<Rightarrow> events)),
       ep_PackageHash = []\<rparr>"

section \<open>Packaging\<close>

type_synonym evidence_files = "string \<rightharpoonup> string"

text \<open>\<open>os.WriteFile\<close>: \<open>None\<close> is success; an error may leave the file alone or a prefix in it.\<close>

type_synonym write_outcome = "(go_error \<times> nat option) option"

definition write_file :: "write_outcome \<Rightarrow> string \<Rightarrow> string \<Rightarrow> evidence_files \<Rightarrow> go_error option \<times> evidence_files" where
  "write_file w path data fs =
     (case w of
        None \<Rightarrow> (None, fs(path \<mapsto> data))
      | Some (err, None) \<Rightarrow> (Some err, fs)
      | Some (err, Some n) \<Rightarrow> (Some err, fs(path \<mapsto> take n data)))"

record package_env =
  pk_marshal :: "EvidencePackage \<Rightarrow> string result"
  pk_sha256 :: "string \<Rightarrow> string"
  pk_write1 :: write_outcome
  pk_write2 :: write_outcome

text \<open>The package is passed by reference: its hash field is set for the caller too.\<close>

definition PackageEvidence ::
  "package_env \<Rightarrow> EvidencePackage \<Rightarrow> string \<Rightarrow> evidence_files \<Rightarrow> string result \<times> EvidencePackage \<times> evidence_files" where
  "PackageEvidence env pkg archivePath fs =
     (case pk_marshal env pkg of
        Inl err \<Rightarrow> (Err err, pkg, fs)
      | Inr data \<Rightarrow>
          (case write_file (pk_write1 env) archivePath data fs of
             (Some err, fs1) \<Rightarrow> (Err err, pkg, fs1)
           | (None, fs1) \<Rightarrow>
               let hashVal = pk_sha256 env data;
                   pkg1 = pkg\<lparr>ep_PackageHash := hashVal\<rparr>
               in (Ok hashVal, pkg1,
                   case pk_marshal env pkg1 of
                     Inl _ \<Rightarrow> fs1
                   | Inr dataWithHash \<Rightarrow> snd (write_file (pk_write2 env) archivePath dataWithHash fs1))))"

definition nl :: string where
  "nl = [char_of (10 :: nat)]"

definition report_line :: "(go_time \<Rightarrow> string) \<Rightarrow> nat \<Rightarrow> TimelineEvent \<Rightarrow> string" where
  "report_line fmt_time i ev = ''  ['' @ show_nat i @ ''] ['' @ fmt_time (tv_Timestamp ev) @ ''] ['' @ tv_Category ev @ ''] '' @ tv_Description ev @ nl"

fun report_lines :: "(go_time \<Rightarrow> string) \<Rightarrow> nat \<Rightarrow> TimelineEvent list \<Rightarrow> string" where
  "report_lines fmt_time i [] = []"
| "report_lines fmt_time i (ev # evs) = report_line fmt_time i ev @ report_lines fmt_time (Suc i) evs"

definition captured :: "string \<Rightarrow> 'a list \<Rightarrow> string" where
  "captured label xs = ''  - '' @ label @ '': '' @ show_nat (length xs) @ '' captured'' @ nl"

definition forensic_report :: "(go_time \<Rightarrow> string) \<Rightarrow> EvidencePackage \<Rightarrow> string" where
  "forensic_report fmt_time pkg =
     ''AEGIS DIGITAL FORENSICS ACQUISITION REPORT'' @ nl
     @ ''========================================='' @ nl
     @ ''Acquisition Time: '' @ fmt_time (ep_Timestamp pkg) @ nl
     @ ''Evidence Hash (SHA-256): '' @ ep_PackageHash pkg @ nl @ nl
     @ ''SYSTEM SUMMARY:'' @ nl
     @ captured ''Processes'' (ep_Processes pkg) @ captured ''Modules  '' (ep_Modules pkg)
     @ captured ''Services '' (ep_Services pkg) @ captured ''Drivers  '' (ep_Drivers pkg)
     @ captured ''Network  '' (ep_Network pkg) @ captured ''Startup  '' (ep_Startup pkg)
     @ captured ''EventLogs'' (ep_EventLogs pkg) @ captured ''Registry '' (ep_Registry pkg)
     @ captured ''Timeline '' (ep_Timeline pkg) @ nl
     @ ''TIMELINE EVENTS REPORT:'' @ nl
     @ report_lines fmt_time 1 (ep_Timeline pkg)"

definition GenerateForensicReport ::
  "(go_time \<Rightarrow> string) \<Rightarrow> write_outcome \<Rightarrow> EvidencePackage \<Rightarrow> string \<Rightarrow> evidence_files \<Rightarrow> go_error option \<times> evidence_files" where
  "GenerateForensicReport fmt_time w pkg reportPath fs = write_file w reportPath (forensic_report fmt_time pkg) fs"

text \<open>What becomes of the archive. A reported hash is the digest of the first encoding, whose hash field is as the
  caller gave it; the archive is written a second time with the hash in it. The outcome of the second write
  is ignored, so that success is reported although the archive may hold the first encoding, the second one or
  only a prefix of the second.\<close>

lemma package_archive:
  assumes "PackageEvidence env pkg path fs = (Ok h, pkg', fs')"
  obtains data where "pk_marshal env pkg = Ok data" "h = pk_sha256 env data" "pkg' = pkg\<lparr>ep_PackageHash := h\<rparr>"
    "fs' path = Some (case (pk_marshal env pkg', pk_write2 env) of
        (Inr data', None) \<Rightarrow> data' | (Inr data', Some (_, Some n)) \<Rightarrow> take n data' | _ \<Rightarrow> data)"
    "\<And>q. q \<noteq> path \<Longrightarrow> fs' q = fs q"
  using assms
  by (auto simp: PackageEvidence_def write_file_def Let_def split: sum.splits option.splits prod.splits)

end
