(* ===== verification/Api_Server.thy ===== *)
theory Api_Server
  imports Forensics Policy_Engine
begin

text \<open>
  The control service (\<open>pkg/api/server.go\<close>): the token interceptors, the status, containment on
  request, and the streamed timeline. The three containment engines are fields of the server
  that may be unset; a containment call acts on the \<open>host\<close> of \<open>Policy_Engine\<close>. An RPC error
  is its text. The wire encoding (\<open>aegis.pb.go\<close>, \<open>aegis_grpc.pb.go\<close>) is generated and left out;
  the messages are records.
\<close>

section \<open>Messages and server\<close>

record ResponseRequest =
  rq_Action :: string
  rq_TargetPid :: int32
  rq_TargetFile :: string

record ResponseResponse =
  rs_Success :: bool
  rs_Message :: string
  rs_ActionExecuted :: string

record StatusResponse =
  sr_Version :: string
  sr_Status :: string
  sr_CpuUsage :: f64
  sr_RamUsage :: f64

record TimelineRequest =
  tq_StartTimeEpoch :: int64
  tq_EndTimeEpoch :: int64

record TimelineMessage =
  tm_Timestamp :: string
  tm_Category :: string
  tm_Description :: string
  tm_RiskScore :: f64

text \<open>A killer may not return (\<open>None\<close>).\<close>

type_synonym 's ProcessKiller = "int \<Rightarrow> 's host \<Rightarrow> (unit result \<times> 's host) option"

record 's NetworkIsolator =
  ni_IsolateHost :: "'s host \<Rightarrow> unit result \<times> 's host"
  ni_RestoreHost :: "'s host \<Rightarrow> unit result \<times> 's host"

type_synonym 's Quarantiner = "string \<Rightarrow> string \<Rightarrow> 's host \<Rightarrow> unit result \<times> 's host"

record 's Server =
  sv_store :: "db option"
  sv_killer :: "'s ProcessKiller option"
  sv_isolator :: "'s NetworkIsolator option"
  sv_quarantiner :: "'s Quarantiner option"
  sv_token :: string

definition NewServer ::
  "db option \<Rightarrow> 's ProcessKiller option \<Rightarrow> 's NetworkIsolator option \<Rightarrow> 's Quarantiner option \<Rightarrow> string \<Rightarrow> 's Server" where
  "NewServer store killer isolator quarantiner token = \<lparr>sv_store = store, sv_killer = killer,
     sv_isolator = isolator, sv_quarantiner = quarantiner, sv_token = token\<rparr>"

section \<open>Authentication\<close>

type_synonym metadata = "string \<Rightarrow> string list"

definition unauthenticated :: "string \<Rightarrow> go_error" where
  "unauthenticated msg = ''rpc error: code = Unauthenticated desc = '' @ msg"

text \<open>Both interceptors wrap a handler, a computation on the state.\<close>

definition UnaryAuthInterceptor ::
  "'s Server \<Rightarrow> metadata option \<Rightarrow> ('h \<Rightarrow> ('r result \<times> 'h) option) \<Rightarrow> 'h \<Rightarrow> ('r result \<times> 'h) option" where
  "UnaryAuthInterceptor s incoming handler h =
     (if sv_token s = [] then handler h
      else case incoming of
        None \<Rightarrow> Some (Err (unauthenticated ''missing metadata''), h)
      | Some md \<Rightarrow>
          (case md ''x-aegis-token'' of
             [] \<Rightarrow> Some (Err (unauthenticated ''invalid token''), h)
           | t # _ \<Rightarrow> if t \<noteq> sv_token s then Some (Err (unauthenticated ''invalid token''), h) else handler h))"

definition StreamAuthInterceptor ::
  "'s Server \<Rightarrow> metadata option \<Rightarrow> ('h \<Rightarrow> unit result \<times> 'h) \<Rightarrow> 'h \<Rightarrow> unit result \<times> 'h" where
  "StreamAuthInterceptor s incoming handler h =
     (if sv_token s = [] then handler h
      else case incoming of
        None \<Rightarrow> (Err (unauthenticated ''missing metadata''), h)
      | Some md \<Rightarrow>
          (case md ''x-aegis-token'' of
             [] \<Rightarrow> (Err (unauthenticated ''invalid token''), h)
           | t # _ \<Rightarrow> if t \<noteq> sv_token s then (Err (unauthenticated ''invalid token''), h) else handler h))"

section \<open>Handlers\<close>

definition GetStatus :: "'s Server \<Rightarrow> StatusResponse result" where
  "GetStatus s = Ok \<lparr>sr_Version = ''1.0.0-Beta'', sr_Status = ''RUNNING'', sr_CpuUsage = 0, sr_RamUsage = 0\<rparr>"

definition RunScan :: "'s Server \<Rightarrow> string \<Rightarrow> unit result" where
  "RunScan s path = Ok ()"

definition executed :: "string \<Rightarrow> string \<Rightarrow> unit result \<times> 's host \<Rightarrow> ResponseResponse result \<times> 's host" where
  "executed action msg rh =
     ((case fst rh of Inl err \<Rightarrow> Err err
       | Inr _ \<Rightarrow> Ok \<lparr>rs_Success = True, rs_Message = msg, rs_ActionExecuted = action\<rparr>), snd rh)"

definition TriggerResponse ::
  "'s Server \<Rightarrow> ResponseRequest \<Rightarrow> 's host \<Rightarrow> (ResponseResponse result \<times> 's host) option" where
  "TriggerResponse s req h =
     (case (sv_killer s, sv_isolator s, sv_quarantiner s) of
        (Some killer, Some isolator, Some quarantine) \<Rightarrow>
          if rq_Action req = ''kill'' then
            (if sint (rq_TargetPid req) \<le> 0 then Some (Err ''invalid target PID'', h)
             else map_option (executed ''kill'' ''Process tree terminated successfully'') (killer (sint (rq_TargetPid req)) h))
          else if rq_Action req = ''isolate'' then
            Some (executed ''isolate'' ''Host network isolated successfully'' (ni_IsolateHost isolator h))
          else if rq_Action req = ''restore'' then
            Some (executed ''restore'' ''Host network restored successfully'' (ni_RestoreHost isolator h))
          else if rq_Action req = ''quarantine'' then
            (if rq_TargetFile req = [] then Some (Err ''target file path is required'', h)
             else Some (executed ''quarantine'' ''File placed in quarantine successfully''
               (quarantine (rq_TargetFile req) ''/var/lib/aegis/quarantine'' h)))
          else Some (Err ''unsupported action type'', h)
      | _ \<Rightarrow> Some (Err ''containment engines not initialized'', h))"

text \<open>The stream: the messages sent so far, and whether the n-th send fails.\<close>

fun send_all :: "(nat \<Rightarrow> go_error option) \<Rightarrow> TimelineMessage list \<Rightarrow> TimelineMessage list \<Rightarrow> unit result \<times> TimelineMessage list" where
  "send_all fault [] sent = (Ok (), sent)"
| "send_all fault (m # ms) sent =
     (case fault (length sent) of
        Some err \<Rightarrow> (Err err, sent)
      | None \<Rightarrow> send_all fault ms (sent @ [m]))"

abbreviation timeline_limit :: nat where "timeline_limit \<equiv> 5000"

definition timeline_message :: "(go_time \<Rightarrow> string) \<Rightarrow> TimelineEvent \<Rightarrow> TimelineMessage" where
  "timeline_message fmt_time ev = \<lparr>tm_Timestamp = fmt_time (tv_Timestamp ev), tm_Category = tv_Category ev,
     tm_Description = tv_Description ev, tm_RiskScore = 0\<rparr>"

text \<open>\<open>time.Unix\<close> gives a time in the local zone \<open>tz\<close> of the daemon.\<close>

definition GetTimeline ::
  "time_zone \<Rightarrow> (go_time \<Rightarrow> string) \<Rightarrow> (TimelineEvent list \<Rightarrow> TimelineEvent list) \<Rightarrow> query_faults \<Rightarrow> (nat \<Rightarrow> go_error option) \<Rightarrow>
     's Server \<Rightarrow> TimelineRequest \<Rightarrow> unit result \<times> TimelineMessage list" where
  "GetTimeline tz fmt_time srt qf fault s req =
     (case sv_store s of
        None \<Rightarrow> (Err ''storage engine is not initialized'', [])
      | Some d \<Rightarrow>
          let start = in_zone tz (time_of_Unix (sint (tq_StartTimeEpoch req))); stop = in_zone tz (time_of_Unix (sint (tq_EndTimeEpoch req)))
          in case BuildTimeline srt qf start stop d of
               Inl err \<Rightarrow> (Err err, [])
             | Inr events \<Rightarrow>
                 send_all fault (map (timeline_message fmt_time)
                   (if timeline_limit < length events then take timeline_limit events else events)) [])"

section \<open>The server on Linux\<close>

definition linux_server ::
  "'s os \<Rightarrow> nat \<Rightarrow> quarantine_env \<Rightarrow> string \<Rightarrow> db option \<Rightarrow> string \<Rightarrow> 's Server" where
  "linux_server os fuel env key store token = NewServer store
     (Some (\<lambda>pid h. map_option (\<lambda>(r, s). (r, h\<lparr>ho_sys := s\<rparr>)) (unix_KillTree os fuel pid (ho_sys h))))
     (Some \<lparr>ni_IsolateHost = \<lambda>h. (case linux_IsolateHost os (ho_sys h) of (r, s) \<Rightarrow> (r, h\<lparr>ho_sys := s\<rparr>)),
            ni_RestoreHost = \<lambda>h. (case linux_RestoreHost os (ho_sys h) of (r, s) \<Rightarrow> (r, h\<lparr>ho_sys := s\<rparr>))\<rparr>)
     (Some (\<lambda>src dest h. (case QuarantineFile env key src dest (ho_files h) of (r, fs) \<Rightarrow> (r, h\<lparr>ho_files := fs\<rparr>))))
     token"

text \<open>Without the token nothing happens: on a server with a token, a call whose first
  x-aegis-token is missing or different gets an error and leaves the host as it was, whatever the
  request; with the token the call is exactly the handler's.\<close>

theorem containment_needs_token:
  assumes "sv_token s \<noteq> []"
  shows "(if (case incoming of None \<Rightarrow> [] | Some md \<Rightarrow> take 1 (md ''x-aegis-token'')) = [sv_token s]
    then UnaryAuthInterceptor s incoming (TriggerResponse s req) h = TriggerResponse s req h
    else \<exists>err. UnaryAuthInterceptor s incoming (TriggerResponse s req) h = Some (Err err, h))"
  using assms by (auto simp: UnaryAuthInterceptor_def split: option.splits list.splits)

text \<open>On Linux, an authenticated kill request removes the process and all its descendants
  and nothing else, and reports success exactly if the process was alive; a PID that is not
  positive is refused before any signal is sent, so that neither a process group nor every process
  can be hit.\<close>

theorem kill_request_spec:
  assumes "unix_os os view" "ranked rank N (view (ho_sys h))" "rank (sint (rq_TargetPid req)) \<le> N" "N < fuel"
    and "rq_Action req = ''kill''"
  shows "\<exists>r h'. TriggerResponse (linux_server os fuel env key store token) req h = Some (r, h')
    \<and> (if 0 < sint (rq_TargetPid req)
       then is_ok r = (sint (rq_TargetPid req) \<in> fst ` set (view (ho_sys h)))
         \<and> view (ho_sys h') = filter (\<lambda>e. fst e \<notin> descendants (view (ho_sys h)) (sint (rq_TargetPid req))) (view (ho_sys h))
         \<and> ho_files h' = ho_files h
       else \<not> is_ok r \<and> h' = h)"
proof (cases "0 < sint (rq_TargetPid req)")
  case True
  obtain r s' where k: "unix_KillTree os fuel (sint (rq_TargetPid req)) (ho_sys h) = Some (r, s')"
    "is_ok r = (sint (rq_TargetPid req) \<in> fst ` set (view (ho_sys h)))"
    "view s' = filter (\<lambda>e. fst e \<notin> descendants (view (ho_sys h)) (sint (rq_TargetPid req))) (view (ho_sys h))"
    using KillTree_view [OF assms(1-3), of fuel] assms(4) by (auto simp: without_def)
  show ?thesis
    using True k assms(5) by (cases r) (simp_all add: TriggerResponse_def linux_server_def NewServer_def executed_def)
next
  case False
  with assms(5) show ?thesis by (simp add: TriggerResponse_def linux_server_def NewServer_def)
qed

lemma send_all_ok: "(\<And>n. fault n = None) \<Longrightarrow> send_all fault ms sent = (Ok (), sent @ ms)"
  by (induction ms arbitrary: sent) simp_all

lemma send_all_prefix: "\<exists>k. snd (send_all fault ms sent) = sent @ take k ms"
proof (induction ms arbitrary: sent)
  case (Cons m ms)
  show ?case
  proof (cases "fault (length sent)")
    case None
    obtain k where "snd (send_all fault ms (sent @ [m])) = (sent @ [m]) @ take k ms" using Cons by blast
    with None have "snd (send_all fault (m # ms) sent) = sent @ take (Suc k) (m # ms)" by simp
    then show ?thesis by blast
  next
    case (Some err)
    then have "snd (send_all fault (m # ms) sent) = sent @ take 0 (m # ms)" by simp
    then show ?thesis by blast
  qed
qed simp

text \<open>A stream without failing sends is the sorted entries up to the limit.\<close>

lemma GetTimeline_complete:
  assumes "sv_store s = Some d"
  shows "GetTimeline tz fmt_time srt qf (\<lambda>_. None) s req = (Ok (), map (timeline_message fmt_time) (take timeline_limit
    (srt (timeline_entries qf (in_zone tz (time_of_Unix (sint (tq_StartTimeEpoch req)))) (in_zone tz (time_of_Unix (sint (tq_EndTimeEpoch req)))) d))))"
proof -
  have cap: "(if timeline_limit < length events then take timeline_limit events else events) = take timeline_limit events"
    for events :: "TimelineEvent list" by simp
  show ?thesis
    unfolding GetTimeline_def BuildTimeline_def assms Let_def
    by (simp only: option.case sum.case cap send_all_ok append_Nil)
qed

text \<open>C25 (bounds). A timeline request streams at most 5000 messages, whichever query or send fails: a prefix of a list
  of entries of the store in order of time. When no query fails, that list is, for dates in the years
  1 to 9999, exactly the entries of the requested window shifted by the local zone's offset from UTC
  and without the second it starts in (the bounds reach the database as local wall clock
  texts, the rows are in UTC); when no send fails either, all of it up to the limit is streamed.\<close>

theorem GetTimeline_spec:
  assumes srt: "sorts_entries srt" and store: "sv_store s = Some d" and dates: "datable d"
    and start: "lo = sint (tq_StartTimeEpoch req) + fst (tz (time_of_Unix (sint (tq_StartTimeEpoch req))))" "dated (lo + unix_epoch_seconds)"
    and stop: "hi = sint (tq_EndTimeEpoch req) + fst (tz (time_of_Unix (sint (tq_EndTimeEpoch req))))" "dated (hi + unix_epoch_seconds)"
  shows "\<exists>events k. sorted (map tv_Timestamp events) \<and> set events \<subseteq> set (all_entries d)
    \<and> snd (GetTimeline tz fmt_time srt qf fault s req) = map (timeline_message fmt_time) (take k events) \<and> k \<le> timeline_limit
    \<and> snd (GetTimeline tz fmt_time srt qf (\<lambda>_. None) s req) = map (timeline_message fmt_time) (take timeline_limit events)
    \<and> (qf = no_query_faults \<longrightarrow> mset events = filter_mset (\<lambda>e. lo < time_Unix_seconds (tv_Timestamp e)
          \<and> time_Unix_seconds (tv_Timestamp e) \<le> hi) (mset (all_entries d)))"
proof -
  let ?s = "in_zone tz (time_of_Unix (sint (tq_StartTimeEpoch req)))" and ?e = "in_zone tz (time_of_Unix (sint (tq_EndTimeEpoch req)))"
  let ?es = "timeline_entries qf ?s ?e d"
  have cap: "(if timeline_limit < length events then take timeline_limit events else events) = take timeline_limit events"
    for events :: "TimelineEvent list" by simp
  obtain k where k: "snd (send_all fault (map (timeline_message fmt_time) (take timeline_limit (srt ?es))) [])
      = take k (map (timeline_message fmt_time) (take timeline_limit (srt ?es)))"
    using send_all_prefix [of fault _ "[]"] by (metis append_Nil)
  have "snd (GetTimeline tz fmt_time srt qf fault s req) = map (timeline_message fmt_time) (take (min k timeline_limit) (srt ?es))"
    unfolding GetTimeline_def BuildTimeline_def store Let_def using k by (simp only: option.case sum.case cap take_map take_take)
  moreover have "snd (GetTimeline tz fmt_time srt qf (\<lambda>_. None) s req) = map (timeline_message fmt_time) (take timeline_limit (srt ?es))"
    by (simp add: GetTimeline_complete [OF store])
  moreover have perm: "mset (srt ?es) = mset ?es" by (rule slice_sort.permuted [OF srt])
  moreover have "set (srt ?es) \<subseteq> set (all_entries d)"
    using timeline_entries_sound mset_eq_setD [OF perm] by blast
  moreover have "mset (srt ?es) = filter_mset (\<lambda>e. lo < time_Unix_seconds (tv_Timestamp e) \<and> time_Unix_seconds (tv_Timestamp e) \<le> hi) (mset (all_entries d))"
    if "qf = no_query_faults"
  proof -
    have w: "wall_seconds ?s = lo + unix_epoch_seconds" "wall_seconds ?e = hi + unix_epoch_seconds"
      by (simp_all add: wall_Unix start(1) stop(1))
    show ?thesis
      unfolding perm unfolding that using timeline_window [OF dates, of ?s ?e] start(2) stop(2)
      by (simp add: w time_Unix_seconds_def mset_filter algebra_simps)
  qed
  ultimately show ?thesis
    using sorts_entries_sorted [OF srt]
    by (intro exI [of _ "srt ?es"] exI [of _ "min k timeline_limit"]) simp
qed

section \<open>Samples\<close>

definition sample_server :: "ptable Server" where
  "sample_server = linux_server table_os 41 sample_qenv sample_key (Some empty_db) ''secret''"

definition kill_10 :: ResponseRequest where
  "kill_10 = \<lparr>rq_Action = ''kill'', rq_TargetPid = 10, rq_TargetFile = []\<rparr>"

definition sample_host :: "ptable host" where
  "sample_host = \<lparr>ho_sys = sample_table, ho_files = Map.empty\<rparr>"

theorem containment_needs_token_witness:
  "\<exists>err. UnaryAuthInterceptor sample_server (Some (\<lambda>_. [''guess''])) (TriggerResponse sample_server kill_10) sample_host
     = Some (Err err, sample_host)"
  using containment_needs_token [of sample_server "Some (\<lambda>_. [''guess''])" kill_10 sample_host]
  by (auto simp: sample_server_def linux_server_def NewServer_def)

theorem kill_request_spec_witness:
  "\<exists>r h'. TriggerResponse sample_server kill_10 sample_host = Some (r, h') \<and> is_ok r"
proof -
  have "ranked nat 40 sample_table" "10 \<in> fst ` set sample_table" by (simp_all add: ranked_def sample_table_def)
  moreover have "sint (10 :: int32) = 10" by code_simp
  ultimately show ?thesis
    using kill_request_spec [OF table_os_unix, of nat 40 sample_host kill_10 41 sample_qenv sample_key "Some empty_db" "''secret''"]
    by (auto simp: sample_server_def kill_10_def sample_host_def)
qed

definition active_db :: db where
  "active_db = store_run [OpProcess None (time_of_Unix 500) 1 ''/bin/sh'' ''h'' ''sh'' ''root'',
     OpFile None (time_of_Unix 8000) 1 ''/etc/x'' ''write''] empty_db"

definition etc_entry :: TimelineEvent where
  "etc_entry = file_entry \<lparr>df_FilePath = ''/etc/x'', df_Action = ''write'', df_OccurredAt = time_of_Unix 8000\<rparr>"

lemma active_db_entries:
  "all_entries active_db = [process_entry \<lparr>dp_BinaryPath = ''/bin/sh'', dp_CommandLine = ''sh'', dp_Username = ''root'',
     dp_LaunchedAt = time_of_Unix 500\<rparr>, etc_entry]"
  by (simp add: active_db_def store_run_def store_op_defs guarded_def sql_insert_defs empty_db_def process_ids_def
      current_timestamp_def all_entries_def etc_entry_def time_of_Unix_def)

text \<open>Two hours east of UTC a request for the seconds lo 0 to 1000 gets what happened at 8000 and misses the
  process launched at 500.\<close>

theorem GetTimeline_spec_witness:
  "snd (GetTimeline (\<lambda>_. (7200, ''EET'')) (\<lambda>_. ''T'') (sort_key tv_Timestamp) no_query_faults (\<lambda>_. None)
      (sample_server\<lparr>sv_store := Some active_db\<rparr>) \<lparr>tq_StartTimeEpoch = 0, tq_EndTimeEpoch = 1000\<rparr>)
   = [timeline_message (\<lambda>_. ''T'') etc_entry]"
proof -
  let ?get = "\<lambda>fault. GetTimeline (\<lambda>_. (7200, ''EET'')) (\<lambda>_. ''T'') (sort_key tv_Timestamp) no_query_faults fault
      (sample_server\<lparr>sv_store := Some active_db\<rparr>) \<lparr>tq_StartTimeEpoch = 0, tq_EndTimeEpoch = 1000\<rparr>"
  have times: "tv_Timestamp etc_entry = time_of_Unix 8000" by (simp add: etc_entry_def)
  have "datable active_db" by (simp add: datable_def active_db_entries times dated_def time_of_Unix_def)
  moreover have "sint (1000 :: int64) = 1000" by code_simp
  ultimately obtain events where "snd (?get (\<lambda>_. None)) = map (timeline_message (\<lambda>_. ''T'')) (take timeline_limit events)"
    and events: "mset events = filter_mset (\<lambda>e. 7200 < time_Unix_seconds (tv_Timestamp e) \<and> time_Unix_seconds (tv_Timestamp e) \<le> 8200)
      (mset (all_entries active_db))"
    using GetTimeline_spec [OF sort_entries, where s = "sample_server\<lparr>sv_store := Some active_db\<rparr>" and d = active_db
        and req = "\<lparr>tq_StartTimeEpoch = 0, tq_EndTimeEpoch = 1000\<rparr>" and tz = "\<lambda>_. (7200, ''EET'')" and lo = 7200 and hi = 8200
        and fmt_time = "\<lambda>_. ''T''" and qf = no_query_faults and fault = "\<lambda>_. None"]
    by (fastforce simp: dated_def)
  moreover have "events = [etc_entry]"
    using events by (simp add: active_db_entries times time_Unix_roundtrip)
  ultimately show ?thesis by simp
qed

end
