(* ===== verification/Core_Services.thy ===== *)
theory Core_Services
  imports Go_Prelude
begin

text \<open>
  The service core (\<open>internal/core\<close>): lifecycle and shutdown hooks, the service manager, the
  event bus, the dependency container, health, startup diagnostics, the scheduler and the
  bootstrap. Hooks, services and tasks are the embedding program's code: they are identified
  by a value and their effect on the world \<open>'w\<close> is a parameter. Go iterates over a map in an
  unspecified order, which is the parameter \<open>order\<close>.
\<close>

section \<open>Registries\<close>

text \<open>The service manager, the dependency container and the plugin manager are maps with the same
  contract: what was registered last under a name is what is found, and other names are
  left alone.\<close>

locale registry =
  fixes register :: "'k \<Rightarrow> 'v \<Rightarrow> 'r \<Rightarrow> 'r"
    and find_in :: "'k \<Rightarrow> 'r \<Rightarrow> 'v option"
  assumes find_registered: "find_in k (register k v r) = Some v"
    and find_other: "k \<noteq> k' \<Longrightarrow> find_in k' (register k v r) = find_in k' r"
begin

definition register_all :: "('k \<times> 'v) list \<Rightarrow> 'r \<Rightarrow> 'r" where
  "register_all kvs r = fold (\<lambda>(k, v). register k v) kvs r"

text \<open>After any sequence of registrations each name has its last value.\<close>

lemma find_register_all:
  "find_in k (register_all kvs r) = (case map_of (rev kvs) k of Some v \<Rightarrow> Some v | None \<Rightarrow> find_in k r)"
proof (induction kvs arbitrary: r)
  case Nil
  then show ?case by (simp add: register_all_def)
next
  case (Cons kv kvs)
  obtain k1 v1 where kv: "kv = (k1, v1)" by (cases kv)
  have "register_all (kv # kvs) r = register_all kvs (register k1 v1 r)" by (simp add: register_all_def kv)
  then show ?case
    using Cons [of "register k1 v1 r"] find_registered find_other
    by (cases "k1 = k") (auto simp: kv map_add_def split: option.splits)
qed

end

section \<open>Lifecycle\<close>

datatype AppState = StateInitializing | StateRunning | StateStopping | StateStopped

record 'h LifecycleManager =
  lm_state :: AppState
  lm_shutdownHooks :: "'h list"

definition NewLifecycleManager :: "'h LifecycleManager" where
  "NewLifecycleManager = \<lparr>lm_state = StateInitializing, lm_shutdownHooks = []\<rparr>"

definition GetState :: "'h LifecycleManager \<Rightarrow> AppState" where
  "GetState lm = lm_state lm"

definition SetState :: "AppState \<Rightarrow> 'h LifecycleManager \<Rightarrow> 'h LifecycleManager" where
  "SetState state lm = lm\<lparr>lm_state := state\<rparr>"

definition RegisterShutdownHook :: "'h \<Rightarrow> 'h LifecycleManager \<Rightarrow> 'h LifecycleManager" where
  "RegisterShutdownHook hook lm = lm\<lparr>lm_shutdownHooks := lm_shutdownHooks lm @ [hook]\<rparr>"

text \<open>The hooks run without the lock on the list as it was when the shutdown began; a hook may
  itself call the manager, so it transforms the manager together with the world.\<close>

type_synonym ('h, 'w) hook_effect = "'h \<Rightarrow> 'h LifecycleManager \<times> 'w \<Rightarrow> 'h LifecycleManager \<times> 'w"

definition TriggerShutdown :: "('h, 'w) hook_effect \<Rightarrow> 'h LifecycleManager \<times> 'w \<Rightarrow> 'h LifecycleManager \<times> 'w" where
  "TriggerShutdown run s =
     (let lm = SetState StateStopping (fst s);
          s' = fold run (lm_shutdownHooks lm) (lm, snd s)
      in (SetState StateStopped (fst s'), snd s'))"

text \<open>The log of a shutdown: which hook ran in which state.\<close>

definition logging :: "('h, 'w) hook_effect \<Rightarrow> ('h, 'w \<times> ('h \<times> AppState) list) hook_effect" where
  "logging run h s = (case run h (fst s, fst (snd s)) of (lm, w) \<Rightarrow> (lm, w, snd (snd s) @ [(h, lm_state (fst s))]))"

lemma logging_hooks:
  "map fst (snd (snd (fold (logging run) hooks s))) = map fst (snd (snd s)) @ hooks"
  by (induction hooks arbitrary: s) (simp_all add: logging_def split: prod.split)

lemma logging_states:
  assumes "\<And>h lm w. lm_state (fst (run h (lm, w))) = lm_state lm"
  shows "snd ` set (snd (snd (fold (logging run) hooks s))) \<subseteq> snd ` set (snd (snd s)) \<union> {lm_state (fst s)}"
proof (induction hooks arbitrary: s)
  case (Cons h hooks)
  let ?s = "logging run h s"
  have "lm_state (fst ?s) = lm_state (fst s)" "snd (snd ?s) = snd (snd s) @ [(h, lm_state (fst s))]"
    using assms [of h "fst s" "fst (snd s)"]
    by (simp_all add: logging_def case_prod_beta)
  with Cons [of ?s] show ?case by auto
qed auto

text \<open>A shutdown runs exactly the hooks registered when it starts, once each and in the order of
  registration, also if a hook registers further ones; the manager is in the state
  stopping while they run, as long as no hook sets the state, and stopped afterwards.\<close>

theorem shutdown_spec:
  assumes "\<And>h lm w. lm_state (fst (run h (lm, w))) = lm_state lm"
  shows "map fst (snd (snd (TriggerShutdown (logging run) (lm, w, [])))) = lm_shutdownHooks lm
    \<and> snd ` set (snd (snd (TriggerShutdown (logging run) (lm, w, [])))) \<subseteq> {StateStopping}
    \<and> GetState (fst (TriggerShutdown (logging run) (lm, w, []))) = StateStopped"
  using logging_hooks [of run "lm_shutdownHooks lm" "(lm\<lparr>lm_state := StateStopping\<rparr>, w, [])"]
    logging_states [of run "lm_shutdownHooks lm" "(lm\<lparr>lm_state := StateStopping\<rparr>, w, [])"] assms
  by (simp add: TriggerShutdown_def SetState_def GetState_def Let_def)

theorem shutdown_spec_witness:
  "map fst (snd (snd (TriggerShutdown (logging (\<lambda>h (lm, w). (RegisterShutdownHook 3 lm, w + h)))
     (RegisterShutdownHook 2 (RegisterShutdownHook 1 NewLifecycleManager), 0, [])))) = [1, 2 :: nat]"
  using shutdown_spec [of "\<lambda>(h :: nat) (lm, w). (RegisterShutdownHook 3 lm, w + h)"
      "RegisterShutdownHook 2 (RegisterShutdownHook 1 NewLifecycleManager)" 0]
  by (simp add: RegisterShutdownHook_def NewLifecycleManager_def)

section \<open>Services\<close>

datatype ServiceStatus = StatusStopped | StatusStarting | StatusRunning | StatusStopping | StatusFailed

text \<open>The interface \<open>AegisService\<close>: the effects of a service on the world.\<close>

record ('v, 'w) service_ops =
  so_Start :: "'v \<Rightarrow> 'w \<Rightarrow> go_error option \<times> 'w"
  so_Stop :: "'v \<Rightarrow> 'w \<Rightarrow> go_error option \<times> 'w"
  so_Status :: "'v \<Rightarrow> 'w \<Rightarrow> ServiceStatus"

type_synonym 'v ServiceManager = "string \<rightharpoonup> 'v"

definition NewServiceManager :: "'v ServiceManager" where
  "NewServiceManager = Map.empty"

definition sm_Register :: "string \<Rightarrow> 'v \<Rightarrow> 'v ServiceManager \<Rightarrow> 'v ServiceManager" where
  "sm_Register name service sm = sm(name \<mapsto> service)"

fun start_services :: "('v, 'w) service_ops \<Rightarrow> 'v list \<Rightarrow> 'w \<Rightarrow> go_error option \<times> 'w" where
  "start_services ops [] w = (None, w)"
| "start_services ops (v # vs) w =
     (case so_Start ops v w of
        (Some err, w') \<Rightarrow> (Some err, w')
      | (None, w') \<Rightarrow> start_services ops vs w')"

definition in_order :: "string list \<Rightarrow> 'v ServiceManager \<Rightarrow> 'v list" where
  "in_order order sm = List.map_filter sm order"

definition StartAll :: "('v, 'w) service_ops \<Rightarrow> string list \<Rightarrow> 'v ServiceManager \<Rightarrow> 'w \<Rightarrow> go_error option \<times> 'w" where
  "StartAll ops order sm w = start_services ops (in_order order sm) w"

definition StopAll :: "('v, 'w) service_ops \<Rightarrow> string list \<Rightarrow> 'v ServiceManager \<Rightarrow> 'w \<Rightarrow> 'w" where
  "StopAll ops order sm w = fold (\<lambda>v w. snd (so_Stop ops v w)) (in_order order sm) w"

definition GetStatus :: "('v, 'w) service_ops \<Rightarrow> string \<Rightarrow> 'v ServiceManager \<Rightarrow> 'w \<Rightarrow> ServiceStatus \<times> bool" where
  "GetStatus ops name sm w =
     (case sm name of None \<Rightarrow> (StatusStopped, False) | Some srv \<Rightarrow> (so_Status ops srv w, True))"

interpretation services: registry sm_Register "\<lambda>name sm. sm name"
  by unfold_locales (simp_all add: sm_Register_def)

text \<open>The manager reports on the service registered last under a name.\<close>

lemma GetStatus_last_registered:
  "GetStatus ops name (services.register_all kvs sm) w =
     (case map_of (rev kvs) name of
        Some srv \<Rightarrow> (so_Status ops srv w, True)
      | None \<Rightarrow> GetStatus ops name sm w)"
  by (simp add: GetStatus_def services.find_register_all split: option.split)

section \<open>The dependency container\<close>

text \<open>Instances by type; a resolved instance is returned with the type it was registered under.\<close>

type_synonym 'v DIContainer = "string \<rightharpoonup> 'v"

definition di_Register :: "string \<Rightarrow> 'v \<Rightarrow> 'v DIContainer \<Rightarrow> 'v DIContainer" where
  "di_Register t instance_value c = c(t \<mapsto> instance_value)"

definition di_Resolve :: "string \<Rightarrow> 'v DIContainer \<Rightarrow> 'v result" where
  "di_Resolve t c = (case c t of None \<Rightarrow> Err (''dependency of type '' @ t @ '' not registered'') | Some v \<Rightarrow> Ok v)"

interpretation container: registry di_Register "\<lambda>t c. case di_Resolve t c of Inl _ \<Rightarrow> None | Inr v \<Rightarrow> Some v"
  by unfold_locales (auto simp: di_Register_def di_Resolve_def split: option.split)

section \<open>The event bus\<close>

text \<open>Channels are buffers of capacity 100, addressed by their position; a subscriber's reads are
  steps of their own.\<close>

record 'd bus_event =
  be_Topic :: string
  be_Data :: 'd

record 'd EventBus =
  eb_chans :: "'d bus_event list list"
  eb_subscribers :: "string \<Rightarrow> nat list"

abbreviation chan_capacity :: nat where "chan_capacity \<equiv> 100"

definition NewEventBus :: "'d EventBus" where
  "NewEventBus = \<lparr>eb_chans = [], eb_subscribers = (\<lambda>_. [])\<rparr>"

definition Subscribe :: "string \<Rightarrow> 'd EventBus \<Rightarrow> nat \<times> 'd EventBus" where
  "Subscribe topic eb =
     (let ch = length (eb_chans eb)
      in (ch, eb\<lparr>eb_chans := eb_chans eb @ [[]],
                 eb_subscribers := (eb_subscribers eb)(topic := eb_subscribers eb topic @ [ch])\<rparr>))"

definition try_send :: "'d bus_event \<Rightarrow> nat \<Rightarrow> 'd bus_event list list \<Rightarrow> 'd bus_event list list" where
  "try_send ev ch chans = (if length (chans ! ch) < chan_capacity then chans[ch := chans ! ch @ [ev]] else chans)"

definition Publish :: "'d bus_event \<Rightarrow> 'd EventBus \<Rightarrow> 'd EventBus" where
  "Publish ev eb = eb\<lparr>eb_chans := fold (try_send ev) (eb_subscribers eb (be_Topic ev)) (eb_chans eb)\<rparr>"

definition eb_Receive :: "nat \<Rightarrow> 'd EventBus \<Rightarrow> 'd EventBus" where
  "eb_Receive ch eb = eb\<lparr>eb_chans := (eb_chans eb)[ch := tl (eb_chans eb ! ch)]\<rparr>"

section \<open>Delivery\<close>

text \<open>Every subscription has a channel of its own.\<close>

definition bus_ok :: "'d EventBus \<Rightarrow> bool" where
  "bus_ok eb \<longleftrightarrow> (\<forall>t. distinct (eb_subscribers eb t) \<and> set (eb_subscribers eb t) \<subseteq> {..< length (eb_chans eb)})
     \<and> (\<forall>t u. t \<noteq> u \<longrightarrow> set (eb_subscribers eb t) \<inter> set (eb_subscribers eb u) = {})
     \<and> (\<forall>q \<in> set (eb_chans eb). length q \<le> chan_capacity)"

datatype 'd bus_op = BusSubscribe string | BusPublish "'d bus_event" | BusReceive nat

fun bus_step :: "'d bus_op \<Rightarrow> 'd EventBus \<Rightarrow> 'd EventBus" where
  "bus_step (BusSubscribe topic) eb = snd (Subscribe topic eb)"
| "bus_step (BusPublish ev) eb = Publish ev eb"
| "bus_step (BusReceive ch) eb = (if ch < length (eb_chans eb) then eb_Receive ch eb else eb)"

lemma try_send_length [simp]: "length (try_send ev ch chans) = length chans"
  by (simp add: try_send_def)

lemma try_send_all_length [simp]: "length (fold (try_send ev) chs chans) = length chans"
  by (induction chs arbitrary: chans) simp_all

lemma try_send_nth:
  "ch < length chans \<Longrightarrow> try_send ev ch chans ! c =
     (if c = ch \<and> length (chans ! c) < chan_capacity then chans ! c @ [ev] else chans ! c)"
  by (auto simp: try_send_def nth_list_update)

lemma try_send_all_nth:
  "distinct chs \<Longrightarrow> set chs \<subseteq> {..< length chans} \<Longrightarrow>
   fold (try_send ev) chs chans ! c =
     (if c \<in> set chs \<and> length (chans ! c) < chan_capacity then chans ! c @ [ev] else chans ! c)"
proof (induction chs arbitrary: chans)
  case (Cons ch chs)
  then have "ch < length chans" by auto
  with Cons.IH [of "try_send ev ch chans"] Cons.prems show ?case
    by (auto simp: try_send_nth)
qed simp

lemma Subscribe_ok [invs]: "bus_ok eb \<Longrightarrow> bus_ok (snd (Subscribe topic eb))"
  by (fastforce simp: bus_ok_def Subscribe_def Let_def)

lemma Publish_ok [invs]:
  assumes "bus_ok eb"
  shows "bus_ok (Publish ev eb)"
proof -
  let ?chs = "eb_subscribers eb (be_Topic ev)" and ?chans = "fold (try_send ev) (eb_subscribers eb (be_Topic ev)) (eb_chans eb)"
  have "length (?chans ! c) \<le> chan_capacity" if "c < length ?chans" for c
    using assms that try_send_all_nth [of ?chs "eb_chans eb" ev c] by (auto simp: bus_ok_def)
  then have "\<forall>q \<in> set ?chans. length q \<le> chan_capacity" by (metis in_set_conv_nth)
  with assms show ?thesis by (simp add: bus_ok_def Publish_def)
qed

lemma Receive_ok [invs]:
  assumes "bus_ok eb" "ch < length (eb_chans eb)"
  shows "bus_ok (eb_Receive ch eb)"
proof -
  have "length (eb_chans eb ! ch) \<le> chan_capacity" using assms by (simp add: bus_ok_def)
  then have "length (tl (eb_chans eb ! ch)) \<le> chan_capacity" by simp
  with assms(1) show ?thesis
    unfolding bus_ok_def eb_Receive_def by (auto dest!: subsetD [OF set_update_subset_insert])
qed

lemma bus_run_ok: "bus_ok (fold bus_step ops NewEventBus)"
proof (induction ops rule: rev_induct)
  case Nil
  then show ?case by (simp add: bus_ok_def NewEventBus_def)
next
  case (snoc op ops)
  then show ?case by (cases op) (simp_all add: Subscribe_ok Publish_ok Receive_ok)
qed

text \<open>C33 (functional). Publishing on the event bus, in whatever state subscriptions, publications and reads
  have left it, appends the event exactly once to each channel subscribed to its topic that has
  room, never blocks on the full ones, and touches no other channel.\<close>

theorem Publish_spec:
  assumes "eb = fold bus_step ops NewEventBus"
  shows "length (eb_chans (Publish ev eb)) = length (eb_chans eb)
    \<and> eb_chans (Publish ev eb) ! ch =
       (if ch \<in> set (eb_subscribers eb (be_Topic ev)) \<and> length (eb_chans eb ! ch) < chan_capacity
        then eb_chans eb ! ch @ [ev] else eb_chans eb ! ch)"
  using bus_run_ok [of ops] try_send_all_nth [of "eb_subscribers eb (be_Topic ev)" "eb_chans eb" ev ch]
  by (simp add: assms bus_ok_def Publish_def)

theorem Publish_spec_witness:
  "eb_chans (Publish \<lparr>be_Topic = ''a'', be_Data = 7 :: nat\<rparr> (fold bus_step [BusSubscribe ''a'', BusSubscribe ''b''] NewEventBus)) ! 0
     = [\<lparr>be_Topic = ''a'', be_Data = 7\<rparr>]"
  using Publish_spec [OF refl, of "\<lparr>be_Topic = ''a'', be_Data = 7 :: nat\<rparr>" "[BusSubscribe ''a'', BusSubscribe ''b'']" 0]
  by (simp add: Subscribe_def NewEventBus_def Let_def)

section \<open>Health, diagnostics, scheduling, bootstrap\<close>

record HealthReport =
  hr_OverallStatus :: string
  hr_NumGoroutines :: int
  hr_AllocatedMem :: uint64

text \<open>The report does not depend on the service manager it is given.\<close>

definition health_Check :: "'v ServiceManager \<Rightarrow> int \<Rightarrow> uint64 \<Rightarrow> HealthReport" where
  "health_Check sm numGoroutine alloc = \<lparr>hr_OverallStatus = ''OK'', hr_NumGoroutines = numGoroutine, hr_AllocatedMem = alloc\<rparr>"

text \<open>The write test: a failed write is the error; a failed removal is ignored and leaves the file.\<close>

definition diagnostic_file :: string where
  "diagnostic_file = ''/tmp/aegis_diagnostic_write_test''"

definition diagnostics_Run ::
  "go_error option \<Rightarrow> go_error option \<Rightarrow> (string \<rightharpoonup> string) \<Rightarrow> go_error option \<times> (string \<rightharpoonup> string)" where
  "diagnostics_Run write_err remove_err fs =
     (case write_err of
        Some err \<Rightarrow> (Some err, fs)
      | None \<Rightarrow> (None, case remove_err of
          Some _ \<Rightarrow> fs(diagnostic_file \<mapsto> ''ok'')
        | None \<Rightarrow> (fs(diagnostic_file \<mapsto> ''ok''))(diagnostic_file := None)))"

text \<open>A task either returns or panics with a value; the scheduler recovers the panic.\<close>

definition runTask :: "('w \<Rightarrow> string option \<times> 'w) \<Rightarrow> 'w \<times> string list \<Rightarrow> 'w \<times> string list" where
  "runTask task s = (case task (fst s) of (None, w) \<Rightarrow> (w, snd s) | (Some r, w) \<Rightarrow> (w, snd s @ [r]))"

text \<open>A scheduler: whether its context or the parent's is cancelled, its tasks, each with a flag that
  its goroutine is still running, and the world with the log of panics.\<close>

type_synonym 'w task = "'w \<Rightarrow> string option \<times> 'w"

record 'w Scheduler =
  sd_parentDone :: bool
  sd_cancelled :: bool
  sd_tasks :: "('w task \<times> bool) list"
  sd_world :: "'w \<times> string list"

definition NewScheduler :: "'w \<Rightarrow> 'w Scheduler" where
  "NewScheduler w = \<lparr>sd_parentDone = False, sd_cancelled = False, sd_tasks = [], sd_world = (w, [])\<rparr>"

definition Schedule :: "'w task \<Rightarrow> 'w Scheduler \<Rightarrow> 'w Scheduler" where
  "Schedule task s = s\<lparr>sd_tasks := sd_tasks s @ [(task, True)]\<rparr>"

definition scheduler_Stop :: "'w Scheduler \<Rightarrow> 'w Scheduler" where
  "scheduler_Stop s = s\<lparr>sd_cancelled := True\<rparr>"

text \<open>Steps: a call of \<open>Schedule\<close> or \<open>Stop\<close>, the end of the parent context, a tick of the \<open>i\<close>-th task's ticker and
  its loop's return. A loop whose context is cancelled may still choose its ticker.\<close>

datatype 'w sched_label = SchedTask "'w task" | SchedStop | ParentDone | Ticked nat | SawDone nat

definition loop_runs :: "nat \<Rightarrow> 'w Scheduler \<Rightarrow> bool" where
  "loop_runs i s \<longleftrightarrow> i < length (sd_tasks s) \<and> snd (sd_tasks s ! i)"

fun sched_step :: "'w sched_label \<Rightarrow> 'w Scheduler \<Rightarrow> 'w Scheduler option" where
  "sched_step (SchedTask task) s = Some (Schedule task s)"
| "sched_step SchedStop s = Some (scheduler_Stop s)"
| "sched_step ParentDone s = Some (s\<lparr>sd_parentDone := True\<rparr>)"
| "sched_step (Ticked i) s =
     (if loop_runs i s then Some (s\<lparr>sd_world := runTask (fst (sd_tasks s ! i)) (sd_world s)\<rparr>) else None)"
| "sched_step (SawDone i) s =
     (if loop_runs i s \<and> (sd_cancelled s \<or> sd_parentDone s)
      then Some (s\<lparr>sd_tasks := (sd_tasks s)[i := (fst (sd_tasks s ! i), False)]\<rparr>) else None)"

fun sched_run :: "'w sched_label list \<Rightarrow> 'w Scheduler \<Rightarrow> 'w Scheduler option" where
  "sched_run [] s = Some s"
| "sched_run (l # ls) s = Option.bind (sched_step l s) (sched_run ls)"

text \<open>A panicking task neither stops its loop nor another's: without \<open>Stop\<close> and the parent's end every
  task scheduled is running, whatever the tasks did.\<close>

definition all_running :: "'w Scheduler \<Rightarrow> bool" where
  "all_running s \<longleftrightarrow> \<not> sd_cancelled s \<and> \<not> sd_parentDone s \<and> list_all snd (sd_tasks s)"

lemma sched_survives_panics:
  assumes "sched_run ls s = Some s'" "all_running s" "SchedStop \<notin> set ls" "ParentDone \<notin> set ls"
  shows "all_running s'"
  using assms
proof (induction ls arbitrary: s)
  case (Cons l ls)
  then obtain s1 where step: "sched_step l s = Some s1" and rest: "sched_run ls s1 = Some s'"
    by (auto simp: bind_eq_Some_conv)
  have "all_running s1"
    using step Cons.prems(2-) by (cases l) (auto simp: all_running_def Schedule_def split: if_splits)
  with Cons.IH rest Cons.prems(3,4) show ?case by simp
qed simp

text \<open>A task whose loop has returned is never run again, and no step makes it run.\<close>

lemma stopped_task_rests:
  assumes "sched_run ls s = Some s'" "i < length (sd_tasks s)" "\<not> snd (sd_tasks s ! i)"
  shows "i < length (sd_tasks s') \<and> \<not> snd (sd_tasks s' ! i) \<and> Ticked i \<notin> set ls"
  using assms
proof (induction ls arbitrary: s)
  case (Cons l ls)
  then obtain s1 where step: "sched_step l s = Some s1" and rest: "sched_run ls s1 = Some s'"
    by (auto simp: bind_eq_Some_conv)
  have "i < length (sd_tasks s1) \<and> \<not> snd (sd_tasks s1 ! i) \<and> l \<noteq> Ticked i"
    using step Cons.prems(2,3)
    by (cases l) (auto simp: Schedule_def scheduler_Stop_def loop_runs_def nth_append nth_list_update split: if_splits)
  with Cons.IH [OF rest] show ?case by auto
qed simp

record ('h, 'v) bootstrap =
  bo_LM :: "'h LifecycleManager"
  bo_SM :: "'v ServiceManager"
  bo_Container :: "string DIContainer"

definition NewBootstrap :: "('h, 'v) bootstrap" where
  "NewBootstrap = \<lparr>bo_LM = NewLifecycleManager, bo_SM = NewServiceManager, bo_Container = Map.empty\<rparr>"

text \<open>The container holds pointers to the two managers, here by name.\<close>

definition bootstrap_Initialize ::
  "go_error option \<Rightarrow> go_error option \<Rightarrow> ('h, 'v) bootstrap \<Rightarrow> (string \<rightharpoonup> string) \<Rightarrow>
     go_error option \<times> ('h, 'v) bootstrap \<times> (string \<rightharpoonup> string)" where
  "bootstrap_Initialize write_err remove_err b fs =
     (case diagnostics_Run write_err remove_err fs of
        (Some err, fs') \<Rightarrow> (Some err, b, fs')
      | (None, fs') \<Rightarrow> (None, b\<lparr>bo_Container := di_Register ''*core.ServiceManager'' ''SM''
          (di_Register ''*core.LifecycleManager'' ''LM'' (bo_Container b))\<rparr>, fs'))"

text \<open>\<open>Run\<close> up to the signal and from the signal on.\<close>

definition bootstrap_Run :: "('h, 'w) hook_effect \<Rightarrow> ('h, 'v) bootstrap \<Rightarrow> 'w \<Rightarrow> ('h, 'v) bootstrap \<times> 'w" where
  "bootstrap_Run run b w =
     (let lm = SetState StateStopping (SetState StateRunning (bo_LM b));
          (lm', w') = TriggerShutdown run (lm, w)
      in (b\<lparr>bo_LM := lm'\<rparr>, w'))"

end
