(* ===== verification/Plugin_Manager.thy ===== *)
theory Plugin_Manager
  imports Core_Services
begin

text \<open>
  The plugin manager (\<open>pkg/sdk/plugin/plugin.go\<close>): registration with version check,
  initialisation and start, removal, hot reload, capability negotiation, and the execution of
  a WASM module. A plugin is a record of its methods, with their effect on the world \<open>'w\<close>; the
  WASM runtime is a record of the calls the code makes. Where a WASM function returns fewer
  results than the code indexes, Go panics: the result is \<open>None\<close>.
\<close>

section \<open>Plugins\<close>

abbreviation APIVersion :: string where "APIVersion \<equiv> ''1.0.0''"

type_synonym PluginCapability = string

record PluginMetadata =
  pm_Name :: string
  pm_Version :: string
  pm_APIVersion :: string
  pm_Capabilities :: "PluginCapability list"

record 'w AegisPlugin =
  pl_Metadata :: PluginMetadata
  pl_Init :: "'w \<Rightarrow> go_error option \<times> 'w"
  pl_Start :: "'w \<Rightarrow> go_error option \<times> 'w"
  pl_Stop :: "'w \<Rightarrow> go_error option \<times> 'w"
  pl_Execute :: "PluginCapability \<Rightarrow> string \<Rightarrow> 'w \<Rightarrow> string result \<times> 'w"

type_synonym 'w Manager = "string \<rightharpoonup> 'w AegisPlugin"

definition NewManager :: "'w Manager" where
  "NewManager = Map.empty"

definition plugin_store :: "string \<Rightarrow> 'w AegisPlugin \<Rightarrow> 'w Manager \<Rightarrow> 'w Manager" where
  "plugin_store name p m = m(name \<mapsto> p)"

interpretation plugins: registry plugin_store "\<lambda>name m. m name"
  by unfold_locales (simp_all add: plugin_store_def)

definition RegisterPlugin :: "'w AegisPlugin \<Rightarrow> 'w Manager \<times> 'w \<Rightarrow> unit result \<times> 'w Manager \<times> 'w" where
  "RegisterPlugin p s =
     (let meta = pl_Metadata p in
      if pm_Name meta = [] then (Err ''plugin name cannot be empty'', s)
      else if pm_APIVersion meta \<noteq> APIVersion
      then (Err (''plugin API version mismatch: expected '' @ APIVersion @ '', got '' @ pm_APIVersion meta), s)
      else case pl_Init p (snd s) of
        (Some err, w1) \<Rightarrow> (Err (''plugin init failed: '' @ err), fst s, w1)
      | (None, w1) \<Rightarrow>
          (case pl_Start p w1 of
             (Some err, w2) \<Rightarrow> (Err (''plugin start failed: '' @ err), fst s, w2)
           | (None, w2) \<Rightarrow> (Ok (), plugin_store (pm_Name meta) p (fst s), w2)))"

definition UnregisterPlugin :: "string \<Rightarrow> 'w Manager \<times> 'w \<Rightarrow> unit result \<times> 'w Manager \<times> 'w" where
  "UnregisterPlugin name s =
     (case fst s name of
        None \<Rightarrow> (Err (''plugin '' @ name @ '' not registered''), s)
      | Some p \<Rightarrow> (Ok (), (fst s)(name := None), snd (pl_Stop p (snd s))))"

definition HotReloadPlugin :: "'w AegisPlugin \<Rightarrow> 'w Manager \<times> 'w \<Rightarrow> unit result \<times> 'w Manager \<times> 'w" where
  "HotReloadPlugin p s = RegisterPlugin p (snd (UnregisterPlugin (pm_Name (pl_Metadata p)) s))"

text \<open>\<open>Close\<close> stops every plugin, in the order of the map iteration, and closes the runtime.\<close>

definition Close :: "string list \<Rightarrow> ('w \<Rightarrow> go_error option \<times> 'w) \<Rightarrow> 'w Manager \<times> 'w \<Rightarrow> go_error option \<times> 'w" where
  "Close order runtime_Close s =
     runtime_Close (fold (\<lambda>p w. snd (pl_Stop p w)) (List.map_filter (fst s) order) (snd s))"

text \<open>\<open>Metadata()\<close> is a method of the plugin that is called anew on each request; here it is taken to give the same value
  each time. Lookup, check and execution are one step, although the manager's lock is
  released after the lookup: a plugin that is unregistered meanwhile still runs in the code.\<close>

definition NegotiateAndExecute ::
  "string \<Rightarrow> PluginCapability \<Rightarrow> string \<Rightarrow> 'w Manager \<times> 'w \<Rightarrow> string result \<times> 'w" where
  "NegotiateAndExecute name cap input s =
     (case fst s name of
        None \<Rightarrow> (Err (''plugin '' @ name @ '' not found''), snd s)
      | Some p \<Rightarrow>
          if \<not> list_ex (\<lambda>c. c = cap) (pm_Capabilities (pl_Metadata p))
          then (Err (''capability negotiation failed: plugin '' @ name @ '' does not support '' @ cap), snd s)
          else pl_Execute p cap input (snd s))"

section \<open>WASM modules\<close>

text \<open>An instance with its memory is a value of type \<open>'i\<close>. An export is a function from words to
  words that may fail.\<close>

type_synonym 'i wasm_function = "uint64 list \<Rightarrow> 'i \<Rightarrow> uint64 list result \<times> 'i"

record ('c, 'i) wasm_runtime =
  wr_CompileModule :: "string \<Rightarrow> 'c result"
  wr_InstantiateModule :: "'c \<Rightarrow> 'i result"
  wr_ExportedFunction :: "'i \<Rightarrow> string \<Rightarrow> 'i wasm_function option"
  wr_Write :: "uint64 \<Rightarrow> string \<Rightarrow> 'i \<Rightarrow> 'i option"
  wr_Read :: "uint64 \<Rightarrow> uint64 \<Rightarrow> 'i \<Rightarrow> string option"

definition uint32_of :: "uint64 \<Rightarrow> uint64" where
  "uint32_of x = take_bit 32 x"

definition ExecutePlugin :: "('c, 'i) wasm_runtime \<Rightarrow> string \<Rightarrow> string \<Rightarrow> string result option" where
  "ExecutePlugin rt wasmBytes inputData =
     (case wr_CompileModule rt wasmBytes of
        Inl err \<Rightarrow> Some (Err err)
      | Inr code \<Rightarrow>
        (case wr_InstantiateModule rt code of
           Inl err \<Rightarrow> Some (Err err)
         | Inr m \<Rightarrow>
           (case (wr_ExportedFunction rt m ''malloc'', wr_ExportedFunction rt m ''free'', wr_ExportedFunction rt m ''run'') of
              (Some alloc, Some free, Some run) \<Rightarrow>
                let inputLen = word_of_nat (length inputData) :: uint64 in
                (case alloc [inputLen] m of
                   (Inl err, m1) \<Rightarrow> Some (Err err)
                 | (Inr [], m1) \<Rightarrow> None
                 | (Inr (inputPtr # _), m1) \<Rightarrow>
                   (case wr_Write rt (uint32_of inputPtr) inputData m1 of
                      None \<Rightarrow> Some (Err ''failed to write input bytes to WASM memory'')
                    | Some m2 \<Rightarrow>
                      (case run [inputPtr, inputLen] m2 of
                         (Inl err, m3) \<Rightarrow> Some (Err err)
                       | (Inr (outputPtr # outputLen # _), m3) \<Rightarrow>
                           (case wr_Read rt (uint32_of outputPtr) (uint32_of outputLen) m3 of
                              None \<Rightarrow> Some (Err ''failed to read output bytes from WASM memory'')
                            | Some out \<Rightarrow> Some (Ok out))
                       | (Inr _, m3) \<Rightarrow> None)))
            | _ \<Rightarrow> Some (Err ''missing expected WASM exports: malloc, free, run''))))"

section \<open>Properties\<close>

text \<open>The manager never holds a plugin under another name or of another API version.\<close>

definition manager_ok :: "'w Manager \<Rightarrow> bool" where
  "manager_ok m \<longleftrightarrow> (\<forall>name p. m name = Some p \<longrightarrow> pm_Name (pl_Metadata p) = name \<and> name \<noteq> []
     \<and> pm_APIVersion (pl_Metadata p) = APIVersion)"

datatype 'w plugin_op = PlRegister "'w AegisPlugin" | PlUnregister string | PlReload "'w AegisPlugin"

fun plugin_step :: "'w plugin_op \<Rightarrow> 'w Manager \<times> 'w \<Rightarrow> 'w Manager \<times> 'w" where
  "plugin_step (PlRegister p) s = snd (RegisterPlugin p s)"
| "plugin_step (PlUnregister name) s = snd (UnregisterPlugin name s)"
| "plugin_step (PlReload p) s = snd (HotReloadPlugin p s)"

lemma Register_ok [invs]: "manager_ok (fst s) \<Longrightarrow> manager_ok (fst (snd (RegisterPlugin p s)))"
  by (auto simp: RegisterPlugin_def manager_ok_def plugin_store_def Let_def split: prod.split option.split)

lemma Unregister_ok [invs]: "manager_ok (fst s) \<Longrightarrow> manager_ok (fst (snd (UnregisterPlugin name s)))"
  by (auto simp: UnregisterPlugin_def manager_ok_def split: option.split)

lemma plugin_run_ok: "manager_ok (fst s) \<Longrightarrow> manager_ok (fst (fold plugin_step ops s))"
proof (induction ops arbitrary: s)
  case (Cons op ops)
  then have "manager_ok (fst (plugin_step op s))"
    by (cases op) (simp_all add: HotReloadPlugin_def Register_ok Unregister_ok)
  with Cons show ?case by simp
qed simp

text \<open>C32 (safety). After any history of registrations, removals and reloads, an execution request is answered by
  the plugin's code only if a plugin of exactly that name is registered, was built for the
  supported API version and declares the capability; otherwise the request fails and no plugin
  code runs.\<close>

theorem execution_negotiated:
  assumes "s = fold plugin_step ops (NewManager, w)"
  shows "(\<exists>p. fst s name = Some p \<and> pm_Name (pl_Metadata p) = name \<and> pm_APIVersion (pl_Metadata p) = APIVersion
        \<and> cap \<in> set (pm_Capabilities (pl_Metadata p))
        \<and> NegotiateAndExecute name cap input s = pl_Execute p cap input (snd s))
    \<or> (\<exists>err. NegotiateAndExecute name cap input s = (Err err, snd s))"
proof -
  have "manager_ok (fst s)" unfolding assms by (rule plugin_run_ok) (simp add: manager_ok_def NewManager_def)
  then show ?thesis
    by (cases "fst s name") (auto simp: NegotiateAndExecute_def manager_ok_def list_ex_iff)
qed

text \<open>A failed hot reload takes the running plugin away: when the new version is rejected for its
  API version, the old one has already been stopped and removed, and executing it fails from
  then on.\<close>

theorem failed_reload_removes_plugin:
  assumes "fst s (pm_Name (pl_Metadata p)) = Some old" "pm_Name (pl_Metadata p) \<noteq> []"
    and "pm_APIVersion (pl_Metadata p) \<noteq> APIVersion"
  shows "\<not> is_ok (fst (HotReloadPlugin p s))
    \<and> fst (snd (HotReloadPlugin p s)) (pm_Name (pl_Metadata p)) = None
    \<and> snd (snd (HotReloadPlugin p s)) = snd (pl_Stop old (snd s))
    \<and> \<not> is_ok (fst (NegotiateAndExecute (pm_Name (pl_Metadata p)) cap input (snd (HotReloadPlugin p s))))"
  using assms by (simp add: HotReloadPlugin_def UnregisterPlugin_def RegisterPlugin_def NegotiateAndExecute_def Let_def)

section \<open>Samples\<close>

definition sample_plugin :: "string \<Rightarrow> nat AegisPlugin" where
  "sample_plugin v = \<lparr>pl_Metadata = \<lparr>pm_Name = ''scan'', pm_Version = ''1'', pm_APIVersion = v, pm_Capabilities = [''Detection'']\<rparr>,
     pl_Init = \<lambda>w. (None, w), pl_Start = \<lambda>w. (None, w + 1), pl_Stop = \<lambda>w. (None, w - 1),
     pl_Execute = \<lambda>cap input w. (Ok (rev input), w)\<rparr>"

theorem execution_negotiated_witness:
  "\<exists>err. NegotiateAndExecute ''scan'' ''Intel'' ''x'' (fold plugin_step [PlRegister (sample_plugin ''1.0.0'')] (NewManager, 0))
     = (Err err, 1)"
  using execution_negotiated [OF refl, of "[PlRegister (sample_plugin ''1.0.0'')]" 0 "''scan''" "''Intel''" "''x''"]
  by (auto simp: RegisterPlugin_def sample_plugin_def plugin_store_def NewManager_def Let_def)

theorem failed_reload_removes_plugin_witness:
  "fst (snd (HotReloadPlugin (sample_plugin ''2.0.0'') (NewManager(''scan'' \<mapsto> sample_plugin ''1.0.0''), 1))) ''scan'' = None"
  using failed_reload_removes_plugin [of "(NewManager(''scan'' \<mapsto> sample_plugin ''1.0.0''), 1)" "sample_plugin ''2.0.0''" "sample_plugin ''1.0.0''"]
  by (simp add: sample_plugin_def)

end
