(* ===== verification/Detectors.thy ===== *)
theory Detectors
  imports Go_Prelude
begin

text \<open>
  The detection engines: Sigma rules (\<open>internal/sigma/sigma.go\<close>), memory maps
  (\<open>internal/heuristics/heuristics.go\<close>) and YARA (\<open>internal/yara/yara.go\<close>). The YAML decoder
  and the YARA library are parameters. A Go map is iterated in an unspecified order: a
  detection map is the list of its entries in the order in which the loop meets them.
\<close>

section \<open>Sigma rules\<close>

text \<open>Decoded values of type \<open>interface{}\<close>: strings, slices, maps, and anything else.\<close>

datatype any = AString string | ASlice "any list" | AMap "(string \<times> any) list" | AOther string

record Logsource =
  ls_Category :: string
  ls_Product :: string

record SigmaRule =
  sg_Title :: string
  sg_Description :: string
  sg_Logsource :: Logsource
  sg_Detection :: "(string \<times> any) list"

type_synonym sigma_engine = "SigmaRule list"

type_synonym event_map = "string \<rightharpoonup> any"

definition AddRule :: "(string \<Rightarrow> SigmaRule result) \<Rightarrow> string \<Rightarrow> sigma_engine \<Rightarrow> unit result \<times> sigma_engine" where
  "AddRule unmarshal content e =
     (case unmarshal content of
        Inl err \<Rightarrow> (Err err, e)
      | Inr rule \<Rightarrow> (Ok (), e @ [rule]))"

text \<open>The type assertion \<open>v.(string)\<close>, on a missing entry too.\<close>

fun as_string :: "any option \<Rightarrow> string option" where
  "as_string (Some (AString s)) = Some s"
| "as_string _ = None"

fun any_match :: "any list \<Rightarrow> string \<Rightarrow> bool" where
  "any_match [] field = False"
| "any_match (expected # es) field =
     (case as_string (Some expected) of
        Some s \<Rightarrow> if s = field then True else any_match es field
      | None \<Rightarrow> any_match es field)"

fun match_detection :: "event_map \<Rightarrow> (string \<times> any) list \<Rightarrow> bool" where
  "match_detection m [] = True"
| "match_detection m ((key, v) # ds) =
     (if key = ''condition'' then match_detection m ds
      else case v of
        ASlice expected \<Rightarrow>
          (case as_string (m key) of
             None \<Rightarrow> False
           | Some field \<Rightarrow> if any_match expected field then match_detection m ds else False)
      | AString expected \<Rightarrow>
          (case as_string (m key) of
             None \<Rightarrow> False
           | Some field \<Rightarrow> if field \<noteq> expected then False else match_detection m ds)
      | _ \<Rightarrow> False)"

fun Evaluate :: "sigma_engine \<Rightarrow> event_map \<Rightarrow> string list" where
  "Evaluate [] m = []"
| "Evaluate (rule # rules) m =
     (if ls_Category (sg_Logsource rule) \<noteq> []
         \<and> as_string (m ''category'') \<noteq> Some (ls_Category (sg_Logsource rule))
      then Evaluate rules m
      else if match_detection m (sg_Detection rule) then sg_Title rule # Evaluate rules m
      else Evaluate rules m)"

section \<open>What a rule matches\<close>

text \<open>The meaning of an entry, without the loops: the field is a string that is the expected
  one or one of the expected ones.\<close>

definition entry_holds :: "event_map \<Rightarrow> string \<times> any \<Rightarrow> bool" where
  "entry_holds m d \<longleftrightarrow> fst d = ''condition'' \<or>
     (\<exists>s. m (fst d) = Some (AString s)
        \<and> (snd d = AString s \<or> (\<exists>vs. snd d = ASlice vs \<and> AString s \<in> set vs)))"

definition rule_matches :: "event_map \<Rightarrow> SigmaRule \<Rightarrow> bool" where
  "rule_matches m r \<longleftrightarrow>
     (ls_Category (sg_Logsource r) = [] \<or> m ''category'' = Some (AString (ls_Category (sg_Logsource r))))
     \<and> (\<forall>d \<in> set (sg_Detection r). entry_holds m d)"

lemma as_string_Some: "as_string v = Some s \<longleftrightarrow> v = Some (AString s)"
  by (cases v rule: as_string.cases) auto

lemma any_match_iff: "any_match es field \<longleftrightarrow> AString field \<in> set es"
  by (induction es) (auto simp: as_string_Some split: option.split)

lemma entry_holds_Some:
  "entry_holds m (key, v) \<longleftrightarrow> key = ''condition'' \<or>
     (case as_string (m key) of None \<Rightarrow> False
      | Some s \<Rightarrow> (case v of AString e \<Rightarrow> e = s | ASlice vs \<Rightarrow> any_match vs s | _ \<Rightarrow> False))"
  by (auto simp: entry_holds_def any_match_iff as_string_Some split: option.split any.split)

lemma match_detection_iff: "match_detection m ds \<longleftrightarrow> (\<forall>d \<in> set ds. entry_holds m d)"
  by (induction m ds rule: match_detection.induct)
    (auto simp: entry_holds_Some split: option.split any.split)

lemma match_detection_order: "mset ds = mset ds' \<Longrightarrow> match_detection m ds = match_detection m ds'"
  by (metis match_detection_iff set_mset_mset)

text \<open>C27 (equivalence). The engine returns the titles of exactly the rules that match, in the order in which
  they were added: the early exits of its loops, and the unspecified order in which Go visits
  the detection map, make no difference.\<close>

theorem Evaluate_spec:
  assumes "list_all2 (\<lambda>r r'. sg_Title r = sg_Title r' \<and> sg_Logsource r = sg_Logsource r'
    \<and> mset (sg_Detection r) = mset (sg_Detection r')) rules visited"
  shows "Evaluate visited m = map sg_Title (filter (rule_matches m) rules)"
proof -
  have "Evaluate visited m = map sg_Title (filter (rule_matches m) visited)" for visited
    by (induction visited) (auto simp: rule_matches_def match_detection_iff as_string_Some)
  moreover have "Evaluate rules m = Evaluate visited m"
    using assms by (induction rule: list_all2_induct) (auto dest: match_detection_order [of _ _ m])
  ultimately show ?thesis by metis
qed

text \<open>A rule written the way Sigma rules are, with its search identifiers as maps
  (\<open>selection: {Image: /bin/sh}\<close>) and a condition over them, matches no event at all, whatever the
  engine holds besides it.\<close>

theorem nested_selection_never_matches:
  assumes "(key, AMap nested) \<in> set (sg_Detection r)" "key \<noteq> ''condition''"
  shows "Evaluate (rules @ r # rules') m = Evaluate (rules @ rules') m"
proof -
  have "\<not> match_detection m (sg_Detection r)"
    using assms by (fastforce simp: match_detection_iff entry_holds_def)
  then show ?thesis by (induction rules) auto
qed

text \<open>The rule with which the self-diagnosis tests the engine (\<open>internal/doctor/doctor.go\<close>).\<close>

definition doctor_rule :: SigmaRule where
  "doctor_rule = \<lparr>sg_Title = ''Test Rule'', sg_Description = [],
     sg_Logsource = \<lparr>ls_Category = ''process_creation'', ls_Product = []\<rparr>,
     sg_Detection = [(''selection'', AMap [(''Image'', AString ''/bin/sh'')]), (''condition'', AString ''selection'')]\<rparr>"

theorem nested_selection_never_matches_witness:
  "Evaluate [doctor_rule] [''category'' \<mapsto> AString ''process_creation'', ''Image'' \<mapsto> AString ''/bin/sh''] = []"
  using nested_selection_never_matches [of "''selection''" "[(''Image'', AString ''/bin/sh'')]" doctor_rule "[]" "[]"]
  by (simp add: doctor_rule_def)

theorem Evaluate_spec_witness:
  "Evaluate [\<lparr>sg_Title = ''T'', sg_Description = [], sg_Logsource = \<lparr>ls_Category = [], ls_Product = []\<rparr>,
      sg_Detection = [(''image'', ASlice [AString ''a'', AString ''b'']), (''user'', AString ''root'')]\<rparr>]
     [''image'' \<mapsto> AString ''b'', ''user'' \<mapsto> AString ''root''] = [''T'']"
  using Evaluate_spec [of "[\<lparr>sg_Title = ''T'', sg_Description = [], sg_Logsource = \<lparr>ls_Category = [], ls_Product = []\<rparr>,
      sg_Detection = [(''user'', AString ''root''), (''image'', ASlice [AString ''a'', AString ''b''])]\<rparr>]"
    "[\<lparr>sg_Title = ''T'', sg_Description = [], sg_Logsource = \<lparr>ls_Category = [], ls_Product = []\<rparr>,
      sg_Detection = [(''image'', ASlice [AString ''a'', AString ''b'']), (''user'', AString ''root'')]\<rparr>]"
    "[''image'' \<mapsto> AString ''b'', ''user'' \<mapsto> AString ''root'']"]
  by (simp add: rule_matches_def entry_holds_def)

section \<open>Memory maps\<close>

text \<open>\<open>fmt.Sscanf(s, "%x", &v)\<close> on a 64-bit target: the longest prefix of hexadecimal digits; the
  target keeps its zero when there is none or the number does not fit.\<close>

definition hex_val :: "char \<Rightarrow> int option" where
  "hex_val c = (let n = of_char c :: nat in
     if 48 \<le> n \<and> n \<le> 57 then Some (int (n - 48))
     else if 97 \<le> n \<and> n \<le> 102 then Some (int (n - 87))
     else if 65 \<le> n \<and> n \<le> 70 then Some (int (n - 55))
     else None)"

fun read_hex :: "int \<Rightarrow> string \<Rightarrow> int" where
  "read_hex v [] = v"
| "read_hex v (c # s) = (case hex_val c of None \<Rightarrow> v | Some d \<Rightarrow> read_hex (16 * v + d) s)"

definition Sscanf_hex :: "string \<Rightarrow> uint64" where
  "Sscanf_hex s = (let v = read_hex 0 s in if v < 18446744073709551616 then word_of_int v else 0)"

text \<open>\<open>bufio.Scanner\<close> with lines: a trailing carriage return is dropped, a last line without newline
  counts unless it is empty, and a line that does not fit the buffer ends the scan with an error.\<close>

definition drop_cr :: "string \<Rightarrow> string" where
  "drop_cr l = (if l \<noteq> [] \<and> last l = char_of (13 :: nat) then butlast l else l)"

definition scan_raw :: "string \<Rightarrow> string list" where
  "scan_raw s = (let ls = Split newline s in if last ls = [] then butlast ls else ls)"

abbreviation max_token :: int where "max_token \<equiv> 65536"

fun scan_lines :: "go_error option \<Rightarrow> string list \<Rightarrow> string list \<times> go_error option" where
  "scan_lines read_err [] = ([], read_err)"
| "scan_lines read_err (l # ls) =
     (if max_token \<le> int (length l) then ([], Some ''bufio.Scanner: token too long'')
      else case scan_lines read_err ls of (lines, err) \<Rightarrow> (drop_cr l # lines, err))"

record MemoryRegion =
  mr_Start :: uint64
  mr_End :: uint64
  mr_Permissions :: string
  mr_Path :: string

definition parse_map_line :: "string \<Rightarrow> MemoryRegion option" where
  "parse_map_line line =
     (let fields = Fields line
      in if length fields < 5 then None
         else let addrRange = Split (CHR ''-'') (fields ! 0)
              in if length addrRange \<noteq> 2 then None
                 else Some \<lparr>mr_Start = Sscanf_hex (addrRange ! 0), mr_End = Sscanf_hex (addrRange ! 1),
                   mr_Permissions = fields ! 1, mr_Path = (if 6 \<le> length fields then fields ! 5 else [])\<rparr>)"

definition ParseMaps :: "go_error option \<Rightarrow> string \<Rightarrow> MemoryRegion list \<times> go_error option" where
  "ParseMaps read_err content =
     (case scan_lines read_err (scan_raw content) of
        (lines, err) \<Rightarrow> (List.map_filter parse_map_line lines, err))"

text \<open>\<open>/proc/<pid>/maps\<close>: the outcome of opening it, and of reading it.\<close>

definition ScanProcessMaps ::
  "(string \<Rightarrow> (string \<times> go_error option) result) \<Rightarrow> int \<Rightarrow> MemoryRegion list \<times> go_error option" where
  "ScanProcessMaps os_open pid =
     (case os_open (''/proc/'' @ show_int pid @ ''/maps'') of
        Inl err \<Rightarrow> ([], Some err)
      | Inr (content, read_err) \<Rightarrow> ParseMaps read_err content)"

definition DetectSuspiciousRegions :: "MemoryRegion list \<Rightarrow> MemoryRegion list" where
  "DetectSuspiciousRegions regions =
     filter (\<lambda>r. Contains (mr_Permissions r) ''w'' \<and> Contains (mr_Permissions r) ''x'') regions"

section \<open>Reading back the kernel's format\<close>

fun show_hex :: "nat \<Rightarrow> string" where
  "show_hex n = (if n < 16 then [hex_digit n] else show_hex (n div 16) @ [hex_digit (n mod 16)])"

declare show_hex.simps [simp del]

lemma hex_val_digit: "d < 16 \<Longrightarrow> hex_val (hex_digit d) = Some (int d)"
  by (simp add: hex_val_def of_char_hex_digit)

lemma hex_digit_plain: "d < 16 \<Longrightarrow> \<not> is_space (hex_digit d) \<and> hex_digit d \<noteq> CHR ''-''"
proof
  show "\<not> is_space (hex_digit d)" if "d < 16" using that by (simp add: is_space_def of_char_hex_digit)
  have "of_char (CHR ''-'') = (45 :: nat)" by simp
  then show "hex_digit d \<noteq> CHR ''-''" if "d < 16" using of_char_hex_digit [OF that] by (auto split: if_splits)
qed

lemma show_hex_plain: "c \<in> set (show_hex n) \<Longrightarrow> \<not> is_space c \<and> c \<noteq> CHR ''-''"
proof (induction n rule: show_hex.induct)
  case (1 n)
  then show ?case
    by (subst (asm) (2) show_hex.simps) (auto simp: hex_digit_plain split: if_splits)
qed

lemma read_hex_append:
  "\<forall>c \<in> set s. hex_val c \<noteq> None \<Longrightarrow> read_hex v (s @ t) = read_hex (read_hex v s) t"
  by (induction s arbitrary: v) auto

lemma show_hex_read: "(\<forall>c \<in> set (show_hex n). hex_val c \<noteq> None) \<and> read_hex 0 (show_hex n) = int n"
proof (induction n rule: show_hex.induct)
  case (1 n)
  show ?case
  proof (cases "n < 16")
    case True
    then show ?thesis by (subst (1 2) show_hex.simps) (simp add: hex_val_digit)
  next
    case False
    with 1 have IH: "\<forall>c \<in> set (show_hex (n div 16)). hex_val c \<noteq> None" "read_hex 0 (show_hex (n div 16)) = int (n div 16)"
      by simp_all
    have "read_hex 0 (show_hex (n div 16) @ [hex_digit (n mod 16)]) = 16 * int (n div 16) + int (n mod 16)"
      by (simp add: read_hex_append [OF IH(1)] IH(2) hex_val_digit)
    also have "\<dots> = int n" by (simp only: of_nat_div of_nat_mod of_nat_numeral mult_div_mod_eq)
    finally show ?thesis using False IH(1) by (subst (1 2) show_hex.simps) (auto simp: hex_val_digit)
  qed
qed

text \<open>Padded with zeros to a least width, like \<open>%08lx\<close>.\<close>

definition hex_pad :: "nat \<Rightarrow> nat \<Rightarrow> string" where
  "hex_pad w n = replicate (w - length (show_hex n)) (CHR ''0'') @ show_hex n"

lemma hex_pad_plain: "c \<in> set (hex_pad w n) \<Longrightarrow> \<not> is_space c \<and> c \<noteq> CHR ''-''"
proof -
  have "\<not> is_space (CHR ''0'')" by code_simp
  then show "c \<in> set (hex_pad w n) \<Longrightarrow> \<not> is_space c \<and> c \<noteq> CHR ''-''"
    using show_hex_plain [of c n] by (auto simp: hex_pad_def)
qed

lemma read_hex_zeros: "read_hex 0 (replicate k (CHR ''0'') @ s) = read_hex 0 s"
  by (induction k) (simp_all add: hex_val_def)

lemma Sscanf_hex_pad [simp]: "Sscanf_hex (hex_pad w (unat u)) = (u :: uint64)"
proof -
  have "int (unat u) < 18446744073709551616"
    using uint_lt2p [of u] by simp
  then show ?thesis by (simp add: Sscanf_hex_def hex_pad_def read_hex_zeros show_hex_read)
qed

definition is_word :: "string \<Rightarrow> bool" where
  "is_word w \<longleftrightarrow> w \<noteq> [] \<and> (\<forall>c \<in> set w. \<not> is_space c)"

lemma fields_from_word:
  "\<forall>c \<in> set w. \<not> is_space c \<Longrightarrow> fields_from acc (w @ s) = fields_from (rev w @ acc) s"
  by (induction w arbitrary: acc) auto

lemma Fields_word:
  assumes "is_word w" "is_space c"
  shows "Fields (w @ c # s) = w # Fields s"
  using assms fields_from_word [of w "[]" "c # s"] by (simp add: Fields_def is_word_def)

lemma Fields_blanks: "is_space c \<Longrightarrow> Fields (replicate n c @ s) = Fields s"
  by (induction n) (simp_all add: Fields_def)

lemma Fields_last_word: "is_word w \<Longrightarrow> Fields w = [w]"
  using fields_from_word [of w "[]" "[]"] by (simp add: Fields_def is_word_def)

text \<open>One line as the kernel prints it (\<open>%08lx-%08lx %s %08llx %02x:%02x %lu\<close>): the range, the permissions, offset, device
  and inode, then blanks that align the path, and the path, which may be empty or contain blanks. Permissions and
  path are ASCII, with no white space but the blanks of the path.\<close>

record map_entry =
  me_region :: MemoryRegion
  me_offset :: nat
  me_major :: nat
  me_minor :: nat
  me_inode :: nat
  me_blanks :: nat

definition map_line :: "map_entry \<Rightarrow> string" where
  "map_line e = hex_pad 8 (unat (mr_Start (me_region e))) @ ''-'' @ hex_pad 8 (unat (mr_End (me_region e))) @ '' ''
     @ mr_Permissions (me_region e) @ '' '' @ hex_pad 8 (me_offset e) @ '' '' @ hex_pad 2 (me_major e) @ '':'' @ hex_pad 2 (me_minor e)
     @ '' '' @ show_nat (me_inode e) @ '' '' @ replicate (me_blanks e) (CHR '' '') @ mr_Path (me_region e)"

definition ascii :: "string \<Rightarrow> bool" where
  "ascii s \<longleftrightarrow> list_all (\<lambda>c. (of_char c :: nat) < 128) s"

definition map_entry_ok :: "map_entry \<Rightarrow> bool" where
  "map_entry_ok e \<longleftrightarrow> is_word (mr_Permissions (me_region e)) \<and> ascii (mr_Permissions (me_region e))
     \<and> ascii (mr_Path (me_region e)) \<and> list_all (\<lambda>c. is_space c \<longrightarrow> c = CHR '' '') (mr_Path (me_region e))
     \<and> int (length (map_line e)) < max_token"

text \<open>What the parser keeps of an entry: of the path only its first word.\<close>

definition first_word :: "string \<Rightarrow> string" where
  "first_word p = (case Fields p of [] \<Rightarrow> [] | w # _ \<Rightarrow> w)"

definition seen_region :: "map_entry \<Rightarrow> MemoryRegion" where
  "seen_region e = (me_region e)\<lparr>mr_Path := first_word (mr_Path (me_region e))\<rparr>"

lemma space_is_space [simp]: "is_space (CHR '' '')"
  by code_simp

lemma hex_words:
  "is_word (hex_pad w m)" "is_word (hex_pad w m @ CHR ''-'' # hex_pad v n)" "is_word (hex_pad w m @ CHR '':'' # hex_pad v n)"
  "is_word (show_nat k)"
proof -
  have "show_hex i \<noteq> []" for i by (subst show_hex.simps) simp
  moreover have "\<not> is_space (CHR ''-'')" "\<not> is_space (CHR '':'')" by code_simp+
  ultimately show "is_word (hex_pad w m)" "is_word (hex_pad w m @ CHR ''-'' # hex_pad v n)" "is_word (hex_pad w m @ CHR '':'' # hex_pad v n)"
    using hex_pad_plain by (auto simp: is_word_def) (auto simp: hex_pad_def)
  show "is_word (show_nat k)"
    using show_nat_digits [of _ k] is_space_digit by (auto simp: is_word_def list_all_iff)
qed

lemma Split_range: "Split (CHR ''-'') (hex_pad w m @ CHR ''-'' # hex_pad v n) = [hex_pad w m, hex_pad v n]"
proof -
  have "CHR ''-'' \<notin> set (hex_pad w m)" "CHR ''-'' \<notin> set (hex_pad v n)" using hex_pad_plain by blast+
  then show ?thesis by (simp add: Split_single)
qed

lemma parse_map_line_entry:
  assumes "map_entry_ok e"
  shows "parse_map_line (map_line e) = Some (seen_region e)"
proof -
  let ?r = "me_region e"
  let ?range = "hex_pad 8 (unat (mr_Start ?r)) @ CHR ''-'' # hex_pad 8 (unat (mr_End ?r))"
  let ?dev = "hex_pad 2 (me_major e) @ CHR '':'' # hex_pad 2 (me_minor e)"
  have line: "map_line e = ?range @ CHR '' '' # mr_Permissions ?r @ CHR '' '' # hex_pad 8 (me_offset e) @ CHR '' '' # ?dev
      @ CHR '' '' # show_nat (me_inode e) @ CHR '' '' # replicate (me_blanks e) (CHR '' '') @ mr_Path ?r"
    by (simp add: map_line_def)
  have "Fields (map_line e) = [?range, mr_Permissions ?r, hex_pad 8 (me_offset e), ?dev, show_nat (me_inode e)] @ Fields (mr_Path ?r)"
    unfolding line using assms by (simp only: Fields_word Fields_blanks hex_words map_entry_ok_def space_is_space append.simps)
  then show ?thesis
    by (cases "Fields (mr_Path ?r)") (auto simp: parse_map_line_def Split_range seen_region_def first_word_def)
qed

lemma map_line_chars:
  assumes "map_entry_ok e" "c \<in> set (map_line e)" "is_space c"
  shows "c = CHR '' ''"
proof -
  have "\<not> is_space (CHR ''-'')" "\<not> is_space (CHR '':'')" by code_simp+
  then show ?thesis
    using assms hex_words(4) [of "me_inode e"] hex_pad_plain
    by (auto simp: map_line_def map_entry_ok_def is_word_def list_all_iff)
qed

lemma scan_raw_lines:
  assumes "\<And>l. l \<in> set ls \<Longrightarrow> newline \<notin> set l"
  shows "scan_raw (concat (map (\<lambda>l. l @ [newline]) ls)) = ls"
proof -
  have "Split newline (concat (map (\<lambda>l. l @ [newline]) ls)) = ls @ [[]]"
    using assms by (induction ls) simp_all
  then show ?thesis by (simp add: scan_raw_def)
qed

lemma drop_cr_line: "map_entry_ok e \<Longrightarrow> drop_cr (map_line e) = map_line e"
proof -
  assume ok: "map_entry_ok e"
  have "is_space (char_of (13 :: nat))" "char_of (13 :: nat) \<noteq> CHR '' ''" by code_simp+
  then show ?thesis
    using map_line_chars [OF ok, of "char_of (13 :: nat)"] last_in_set [of "map_line e"] unfolding drop_cr_def by metis
qed

lemma scan_entries:
  "\<forall>e \<in> set es. map_entry_ok e \<Longrightarrow> scan_lines read_err (map map_line es) = (map map_line es, read_err)"
  by (induction es) (auto simp: drop_cr_line map_entry_ok_def)

lemma Contains_single: "Contains s [c] \<longleftrightarrow> c \<in> set s"
  by (induction s) (auto simp: HasPrefix_def)

text \<open>C28 (roundtrip). Parsing a memory map as the kernel prints it, with ASCII paths, gives back every region, with
  its addresses and permissions and the first word of its path, and the suspicious regions are then exactly
  those whose permissions contain both w and x, in the order of the map; a read error is passed on with the
  regions of the lines before it.\<close>

theorem ParseMaps_roundtrip:
  assumes "\<forall>e \<in> set es. map_entry_ok e"
  shows "ParseMaps read_err (concat (map (\<lambda>e. map_line e @ [newline]) es)) = (map seen_region es, read_err)
    \<and> DetectSuspiciousRegions (fst (ParseMaps read_err (concat (map (\<lambda>e. map_line e @ [newline]) es))))
      = filter (\<lambda>r. {CHR ''w'', CHR ''x''} \<subseteq> set (mr_Permissions r)) (map seen_region es)"
proof -
  have nl: "is_space newline" "newline \<noteq> CHR '' ''" by code_simp+
  have "scan_raw (concat (map (\<lambda>e. map_line e @ [newline]) es)) = map map_line es"
    using scan_raw_lines [of "map map_line es"] map_line_chars nl assms by (fastforce simp: comp_def)
  moreover have "List.map_filter parse_map_line (map map_line es) = map seen_region es"
    using assms by (induction es) (simp_all add: List.map_filter_simps parse_map_line_entry)
  ultimately show ?thesis
    using scan_entries [OF assms] by (simp add: ParseMaps_def DetectSuspiciousRegions_def Contains_single)
qed

text \<open>A program, and a region of a file whose name has a blank.\<close>

definition ls_entry :: map_entry where
  "ls_entry = \<lparr>me_region = \<lparr>mr_Start = 0x400000, mr_End = 0x452000, mr_Permissions = ''r-xp'', mr_Path = ''/bin/ls''\<rparr>,
     me_offset = 0, me_major = 8, me_minor = 2, me_inode = 173832, me_blanks = 5\<rparr>"

definition sample_entry :: map_entry where
  "sample_entry = \<lparr>me_region = \<lparr>mr_Start = 0x7ffdd9dfd000, mr_End = 0x7ffdd9e1e000, mr_Permissions = ''rwxp'', mr_Path = ''/tmp/a b''\<rparr>,
     me_offset = 0, me_major = 0, me_minor = 0, me_inode = 0, me_blanks = 2\<rparr>"

lemma replicate_numeral: "replicate (numeral k) x = x # replicate (pred_numeral k) x"
  by (simp add: numeral_eq_Suc)

lemma digits_eval:
  "hex_digit 0 = CHR ''0''" "hex_digit (Suc 0) = CHR ''1''" "hex_digit 2 = CHR ''2''" "hex_digit 3 = CHR ''3''"
  "hex_digit 4 = CHR ''4''" "hex_digit 5 = CHR ''5''" "hex_digit 6 = CHR ''6''" "hex_digit 7 = CHR ''7''"
  "hex_digit 8 = CHR ''8''" "hex_digit 9 = CHR ''9''" "hex_digit 10 = CHR ''a''" "hex_digit 11 = CHR ''b''"
  "hex_digit 12 = CHR ''c''" "hex_digit 13 = CHR ''d''" "hex_digit 14 = CHR ''e''" "hex_digit 15 = CHR ''f''"
  "digit 0 = CHR ''0''" "digit (Suc 0) = CHR ''1''" "digit 2 = CHR ''2''" "digit 3 = CHR ''3''" "digit 4 = CHR ''4''"
  "digit 5 = CHR ''5''" "digit 6 = CHR ''6''" "digit 7 = CHR ''7''" "digit 8 = CHR ''8''" "digit 9 = CHR ''9''"
  by code_simp+

lemma sample_lines:
  "map_line ls_entry = ''00400000-00452000 r-xp 00000000 08:02 173832      /bin/ls''"
  "map_line sample_entry = ''7ffdd9dfd000-7ffdd9e1e000 rwxp 00000000 00:00 0   /tmp/a b''"
  by (simp_all add: map_line_def ls_entry_def sample_entry_def hex_pad_def show_hex.simps show_nat.simps digits_eval
      replicate_numeral)

theorem ParseMaps_roundtrip_witness:
  "map mr_Path (DetectSuspiciousRegions (fst (ParseMaps None
      (''00400000-00452000 r-xp 00000000 08:02 173832      /bin/ls'' @ [newline]
        @ ''7ffdd9dfd000-7ffdd9e1e000 rwxp 00000000 00:00 0   /tmp/a b'' @ [newline])))) = [''/tmp/a'']"
proof -
  have "map_entry_ok ls_entry" "map_entry_ok sample_entry"
    unfolding map_entry_ok_def is_word_def sample_lines
    by (simp_all add: ls_entry_def sample_entry_def ascii_def is_space_def)
  then have ok: "\<forall>e \<in> set [ls_entry, sample_entry]. map_entry_ok e" by simp
  have content: "''00400000-00452000 r-xp 00000000 08:02 173832      /bin/ls'' @ [newline]
        @ ''7ffdd9dfd000-7ffdd9e1e000 rwxp 00000000 00:00 0   /tmp/a b'' @ [newline]
      = concat (map (\<lambda>e. map_line e @ [newline]) [ls_entry, sample_entry])"
    by (simp add: sample_lines)
  show ?thesis
    unfolding content ParseMaps_roundtrip [OF ok, THEN conjunct2]
    by (simp add: ls_entry_def sample_entry_def seen_region_def first_word_def Fields_def is_space_def)
qed

section \<open>YARA\<close>

text \<open>The library: creating a compiler, adding a source to it, its compiled rules, a scanner for
  rules, and the names of the rules that a scan reports.\<close>

record 'r yara_lib =
  yl_NewCompiler :: "go_error option"
  yl_AddString :: "string \<Rightarrow> go_error option"
  yl_GetRules :: "string \<Rightarrow> 'r result"
  yl_NewScanner :: "'r \<Rightarrow> go_error option"
  yl_ScanMem :: "'r \<Rightarrow> string \<Rightarrow> string list result"

text \<open>An engine holds compiled rules; its zero value holds none.\<close>

definition yara_NewEngine :: "'r yara_lib \<Rightarrow> string \<Rightarrow> 'r option result" where
  "yara_NewEngine lib content =
     (case yl_NewCompiler lib of
        Some err \<Rightarrow> Err err
      | None \<Rightarrow> (case yl_AddString lib content of
          Some err \<Rightarrow> Err err
        | None \<Rightarrow> (case yl_GetRules lib content of
            Inl err \<Rightarrow> Err err
          | Inr rules \<Rightarrow> Ok (Some rules))))"

definition ScanBytes :: "'r yara_lib \<Rightarrow> 'r option \<Rightarrow> string \<Rightarrow> string list result" where
  "ScanBytes lib e data =
     (case e of
        None \<Rightarrow> Err ''engine rules not initialized''
      | Some rules \<Rightarrow> (case yl_NewScanner lib rules of
          Some err \<Rightarrow> Err err
        | None \<Rightarrow> yl_ScanMem lib rules data))"

text \<open>An engine that was created scans; the only other errors are the library's.\<close>

lemma created_engine_scans:
  assumes "yara_NewEngine lib content = Ok e"
  shows "\<exists>rules. yl_GetRules lib content = Ok rules
    \<and> ScanBytes lib e data = (case yl_NewScanner lib rules of Some err \<Rightarrow> Err err | None \<Rightarrow> yl_ScanMem lib rules data)"
  using assms by (auto simp: yara_NewEngine_def ScanBytes_def split: option.splits sum.splits)

end
