(* ===== verification/Daemon.thy ===== *)
theory Daemon
  imports Api_Server
begin

text \<open>
  The daemon (\<open>cmd/aegisd/main.go\<close>): start-up from the configuration or its defaults, with the
  store, the socket, the quarantine key and the token; the retention loop; the shutdown. The
  logger's levels (\<open>internal/logger/logger.go\<close>). The system calls are parameters by their
  outcome; the files are a map from paths to contents.
\<close>

section \<open>Logging\<close>

datatype slog_level = LevelDebug | LevelInfo | LevelWarn | LevelError

definition logger_Init :: "string \<Rightarrow> slog_level result" where
  "logger_Init level =
     (if level = ''debug'' then Ok LevelDebug
      else if level = ''info'' then Ok LevelInfo
      else if level = ''warn'' then Ok LevelWarn
      else if level = ''error'' then Ok LevelError
      else Ok LevelInfo)"

section \<open>Defaults\<close>

definition no_config :: Config where
  "no_config = \<lparr>
     cf_Agent = \<lparr>ag_ID = [], ag_LogLevel = [], ag_IPCSocket = [], ag_IPCToken = [], ag_HeartbeatIntervalSeconds = 0\<rparr>,
     cf_Telemetry = \<lparr>tc_ProcessMonitoring = False, tc_FileMonitoring = False, tc_RegistryMonitoring = False,
       tc_NetworkMonitoring = False, tc_USBMonitoring = False\<rparr>,
     cf_Engines = \<lparr>eg_HashReputation = \<lparr>hr_Enabled = False, hr_DBPath = []\<rparr>,
       eg_Yara = \<lparr>yc_Enabled = False, yc_RulesDir = []\<rparr>, eg_Sigma = \<lparr>sc_Enabled = False, sc_RulesDir = []\<rparr>,
       eg_Heuristics = \<lparr>hc_EntropyThreshold = 0\<rparr>\<rparr>,
     cf_Storage = \<lparr>st_Path = [], st_RetentionDays = 0, st_MaxSizeMB = 0\<rparr>,
     cf_Response = \<lparr>rc_AutoMitigation = False, rc_RiskThreshold = 0, rc_Actions = [], rc_QuarantineKey = []\<rparr>\<rparr>"

definition daemon_config :: "Config result \<Rightarrow> Config" where
  "daemon_config loaded =
     (case loaded of
        Inr cfg \<Rightarrow> cfg
      | Inl err \<Rightarrow> no_config\<lparr>cf_Agent := (cf_Agent no_config)\<lparr>ag_LogLevel := ''info'', ag_IPCSocket := ''/tmp/aegis.sock''\<rparr>\<rparr>)"

definition fallback_key :: string where
  "fallback_key = ''12345678901234567890123456789012''"

definition quarantine_key :: "Config \<Rightarrow> string" where
  "quarantine_key cfg =
     (let key = rc_QuarantineKey (cf_Response cfg) in if length key \<noteq> 32 then fallback_key else key)"

section \<open>The token\<close>

text \<open>\<open>hex.EncodeToString\<close>: two lower-case digits per byte.\<close>

definition hex_EncodeToString :: "string \<Rightarrow> string" where
  "hex_EncodeToString bytes =
     concat (map (\<lambda>b. [hex_digit (of_char b div 16), hex_digit (of_char b mod 16)]) bytes)"

definition fallback_token :: string where
  "fallback_token = ''fallback-secure-token-1234567890''"

abbreviation tokenPath :: string where "tokenPath \<equiv> ''/tmp/aegis.token''"

text \<open>The outcomes of the system calls of one start.\<close>

record daemon_env =
  de_logger :: "go_error option"
  de_remove :: "string \<Rightarrow> go_error option"
  de_listen :: "go_error option"
  de_random :: "string result"
  de_write_token :: write_outcome

definition new_token :: "daemon_env \<Rightarrow> string" where
  "new_token env = (case de_random env of Inr b \<Rightarrow> hex_EncodeToString b | Inl _ \<Rightarrow> fallback_token)"

definition ipc_token :: "daemon_env \<Rightarrow> Config \<Rightarrow> evidence_files \<Rightarrow> string \<times> evidence_files" where
  "ipc_token env cfg fs =
     (if ag_IPCToken (cf_Agent cfg) = []
      then (new_token env, snd (write_file (de_write_token env) tokenPath (new_token env) fs))
      else (ag_IPCToken (cf_Agent cfg), fs))"

definition remove_path :: "daemon_env \<Rightarrow> string \<Rightarrow> evidence_files \<Rightarrow> evidence_files" where
  "remove_path env p fs = (case de_remove env p of Some _ \<Rightarrow> fs | None \<Rightarrow> fs(p := None))"

section \<open>Starting\<close>

text \<open>A started daemon: its socket and its server. \<open>rows\<close> reads the contents of the database file.\<close>

datatype 'a startup = Exited go_error | Running 'a

record 's daemon =
  dm_socket :: string
  dm_server :: "'s Server"

definition daemon_start ::
  "daemon_env \<Rightarrow> 'f driver \<Rightarrow> ('f option \<Rightarrow> db) \<Rightarrow> 's os \<Rightarrow> nat \<Rightarrow> quarantine_env \<Rightarrow> Config result
     \<Rightarrow> evidence_files \<times> (string \<Rightarrow> 'f option) \<Rightarrow> 's daemon startup \<times> evidence_files \<times> (string \<Rightarrow> 'f option)" where
  "daemon_start env drv rows os fuel qenv loaded world =
     (case world of (fs, dbs) \<Rightarrow>
      let cfg = daemon_config loaded in
      case (case de_logger env of Some err \<Rightarrow> Err err | None \<Rightarrow> logger_Init (ag_LogLevel (cf_Agent cfg))) of
        Inl err \<Rightarrow> (Exited err, fs, dbs)
      | Inr _ \<Rightarrow>
        (case NewStorage drv ''telemetry.db'' dbs of
           (Inl err, dbs1) \<Rightarrow> (Exited err, fs, dbs1)
         | (Inr _, dbs1) \<Rightarrow>
           let ipcPath = ag_IPCSocket (cf_Agent cfg);
               fs1 = remove_path env ipcPath fs
           in case de_listen env of
                Some err \<Rightarrow> (Exited err, fs1, dbs1)
              | None \<Rightarrow>
                (case ipc_token env cfg (fs1(ipcPath \<mapsto> [])) of
                   (token, fs2) \<Rightarrow>
                     (Running \<lparr>dm_socket = ipcPath,
                        dm_server = linux_server os fuel qenv (quarantine_key cfg)
                          (Some (rows (dbs1 ''telemetry.db''))) token\<rparr>, fs2, dbs1))))"

section \<open>Running and stopping\<close>

text \<open>The retention loop: one round when the daemon starts and one per tick, each with its own
  time and the faults of its statements; a failed round is logged and the loop goes on. The cutoff is a
  time in the daemon's local zone \<open>tz\<close>.\<close>

definition retention :: duration where
  "retention = 7 * 24 * 3600 * second"

definition prune_round :: "time_zone \<Rightarrow> (nat \<Rightarrow> go_error option) \<times> go_time \<Rightarrow> db \<Rightarrow> db" where
  "prune_round tz r d = snd (PruneOldTelemetry (fst r) (in_zone tz (snd r - retention)) d)"

definition prune_loop :: "time_zone \<Rightarrow> ((nat \<Rightarrow> go_error option) \<times> go_time) list \<Rightarrow> db \<Rightarrow> db" where
  "prune_loop tz rounds d = fold (prune_round tz) rounds d"

definition daemon_stop :: "daemon_env \<Rightarrow> 's daemon \<Rightarrow> evidence_files \<Rightarrow> evidence_files" where
  "daemon_stop env dm fs = remove_path env tokenPath (remove_path env (dm_socket dm) fs)"

section \<open>What a started daemon guarantees\<close>

lemma hex_token_nonempty: "b \<noteq> [] \<Longrightarrow> hex_EncodeToString b \<noteq> []"
  by (cases b) (simp_all add: hex_EncodeToString_def)

text \<open>\<open>rand.Read\<close> fills the whole buffer or returns an error.\<close>

definition random_ok :: "daemon_env \<Rightarrow> bool" where
  "random_ok env \<longleftrightarrow> (\<forall>b. de_random env = Inr b \<longrightarrow> length b = 16)"

lemma new_token_nonempty: "random_ok env \<Longrightarrow> new_token env \<noteq> []"
  by (cases "de_random env")
    (auto simp: new_token_def random_ok_def fallback_token_def intro!: hex_token_nonempty)

lemma quarantine_key_length: "length (quarantine_key cfg) = 32"
  by (simp add: quarantine_key_def Let_def fallback_key_def)

lemma daemon_started:
  assumes "daemon_start env drv rows os fuel qenv loaded (fs, dbs) = (Running dm, fs', dbs')"
  shows "dm_socket dm = ag_IPCSocket (cf_Agent (daemon_config loaded))
    \<and> NewStorage drv ''telemetry.db'' dbs = (Ok (), dbs')
    \<and> dm_server dm = linux_server os fuel qenv (quarantine_key (daemon_config loaded))
        (Some (rows (dbs' ''telemetry.db'')))
        (fst (ipc_token env (daemon_config loaded)
          ((remove_path env (dm_socket dm) fs)(dm_socket dm \<mapsto> []))))
    \<and> fs' = snd (ipc_token env (daemon_config loaded) ((remove_path env (dm_socket dm) fs)(dm_socket dm \<mapsto> [])))"
  using assms by (auto simp: daemon_start_def Let_def case_prod_beta prod_eq_iff split: sum.splits option.splits prod.splits)

text \<open>C13 (safety). A daemon that has started, from its configuration or from the defaults, serves with a
  token that is not empty, a quarantine key of 32 bytes, the migrated store and all three
  containment engines. Every unary and every stream call without metadata, without the token or with another
  token first is refused and changes nothing, whatever the handler; a call with the token is the handler's.\<close>

theorem daemon_secured:
  assumes "daemon_start env drv rows os fuel qenv loaded (fs, dbs) = (Running dm, fs', dbs')" "random_ok env"
  shows "(\<exists>key token. dm_server dm = linux_server os fuel qenv key (Some (rows (dbs' ''telemetry.db''))) token
      \<and> length key = 32 \<and> token \<noteq> [])
    \<and> (if (case incoming of None \<Rightarrow> [] | Some md \<Rightarrow> take 1 (md ''x-aegis-token'')) = [sv_token (dm_server dm)]
       then UnaryAuthInterceptor (dm_server dm) incoming handler h = handler h
         \<and> StreamAuthInterceptor (dm_server dm) incoming stream g = stream g
       else (\<exists>err. UnaryAuthInterceptor (dm_server dm) incoming handler h = Some (Err err, h))
         \<and> (\<exists>err. StreamAuthInterceptor (dm_server dm) incoming stream g = (Err err, g)))"
proof -
  have "sv_token (dm_server dm) \<noteq> []"
    using daemon_started [OF assms(1)] new_token_nonempty [OF assms(2)]
    by (simp add: linux_server_def NewServer_def ipc_token_def)
  moreover from this have "\<exists>key token. dm_server dm = linux_server os fuel qenv key (Some (rows (dbs' ''telemetry.db''))) token
      \<and> length key = 32 \<and> token \<noteq> []"
    using daemon_started [OF assms(1)] quarantine_key_length [of "daemon_config loaded"]
    by (auto simp: linux_server_def NewServer_def)
  ultimately show ?thesis
    by (auto simp: UnaryAuthInterceptor_def StreamAuthInterceptor_def split: option.split list.split)
qed

lemma prune_round_keeps:
  "alert_logs (prune_round tz r d) = alert_logs d"
  "p \<in> set (processes d) \<Longrightarrow> p_process_id p \<in> alerted d \<or> \<not> sql_before (p_launched_at p) (in_zone tz (snd r - retention))
    \<Longrightarrow> p \<in> set (processes (prune_round tz r d))"
  "f \<in> set (file_modifications d) \<Longrightarrow> f_process_id f \<in> alerted d \<or> \<not> sql_before (f_occurred_at f) (in_zone tz (snd r - retention))
    \<Longrightarrow> f \<in> set (file_modifications (prune_round tz r d))"
  "n \<in> set (network_connections d) \<Longrightarrow> n_process_id n \<in> alerted d \<or> \<not> sql_before (n_occurred_at n) (in_zone tz (snd r - retention))
    \<Longrightarrow> n \<in> set (network_connections (prune_round tz r d))"
  using prune_keeps_evidence [of d "in_zone tz (snd r - retention)" "fst r"] by (auto simp: prune_round_def)

text \<open>A row is spared by rounds if none of their cutoffs is after it.\<close>

definition spared :: "time_zone \<Rightarrow> ((nat \<Rightarrow> go_error option) \<times> go_time) list \<Rightarrow> go_time \<Rightarrow> bool" where
  "spared tz rounds t \<longleftrightarrow> list_all (\<lambda>r. \<not> sql_before t (in_zone tz (snd r - retention))) rounds"

lemma prune_loop_keeps:
  "alert_logs (prune_loop tz rounds d) = alert_logs d
    \<and> {p \<in> set (processes d). p_process_id p \<in> alerted d \<or> spared tz rounds (p_launched_at p)} \<subseteq> set (processes (prune_loop tz rounds d))
    \<and> {f \<in> set (file_modifications d). f_process_id f \<in> alerted d \<or> spared tz rounds (f_occurred_at f)}
        \<subseteq> set (file_modifications (prune_loop tz rounds d))
    \<and> {n \<in> set (network_connections d). n_process_id n \<in> alerted d \<or> spared tz rounds (n_occurred_at n)}
        \<subseteq> set (network_connections (prune_loop tz rounds d))"
proof (induction rounds arbitrary: d)
  case (Cons r rounds)
  have al: "alerted (prune_round tz r d) = alerted d" by (simp add: alerted_def prune_round_keeps(1))
  have step: "prune_loop tz (r # rounds) d = prune_loop tz rounds (prune_round tz r d)" by (simp add: prune_loop_def)
  have sp: "spared tz (r # rounds) t \<longleftrightarrow> \<not> sql_before t (in_zone tz (snd r - retention)) \<and> spared tz rounds t" for t
    by (simp add: spared_def)
  show ?case
    using Cons.IH [of "prune_round tz r d"] prune_round_keeps [where d = d and r = r and tz = tz]
    unfolding step sp al by (simp add: subset_iff) blast
qed (simp add: prune_loop_def)

text \<open>C16 (safety). However many rounds the retention loop makes before a time, and whatever fails in
  them, no alert is removed, and every process, file and network row survives that belongs to a
  process with an alert or is younger than seven days less the greatest offset \<open>east\<close> of the
  daemon's zone from UTC (for the cutoff reaches the database as a local wall clock text, the rows are in UTC: east
  of UTC younger rows do go). When the statements of a further round at that time succeed, no row of a
  process without an alert is left that is older than seven days less the offset then. Dates are
  in the years 1 to 9999.\<close>

theorem retention_loop:
  assumes rounds: "\<And>r. r \<in> set rounds \<Longrightarrow> snd r \<le> now \<and> fst (tz (snd r - retention)) \<le> east
      \<and> dated (wall_seconds (in_zone tz (snd r - retention)))"
    and dates: "dated (wall_seconds (in_zone tz (now - retention)))"
  defines "young t \<equiv> dated (t div second) \<and> (now - retention) div second + east < t div second"
    and "old t \<equiv> dated (t div second) \<and> t div second \<le> (now - retention) div second + fst (tz (now - retention))"
  shows "alert_logs (prune_loop tz rounds d) = alert_logs d
    \<and> {p \<in> set (processes d). p_process_id p \<in> alerted d \<or> young (p_launched_at p)} \<subseteq> set (processes (prune_loop tz rounds d))
    \<and> {f \<in> set (file_modifications d). f_process_id f \<in> alerted d \<or> young (f_occurred_at f)}
        \<subseteq> set (file_modifications (prune_loop tz rounds d))
    \<and> {n \<in> set (network_connections d). n_process_id n \<in> alerted d \<or> young (n_occurred_at n)}
        \<subseteq> set (network_connections (prune_loop tz rounds d))
    \<and> (fst (PruneOldTelemetry fault (in_zone tz (now - retention)) (prune_loop tz rounds d)) = Ok ()
       \<longrightarrow> {p \<in> set (processes (prune_loop tz (rounds @ [(fault, now)]) d)). old (p_launched_at p)} \<subseteq> {p. p_process_id p \<in> alerted d}
         \<and> {f \<in> set (file_modifications (prune_loop tz (rounds @ [(fault, now)]) d)). old (f_occurred_at f)}
             \<subseteq> {f. f_process_id f \<in> alerted d}
         \<and> {n \<in> set (network_connections (prune_loop tz (rounds @ [(fault, now)]) d)). old (n_occurred_at n)}
             \<subseteq> {n. n_process_id n \<in> alerted d})"
proof -
  have young: "spared tz rounds t" if "young t" for t
    unfolding spared_def list_all_iff
  proof
    fix r assume r: "r \<in> set rounds"
    have "(snd r - retention) div second \<le> (now - retention) div second"
      using rounds [OF r] by (intro zdiv_mono1) auto
    then have "wall_seconds (in_zone tz (snd r - retention)) < t div second"
      using that rounds [OF r] by (simp add: young_def wall_zone)
    then show "\<not> sql_before t (in_zone tz (snd r - retention))"
      using that rounds [OF r] by (simp add: young_def sql_before_iff)
  qed
  have old: "sql_before t (in_zone tz (now - retention))" if "old t" for t
    using that dates by (simp add: old_def sql_before_iff wall_zone)
  have al: "alerted (prune_loop tz rounds d) = alerted d"
    using prune_loop_keeps [of tz rounds d] by (simp add: alerted_def)
  have last: "prune_loop tz (rounds @ [(fault, now)]) d = snd (PruneOldTelemetry fault (in_zone tz (now - retention)) (prune_loop tz rounds d))"
    by (simp add: prune_loop_def prune_round_def)
  show ?thesis
    using prune_loop_keeps [of tz rounds d] prune_complete [of fault "in_zone tz (now - retention)" "prune_loop tz rounds d"] young old
    unfolding al last by (intro conjI impI) blast+
qed

section \<open>Samples\<close>

definition db_driver :: "db driver" where
  "db_driver = \<lparr>drv_open = \<lambda>_. None, drv_ping = \<lambda>f. (None, f), drv_integrity = \<lambda>f. (Ok ''ok'', f),
     drv_exec = \<lambda>_ f. (None, Some (case f of None \<Rightarrow> empty_db | Some d \<Rightarrow> d)), rename_ok = True\<rparr>"

definition db_rows :: "db option \<Rightarrow> db" where
  "db_rows f = (case f of None \<Rightarrow> empty_db | Some d \<Rightarrow> d)"

definition sample_denv :: daemon_env where
  "sample_denv = \<lparr>de_logger = None, de_remove = \<lambda>_. None, de_listen = None,
     de_random = Ok (replicate 16 (CHR ''z'')), de_write_token = None\<rparr>"

definition sample_daemon :: "ptable daemon" where
  "sample_daemon = (case daemon_start sample_denv db_driver db_rows table_os 41 sample_qenv (Err ''no file'') (Map.empty, Map.empty) of
     (Running dm, _) \<Rightarrow> dm | _ \<Rightarrow> undefined)"

lemma sample_started:
  "\<exists>fs dbs. daemon_start sample_denv db_driver db_rows table_os 41 sample_qenv (Err ''no file'') (Map.empty, Map.empty)
     = (Running sample_daemon, fs, dbs)"
  by (simp add: sample_daemon_def daemon_start_def sample_denv_def db_driver_def logger_Init_def NewStorage_def
      migrate_at_def Let_def split: prod.split sum.split) (simp add: migrations_def)

text \<open>Its database is new.\<close>

lemma sample_started_rows:
  "\<exists>fs dbs. daemon_start sample_denv db_driver db_rows table_os 41 sample_qenv (Err ''no file'') (Map.empty, Map.empty)
     = (Running sample_daemon, fs, dbs) \<and> db_rows (dbs ''telemetry.db'') = empty_db"
proof -
  obtain fs dbs where start: "daemon_start sample_denv db_driver db_rows table_os 41 sample_qenv (Err ''no file'') (Map.empty, Map.empty)
     = (Running sample_daemon, fs, dbs)" using sample_started by blast
  then have "NewStorage db_driver ''telemetry.db'' Map.empty = (Ok (), dbs)" using daemon_started by blast
  moreover have "db_rows (snd (NewStorage db_driver ''telemetry.db'' Map.empty) ''telemetry.db'') = empty_db"
    by (simp add: NewStorage_def migrate_at_def db_driver_def db_rows_def migrations_def split: option.split)
  ultimately show ?thesis using start by auto
qed

lemma sample_random: "random_ok sample_denv"
  by (simp add: random_ok_def sample_denv_def)

theorem daemon_secured_witness:
  "(\<exists>err. UnaryAuthInterceptor (dm_server sample_daemon) (Some (\<lambda>_. [])) (TriggerResponse (dm_server sample_daemon) kill_10) sample_host
        = Some (Err err, sample_host))
   \<and> (\<exists>err. StreamAuthInterceptor (dm_server sample_daemon) (Some (\<lambda>_. [])) (\<lambda>sent. (Ok (), sent @ [1])) [0 :: nat] = (Err err, [0]))"
proof -
  obtain fs dbs where "daemon_start sample_denv db_driver db_rows table_os 41 sample_qenv (Err ''no file'') (Map.empty, Map.empty)
     = (Running sample_daemon, fs, dbs)" using sample_started by blast
  from daemon_secured [OF this sample_random, where incoming = "Some (\<lambda>_. [])"
      and handler = "TriggerResponse (dm_server sample_daemon) kill_10" and h = sample_host
      and stream = "\<lambda>sent. (Ok (), sent @ [1])" and g = "[0 :: nat]"]
  show ?thesis by simp
qed

text \<open>Two hours east of UTC: 1000 seconds after the seventh day all rows of \<open>blocked_db\<close> go, also those of 900
  seconds after its start, when a round before has failed.\<close>

theorem retention_loop_witness:
  "\<exists>d'. d' = prune_loop (\<lambda>_. (7200, ''EET'')) [(\<lambda>_. Some ''locked'', retention + 600 * second), (\<lambda>_. None, retention + 1000 * second)] blocked_db
     \<and> {f \<in> set (file_modifications d'). f_occurred_at f = 900 * second} \<subseteq> {f. f_process_id f \<in> alerted blocked_db}"
proof -
  obtain tz :: time_zone where tz: "tz = (\<lambda>_. (7200, ''EET''))" by simp
  let ?rounds = "[(\<lambda>_ :: nat. Some ''locked'', retention + 600 * second)]"
  have before: "sql_before t (in_zone tz (retention + 1000 * second - retention))" if "0 \<le> t" "t \<le> 900 * second" for t
  proof -
    have "t div second \<le> 900" using zdiv_mono1 [OF that(2), of second] by simp
    moreover have "0 \<le> t div second" using that(1) by simp
    ultimately show ?thesis by (simp add: sql_before_iff dated_def wall_zone tz)
  qed
  have loop: "prune_loop tz ?rounds blocked_db = blocked_db"
    by (simp add: prune_loop_def prune_round_def PruneOldTelemetry_def guarded_def)
  have ok: "fst (PruneOldTelemetry (\<lambda>_. None) (in_zone tz (retention + 1000 * second - retention)) (prune_loop tz ?rounds blocked_db)) = Ok ()"
    unfolding loop using before [of 0] before [of "900 * second"]
    by (simp add: blocked_db_eval prune_defs empty_db_def alerted_def referenced_def)
  have "r \<in> set ?rounds \<Longrightarrow> snd r \<le> retention + 1000 * second \<and> fst (tz (snd r - retention)) \<le> 7200
      \<and> dated (wall_seconds (in_zone tz (snd r - retention)))" for r
    by (auto simp: tz wall_zone dated_def)
  moreover have "dated (wall_seconds (in_zone tz (retention + 1000 * second - retention)))" by (simp add: tz wall_zone dated_def)
  ultimately have "{f \<in> set (file_modifications (prune_loop tz (?rounds @ [(\<lambda>_. None, retention + 1000 * second)]) blocked_db)).
      dated (f_occurred_at f div second) \<and> f_occurred_at f div second
        \<le> (retention + 1000 * second - retention) div second + fst (tz (retention + 1000 * second - retention))}
    \<subseteq> {f. f_process_id f \<in> alerted blocked_db}"
    using retention_loop [where rounds = ?rounds and d = blocked_db and fault = "\<lambda>_. None" and tz = tz and east = 7200
        and now = "retention + 1000 * second"] ok by blast
  then show ?thesis unfolding tz [symmetric] by (auto simp: dated_def tz)
qed

end
