(* ===== verification/Cli.thy ===== *)
theory Cli
  imports Daemon
begin

text \<open>
  The command line client (\<open>cmd/aegis/main.go\<close>): the connection with its token, the response
  commands, the timeline commands, hunting, investigating and tracing in the database,
  and the health check. A command is the pair of its exit code and what
  it prints. The time limits of calls are left out; SQLite's
  conversion of a text argument to an integer is a parameter.
\<close>

section \<open>The connection\<close>

record client =
  cl_socket :: string
  cl_token :: string

definition client_config :: "Config result \<Rightarrow> Config" where
  "client_config loaded =
     (case loaded of
        Inr cfg \<Rightarrow> cfg
      | Inl err \<Rightarrow> no_config\<lparr>cf_Agent := (cf_Agent no_config)\<lparr>ag_IPCSocket := ''/tmp/aegis.sock''\<rparr>\<rparr>)"

definition client_token :: "go_error option \<Rightarrow> Config \<Rightarrow> evidence_files \<Rightarrow> string" where
  "client_token read_err cfg fs =
     (if ag_IPCToken (cf_Agent cfg) = []
      then (case (read_err, fs tokenPath) of (None, Some data) \<Rightarrow> data | _ \<Rightarrow> [])
      else ag_IPCToken (cf_Agent cfg))"

definition getGRPCClient ::
  "go_error option \<Rightarrow> go_error option \<Rightarrow> Config result \<Rightarrow> evidence_files \<Rightarrow> client result" where
  "getGRPCClient dial_err read_err loaded fs =
     (let cfg = client_config loaded
      in case dial_err of
           Some err \<Rightarrow> Err err
         | None \<Rightarrow> Ok \<lparr>cl_socket = ag_IPCSocket (cf_Agent cfg), cl_token = client_token read_err cfg fs\<rparr>)"

text \<open>Both client interceptors add the token to the metadata if there is one.\<close>

definition outgoing :: "client \<Rightarrow> metadata" where
  "outgoing cl = (if cl_token cl \<noteq> [] then (\<lambda>_. [])(''x-aegis-token'' := [cl_token cl]) else (\<lambda>_. []))"

definition unavailable :: go_error where
  "unavailable = ''rpc error: code = Unavailable desc = connection error''"

text \<open>A call reaches the daemon that listens on the client's socket.\<close>

definition serving :: "client \<Rightarrow> 's daemon option \<Rightarrow> 's Server option" where
  "serving cl dm = (case dm of Some d \<Rightarrow> if dm_socket d = cl_socket cl then Some (dm_server d) else None | None \<Rightarrow> None)"

definition call ::
  "client \<Rightarrow> 's daemon option \<Rightarrow> ('s Server \<Rightarrow> 'h \<Rightarrow> ('r result \<times> 'h) option) \<Rightarrow> 'h \<Rightarrow> ('r result \<times> 'h) option" where
  "call cl dm handler h =
     (case serving cl dm of
        None \<Rightarrow> Some (Err unavailable, h)
      | Some s \<Rightarrow> UnaryAuthInterceptor s (Some (outgoing cl)) (handler s) h)"

section \<open>Response commands\<close>

type_synonym cmd_output = "int \<times> string"

definition response_command ::
  "string \<Rightarrow> ResponseRequest \<Rightarrow> client result \<Rightarrow> 's daemon option \<Rightarrow> 's host \<Rightarrow> (cmd_output \<times> 's host) option" where
  "response_command what req conn dm h =
     (case conn of
        Inl err \<Rightarrow> Some ((4, ''Error: failed to connect to daemon: '' @ err @ [newline]), h)
      | Inr cl \<Rightarrow> map_option (\<lambda>(r, h'). (case r of
            Inl err \<Rightarrow> (1, ''Error: '' @ what @ '' execution failed: '' @ err @ [newline])
          | Inr res \<Rightarrow> (0, ''Success: '' @ rs_Message res @ [newline]), h'))
          (call cl dm (\<lambda>s. TriggerResponse s req) h))"

text \<open>The PID is an \<open>int\<close> of 64 bits on the command line and is converted to 32 bits.\<close>

definition kill_command where
  "kill_command pid = response_command ''action'' \<lparr>rq_Action = ''kill'', rq_TargetPid = word_of_int pid, rq_TargetFile = []\<rparr>"

definition isolate_command where
  "isolate_command = response_command ''isolation'' \<lparr>rq_Action = ''isolate'', rq_TargetPid = 0, rq_TargetFile = []\<rparr>"

definition restore_command where
  "restore_command = response_command ''restore'' \<lparr>rq_Action = ''restore'', rq_TargetPid = 0, rq_TargetFile = []\<rparr>"

definition quarantine_command where
  "quarantine_command path = response_command ''quarantine'' \<lparr>rq_Action = ''quarantine'', rq_TargetPid = 0, rq_TargetFile = path\<rparr>"

section \<open>Timelines\<close>

text \<open>\<open>-time.Duration(minutes) * time.Minute\<close> in 64-bit arithmetic; the end is read first.\<close>

definition minutes_back :: "int \<Rightarrow> duration" where
  "minutes_back minutes = sint (- word_of_int minutes * 60000000000 :: 64 word)"

definition timeline_request :: "int \<Rightarrow> go_time \<Rightarrow> go_time \<Rightarrow> TimelineRequest" where
  "timeline_request minutes now now' =
     \<lparr>tq_StartTimeEpoch = word_of_int (time_Unix_seconds (now' + minutes_back minutes)),
      tq_EndTimeEpoch = word_of_int (time_Unix_seconds now)\<rparr>"

definition timeline_line :: "TimelineMessage \<Rightarrow> string" where
  "timeline_line ev = ''['' @ tm_Timestamp ev @ ''] ['' @ tm_Category ev @ ''] '' @ tm_Description ev @ [newline]"

definition banner :: "string \<Rightarrow> string" where
  "banner title = title @ [newline] @ ''======================================='' @ [newline]"

text \<open>\<open>forensics\<close> and \<open>timeline\<close> differ in one message (\<open>what\<close>); the loop prints until the stream ends.
  \<open>tz\<close> is the time zone of the daemon, which makes local times of the epochs it gets.\<close>

definition timeline_command ::
  "string \<Rightarrow> time_zone \<Rightarrow> (go_time \<Rightarrow> string) \<Rightarrow> (TimelineEvent list \<Rightarrow> TimelineEvent list) \<Rightarrow> query_faults \<Rightarrow> (nat \<Rightarrow> go_error option)
     \<Rightarrow> int \<Rightarrow> go_time \<Rightarrow> go_time \<Rightarrow> client result \<Rightarrow> 's daemon option \<Rightarrow> cmd_output" where
  "timeline_command what tz fmt_time srt qf fault minutes now now' conn dm =
     (case conn of
        Inl err \<Rightarrow> (4, ''Error: failed to connect to daemon: '' @ err @ [newline])
      | Inr cl \<Rightarrow>
        (case serving cl dm of
           None \<Rightarrow> (1, ''Error: failed to query '' @ what @ '': '' @ unavailable @ [newline])
         | Some s \<Rightarrow>
           (case StreamAuthInterceptor s (Some (outgoing cl))
                (\<lambda>_. GetTimeline tz fmt_time srt qf fault s (timeline_request minutes now now')) [] of
              (Inl err, evs) \<Rightarrow> (1, banner ''CHRONOLOGICAL INCIDENT TIMELINE'' @ concat (map timeline_line evs)
                  @ ''Error: stream broken: '' @ err @ [newline])
            | (Inr _, evs) \<Rightarrow> (0, banner ''CHRONOLOGICAL INCIDENT TIMELINE'' @ concat (map timeline_line evs)))))"

definition forensics_command where
  "forensics_command = timeline_command ''forensics timeline''"

section \<open>Hunting\<close>

text \<open>The client opens the configured database, the daemon always \<open>telemetry.db\<close>.\<close>

definition cli_db_path :: "Config result \<Rightarrow> string" where
  "cli_db_path loaded =
     (case loaded of
        Inr cfg \<Rightarrow> if st_Path (cf_Storage cfg) \<noteq> [] then st_Path (cf_Storage cfg) else ''telemetry.db''
      | Inl _ \<Rightarrow> ''telemetry.db'')"

text \<open>SQL's \<open>LIKE\<close>: \<open>%\<close> for any sequence, \<open>_\<close> for any character, ASCII letters in either case.\<close>

fun sql_like :: "string \<Rightarrow> string \<Rightarrow> bool" where
  "sql_like [] s = (s = [])"
| "sql_like (p # ps) [] = (p = CHR ''%'' \<and> sql_like ps [])"
| "sql_like (p # ps) (c # s) =
     (if p = CHR ''%'' then sql_like ps (c # s) \<or> sql_like (p # ps) s
      else if p = CHR ''_'' then sql_like ps s
      else lower_char p = lower_char c \<and> sql_like ps s)"

definition like_anywhere :: "string \<Rightarrow> string" where
  "like_anywhere q = ''%'' @ q @ ''%''"

record hunt_flags =
  hf_Type :: string
  hf_Query :: string
  hf_Risk :: f64
  hf_Mitre :: string
  hf_Ioc :: string

text \<open>A query that fails prints nothing, not even its heading.\<close>

definition print_rows :: "go_error option \<Rightarrow> string \<Rightarrow> ('a \<Rightarrow> string) \<Rightarrow> 'a list \<Rightarrow> string" where
  "print_rows query_err heading show_row rs =
     (case query_err of Some _ \<Rightarrow> [] | None \<Rightarrow> heading @ [newline] @ concat (map show_row rs))"

definition ioc_line :: "proc_row \<Rightarrow> string" where
  "ioc_line p = ''Process: '' @ p_binary_path p @ '' (args: '' @ p_command_line p @ '') run by '' @ p_username p @ [newline]"

definition risk_line :: "alert_row \<Rightarrow> string" where
  "risk_line a = ''['' @ a_rule_name a @ ''] Score: '' @ fmt_2f (a_risk_score a) @ '' - '' @ a_description a @ [newline]"

definition mitre_line :: "alert_row \<Rightarrow> string" where
  "mitre_line a = ''['' @ a_rule_name a @ ''] Tag: '' @ a_category a @ '' - '' @ a_description a @ [newline]"

definition file_line :: "file_row \<Rightarrow> string" where
  "file_line f = ''['' @ f_action f @ ''] '' @ f_file_path f @ [newline]"

definition net_line :: "net_row \<Rightarrow> string" where
  "net_line n = ''['' @ n_protocol n @ ''] '' @ n_remote_ip n @ '':'' @ show_int (n_remote_port n) @ [newline]"

definition bin_line :: "proc_row \<Rightarrow> string" where
  "bin_line p = ''Bin: '' @ p_binary_path p @ '' | Args: '' @ p_command_line p @ [newline]"

definition hunt_results :: "go_error option \<Rightarrow> hunt_flags \<Rightarrow> db \<Rightarrow> string" where
  "hunt_results query_err hf d =
     (if hf_Ioc hf \<noteq> [] then
        print_rows query_err ''IOC MATCHING PROCESSES:'' ioc_line (filter (\<lambda>p. p_sha256 p = hf_Ioc hf) (processes d))
      else if 0 < hf_Risk hf then
        print_rows query_err ''ALERTS BY RISK THRESHOLD:'' risk_line (filter (\<lambda>a. hf_Risk hf \<le> a_risk_score a) (alert_logs d))
      else if hf_Mitre hf \<noteq> [] then
        print_rows query_err ''ALERTS BY MITRE / CATEGORY TAG:'' mitre_line
          (filter (\<lambda>a. sql_like (like_anywhere (hf_Mitre hf)) (a_category a)) (alert_logs d))
      else if hf_Type hf = ''file'' then
        print_rows query_err ''FILE HUNT RESULTS:'' file_line
          (filter (\<lambda>f. sql_like (like_anywhere (hf_Query hf)) (f_file_path f)) (file_modifications d))
      else if hf_Type hf = ''network'' then
        print_rows query_err ''NETWORK HUNT RESULTS:'' net_line
          (filter (\<lambda>n. sql_like (like_anywhere (hf_Query hf)) (n_remote_ip n)) (network_connections d))
      else
        print_rows query_err ''PROCESS HUNT RESULTS:'' bin_line
          (filter (\<lambda>p. sql_like (like_anywhere (hf_Query hf)) (p_binary_path p)) (processes d)))"

definition hunt_command ::
  "go_error option \<Rightarrow> go_error option \<Rightarrow> hunt_flags \<Rightarrow> Config result \<Rightarrow> (string \<Rightarrow> db) \<Rightarrow> cmd_output" where
  "hunt_command open_err query_err hf loaded dbs =
     (case open_err of
        Some err \<Rightarrow> (1, ''Error: failed to open telemetry database: '' @ err @ [newline])
      | None \<Rightarrow> (0, hunt_results query_err hf (dbs (cli_db_path loaded))))"

section \<open>Investigating a process\<close>

text \<open>The argument is compared with an integer column: \<open>affinity\<close> is the integer it stands for, if any.\<close>

definition rows_of :: "(string \<Rightarrow> int option) \<Rightarrow> string \<Rightarrow> ('a \<Rightarrow> int) \<Rightarrow> 'a list \<Rightarrow> 'a list" where
  "rows_of affinity arg pid rs = filter (\<lambda>r. affinity arg = Some (pid r)) rs"

definition find_process :: "(string \<Rightarrow> int option) \<Rightarrow> string \<Rightarrow> db \<Rightarrow> proc_row option" where
  "find_process affinity arg d = (case rows_of affinity arg p_process_id (processes d) of [] \<Rightarrow> None | p # _ \<Rightarrow> Some p)"

definition investigate_command ::
  "(string \<Rightarrow> int option) \<Rightarrow> go_error option \<Rightarrow> (nat \<Rightarrow> go_error option) \<Rightarrow> string \<Rightarrow> Config result \<Rightarrow> (string \<Rightarrow> db) \<Rightarrow> cmd_output" where
  "investigate_command affinity open_err fault arg loaded dbs =
     (case open_err of
        Some err \<Rightarrow> (1, ''Error: failed to open telemetry database: '' @ err @ [newline])
      | None \<Rightarrow>
        let d = dbs (cli_db_path loaded) in
        case (if fault 0 = None then find_process affinity arg d else None) of
          None \<Rightarrow> (1, ''Process PID '' @ arg @ '' not found in telemetry history'' @ [newline])
        | Some p \<Rightarrow> (0,
            banner (''PROCESS INVESTIGATION FOR PID '' @ arg)
            @ ''Binary Path: '' @ p_binary_path p @ [newline]
            @ ''Command    : '' @ p_command_line p @ [newline]
            @ ''User       : '' @ p_username p @ [newline, newline]
            @ (if fault 1 = None then ''FILE INTEGRITY LOGS:'' @ [newline]
                 @ concat (map (\<lambda>f. ''  '' @ file_line f) (rows_of affinity arg f_process_id (file_modifications d))) @ [newline] else [])
            @ (if fault 2 = None then ''NETWORK CONNECTIONS:'' @ [newline]
                 @ concat (map (\<lambda>n. ''  '' @ net_line n) (rows_of affinity arg n_process_id (network_connections d))) @ [newline] else [])
            @ print_rows (fault 3) ''ASSOCIATED ALERTS:'' (\<lambda>a. ''  '' @ risk_line a)
                 (rows_of affinity arg a_process_id (alert_logs d))))"

section \<open>Tracing the lineage\<close>

text \<open>The indentation is one arrow per generation (the arrow's bytes are E2 86 B3).\<close>

definition arrow :: string where
  "arrow = ''  '' @ map char_of [226 :: nat, 134, 179] @ '' ''"

definition trace_line :: "string \<Rightarrow> string \<Rightarrow> proc_row \<Rightarrow> string" where
  "trace_line indent arg p =
     indent @ ''[PID '' @ arg @ ''] '' @ p_binary_path p @ '' (args: '' @ p_command_line p @ '')'' @ [newline]"

text \<open>\<open>fault k\<close> is the error of the query of generation \<open>k\<close>: any error of it, also that no row is found,
  ends the loop without a message. The loop may run for ever: then there is no result.\<close>

partial_function (option) trace_loop ::
  "(string \<Rightarrow> int option) \<Rightarrow> (nat \<Rightarrow> go_error option) \<Rightarrow> db \<Rightarrow> nat \<Rightarrow> string \<Rightarrow> string \<Rightarrow> string \<Rightarrow> string option" where
  [code]: "trace_loop affinity fault d k indent arg out =
     (case (case fault k of Some err \<Rightarrow> None | None \<Rightarrow> find_process affinity arg d) of
        None \<Rightarrow> Some out
      | Some p \<Rightarrow>
          if p_parent_id p \<le> 0 \<or> arg = show_int (p_parent_id p) then Some (out @ trace_line indent arg p)
          else trace_loop affinity fault d (Suc k) (indent @ arrow) (show_int (p_parent_id p)) (out @ trace_line indent arg p))"

definition trace_command ::
  "(string \<Rightarrow> int option) \<Rightarrow> go_error option \<Rightarrow> (nat \<Rightarrow> go_error option) \<Rightarrow> string \<Rightarrow> Config result \<Rightarrow> (string \<Rightarrow> db)
     \<Rightarrow> cmd_output option" where
  "trace_command affinity open_err fault arg loaded dbs =
     (case open_err of
        Some err \<Rightarrow> Some (1, ''Error: failed to open database: '' @ err @ [newline])
      | None \<Rightarrow> map_option (Pair 0) (trace_loop affinity fault (dbs (cli_db_path loaded)) 0 [] arg
          (banner (''PROCESS PARENT-CHILD EXECUTION LINEAGE FOR PID '' @ arg @ '':''))))"

section \<open>A client reaches the daemon of its configuration\<close>

text \<open>Client and daemon agree on the socket, and on the token when it is configured or its file was
  written and not changed since.\<close>

lemma client_connected:
  assumes started: "daemon_start env drv rows os fuel qenv loaded (fs, dbs) = (Running dm, fs', dbs')"
    and env: "random_ok env" "de_write_token env = None"
    and conn: "getGRPCClient None None loaded fs' = Ok cl"
  shows "call cl (Some dm) handler h = handler (dm_server dm) h"
    and "sv_token (dm_server dm) \<noteq> []"
    and "serving cl (Some dm) = Some (dm_server dm)"
    and "StreamAuthInterceptor (dm_server dm) (Some (outgoing cl)) stream evs = stream evs"
proof -
  let ?cfg = "daemon_config loaded"
  have cl: "cl = \<lparr>cl_socket = ag_IPCSocket (cf_Agent (client_config loaded)),
      cl_token = client_token None (client_config loaded) fs'\<rparr>"
    using conn by (simp add: getGRPCClient_def Let_def)
  have cfg: "ag_IPCSocket (cf_Agent (client_config loaded)) = ag_IPCSocket (cf_Agent ?cfg)"
    "ag_IPCToken (cf_Agent (client_config loaded)) = ag_IPCToken (cf_Agent ?cfg)"
    by (simp_all add: client_config_def daemon_config_def split: sum.split)
  have tok: "cl_token cl = sv_token (dm_server dm) \<and> sv_token (dm_server dm) \<noteq> []"
    using daemon_started [OF started] new_token_nonempty [OF env(1)] env(2)
    by (simp add: cl client_token_def cfg linux_server_def NewServer_def ipc_token_def write_file_def)
  then show "sv_token (dm_server dm) \<noteq> []" by simp
  show serving: "serving cl (Some dm) = Some (dm_server dm)"
    using daemon_started [OF started] by (simp add: serving_def cl cfg)
  show "call cl (Some dm) handler h = handler (dm_server dm) h"
    using tok serving by (simp add: call_def UnaryAuthInterceptor_def outgoing_def)
  show "StreamAuthInterceptor (dm_server dm) (Some (outgoing cl)) stream evs = stream evs"
    using tok by (simp add: StreamAuthInterceptor_def outgoing_def)
qed

section \<open>Hunting\<close>

definition plain_text :: "string \<Rightarrow> bool" where
  "plain_text q \<longleftrightarrow> CHR ''%'' \<notin> set q \<and> CHR ''_'' \<notin> set q"

lemma sql_like_percent: "sql_like ''%'' s"
  by (induction s) simp_all

lemma sql_like_prefix:
  "plain_text q \<Longrightarrow> sql_like (q @ ''%'') s \<longleftrightarrow> HasPrefix (ToLower s) (ToLower q)"
proof (induction q arbitrary: s)
  case Nil
  then show ?case by (simp add: sql_like_percent HasPrefix_def)
next
  case (Cons c q)
  then show ?case by (cases s) (auto simp: plain_text_def HasPrefix_def ToLower_def)
qed

text \<open>Between two per cent signs a text without wildcards is searched for in either case.\<close>

lemma like_anywhere_contains:
  "plain_text q \<Longrightarrow> sql_like (like_anywhere q) s \<longleftrightarrow> Contains (ToLower s) (ToLower q)"
proof (induction s)
  case Nil
  then show ?case
    using sql_like_prefix [of q "[]"] by (simp add: like_anywhere_def ToLower_def)
next
  case (Cons c s)
  then show ?case
    using sql_like_prefix [of q "c # s"] by (auto simp: like_anywhere_def ToLower_def)
qed

section \<open>The lineage\<close>

text \<open>One step of the loop: the parent it goes on to, if any.\<close>

definition parent_step :: "(string \<Rightarrow> int option) \<Rightarrow> db \<Rightarrow> string \<Rightarrow> string option" where
  "parent_step affinity d arg =
     (case find_process affinity arg d of
        None \<Rightarrow> None
      | Some p \<Rightarrow> if p_parent_id p \<le> 0 \<or> arg = show_int (p_parent_id p) then None else Some (show_int (p_parent_id p)))"

fun ancestor :: "(string \<Rightarrow> int option) \<Rightarrow> db \<Rightarrow> string \<Rightarrow> nat \<Rightarrow> string option" where
  "ancestor affinity d arg 0 = Some arg"
| "ancestor affinity d arg (Suc n) =
     (case parent_step affinity d arg of None \<Rightarrow> None | Some a \<Rightarrow> ancestor affinity d a n)"

text \<open>The lines of the first generations.\<close>

fun lineage :: "(string \<Rightarrow> int option) \<Rightarrow> db \<Rightarrow> string \<Rightarrow> string \<Rightarrow> nat \<Rightarrow> string" where
  "lineage affinity d indent arg 0 = []"
| "lineage affinity d indent arg (Suc n) =
     (case find_process affinity arg d of
        None \<Rightarrow> []
      | Some p \<Rightarrow> trace_line indent arg p @
          (case parent_step affinity d arg of None \<Rightarrow> [] | Some a \<Rightarrow> lineage affinity d (indent @ arrow) a n))"

lemma trace_loop_ends:
  "\<forall>i < n. fault (k + i) = None \<Longrightarrow> fault (k + n) \<noteq> None \<or> ancestor affinity d arg n = None \<Longrightarrow>
     trace_loop affinity fault d k indent arg out = Some (out @ lineage affinity d indent arg n)"
proof (induction n arbitrary: k indent arg out)
  case 0
  then show ?case by (subst trace_loop.simps) auto
next
  case (Suc n)
  have first: "fault k = None" using Suc.prems(1) by force
  have later: "\<forall>i < n. fault (Suc k + i) = None" using Suc.prems(1) by (auto dest: spec [of _ "Suc i" for i])
  show ?case
  proof (cases "parent_step affinity d arg")
    case None
    then show ?thesis by (subst trace_loop.simps) (auto simp: first parent_step_def split: option.splits if_splits)
  next
    case (Some a)
    with Suc.prems(2) have "fault (Suc k + n) \<noteq> None \<or> ancestor affinity d a n = None" by simp
    from Suc.IH [OF later this] Some show ?thesis
      by (subst trace_loop.simps) (auto simp: first parent_step_def split: option.splits if_splits)
  qed
qed

lemma trace_loop_only_if:
  assumes "trace_loop affinity fault d k indent arg out = Some result"
  shows "\<exists>n. fault (k + n) \<noteq> None \<or> ancestor affinity d arg n = None"
proof (rule trace_loop.raw_induct [where P = "\<lambda>affinity fault d k indent arg out result.
      \<exists>n. fault (k + n) \<noteq> None \<or> ancestor affinity d arg n = None", OF _ assms])
  fix f affinity fault d k indent arg out result
  assume IH: "\<And>affinity fault d k indent arg out result.
      f affinity fault d k indent arg out = Some result \<Longrightarrow> \<exists>n. fault (k + n) \<noteq> None \<or> ancestor affinity d arg n = None"
    and step: "(case (case fault k of Some err \<Rightarrow> None | None \<Rightarrow> find_process affinity arg d) of
        None \<Rightarrow> Some out
      | Some p \<Rightarrow>
          if p_parent_id p \<le> 0 \<or> arg = show_int (p_parent_id p) then Some (out @ trace_line indent arg p)
          else f affinity fault d (Suc k) (indent @ arrow) (show_int (p_parent_id p)) (out @ trace_line indent arg p)) = Some result"
  show "\<exists>n. fault (k + n) \<noteq> None \<or> ancestor affinity d arg n = None"
  proof (cases "fault k \<noteq> None \<or> parent_step affinity d arg = None")
    case True
    then have "fault (k + 0) \<noteq> None \<or> ancestor affinity d arg (Suc 0) = None" by auto
    moreover have "ancestor affinity d arg 0 \<noteq> None" by simp
    ultimately show ?thesis by blast
  next
    case False
    then obtain a where a: "fault k = None" "parent_step affinity d arg = Some a" by auto
    then obtain n where "fault (Suc k + n) \<noteq> None \<or> ancestor affinity d a n = None"
      using IH step by (fastforce simp: parent_step_def split: option.splits if_splits)
    with a have "fault (k + Suc n) \<noteq> None \<or> ancestor affinity d arg (Suc n) = None" by simp
    then show ?thesis by blast
  qed
qed

text \<open>C29 (termination). Tracing a process ends exactly if the chain of stored parents does or a query
  fails. It prints one line per generation, from the process to the first ancestor that
  is not stored, has no positive parent or is its own parent; when a query fails first, the
  lines of the generations before it, and the exit code is 0 all the same. The database is taken to stay
  the same meanwhile.\<close>

theorem trace_spec:
  assumes "d = dbs (cli_db_path loaded)"
  shows "((\<exists>out. trace_command affinity None fault arg loaded dbs = Some out)
      \<longleftrightarrow> (\<exists>n. fault n \<noteq> None \<or> ancestor affinity d arg n = None))
    \<and> ((\<forall>i < n. fault i = None) \<and> (fault n \<noteq> None \<or> ancestor affinity d arg n = None) \<longrightarrow>
        trace_command affinity None fault arg loaded dbs =
          Some (0, banner (''PROCESS PARENT-CHILD EXECUTION LINEAGE FOR PID '' @ arg @ '':'') @ lineage affinity d [] arg n))"
proof -
  have out: "trace_command affinity None fault arg loaded dbs =
      Some (0, banner (''PROCESS PARENT-CHILD EXECUTION LINEAGE FOR PID '' @ arg @ '':'') @ lineage affinity d [] arg m)"
    if "\<forall>i < m. fault i = None" "fault m \<noteq> None \<or> ancestor affinity d arg m = None" for m
    using trace_loop_ends [of m fault 0 affinity d arg] that by (simp add: trace_command_def assms)
  have "\<exists>out. trace_command affinity None fault arg loaded dbs = Some out"
    if stop: "\<exists>m. fault m \<noteq> None \<or> ancestor affinity d arg m = None"
  proof -
    let ?m = "LEAST m. fault m \<noteq> None \<or> ancestor affinity d arg m = None"
    have "fault ?m \<noteq> None \<or> ancestor affinity d arg ?m = None" using stop by (rule LeastI_ex)
    moreover have "\<forall>i < ?m. fault i = None" using not_less_Least by blast
    ultimately show ?thesis using out [of ?m] by blast
  qed
  moreover have "\<exists>m. fault m \<noteq> None \<or> ancestor affinity d arg m = None"
    if "trace_command affinity None fault arg loaded dbs = Some res" for res
    using that trace_loop_only_if [of affinity fault d 0 "[]" arg]
    by (auto simp: trace_command_def assms simp del: trace_loop.simps banner_def)
  ultimately show ?thesis using out [of n] by blast
qed

text \<open>A cycle of two stored processes traps the trace for ever, as long as no query fails. The parents stored
  are PIDs of the operating system while the ids are row numbers, so two unrelated processes
  can form one.\<close>

theorem trace_cycle_diverges:
  assumes "\<And>i. affinity (show_int i) = Some i" "\<And>k. fault k = None"
    and "find_process affinity (show_int i) d = Some p" "p_parent_id p = j"
    and "find_process affinity (show_int j) d = Some q" "p_parent_id q = i"
    and "0 < i" "0 < j" "i \<noteq> j"
  shows "trace_command affinity None fault (show_int i) loaded (\<lambda>_. d) = None"
proof -
  have step: "parent_step affinity d (show_int i) = Some (show_int j)" "parent_step affinity d (show_int j) = Some (show_int i)"
    using assms by (simp_all add: parent_step_def)
  have "ancestor affinity d (show_int i) n \<noteq> None \<and> ancestor affinity d (show_int j) n \<noteq> None" for n
    by (induction n) (simp_all add: step)
  then have "trace_loop affinity fault d 0 indent (show_int i) out = None" for indent out
    using trace_loop_only_if [of affinity fault d 0 indent "show_int i" out] assms(2)
    by (cases "trace_loop affinity fault d 0 indent (show_int i) out") (auto simp del: not_None_eq)
  then show ?thesis by (simp add: trace_command_def)
qed

text \<open>A process whose parent has PID 2, and then one whose parent has PID 1, are rows 1 and 2.\<close>

definition crossed_db :: db where
  "crossed_db = store_run [OpProcess None 0 2 ''/bin/a'' [] ''a'' ''root'', OpProcess None 0 1 ''/bin/b'' [] ''b'' ''root''] empty_db"

lemma crossed_db_rows:
  "processes crossed_db =
     [\<lparr>p_process_id = 1, p_parent_id = 2, p_binary_path = ''/bin/a'', p_sha256 = [], p_command_line = ''a'', p_username = ''root'', p_launched_at = 0\<rparr>,
      \<lparr>p_process_id = 2, p_parent_id = 1, p_binary_path = ''/bin/b'', p_sha256 = [], p_command_line = ''b'', p_username = ''root'', p_launched_at = 0\<rparr>]"
  by code_simp

definition exact_affinity :: "string \<Rightarrow> int option" where
  "exact_affinity s =
     (if s = show_int (int (read_nat s)) then Some (int (read_nat s))
      else if s = show_int (- int (read_nat (tl s))) then Some (- int (read_nat (tl s))) else None)"

lemma exact_affinity_show [simp]: "exact_affinity (show_int i) = Some i"
proof (cases "0 \<le> i")
  case True
  then show ?thesis by (simp add: exact_affinity_def show_int_def read_show_nat)
next
  case False
  then have "show_int i = CHR ''-'' # show_nat (nat (- i))" by (simp add: show_int_def)
  with False show ?thesis
    using show_int_inject [of i "int (read_nat (show_int i))"] by (auto simp: exact_affinity_def read_show_nat)
qed

theorem trace_cycle_diverges_witness:
  "trace_command exact_affinity None (\<lambda>_. None) (show_int 1) (Err ''no file'') (\<lambda>_. crossed_db) = None"
  by (rule trace_cycle_diverges [of _ _ 1 _ "processes crossed_db ! 0" 2 "processes crossed_db ! 1"])
    (simp_all add: find_process_def rows_of_def crossed_db_rows)

text \<open>On the cycle, the third query fails.\<close>

theorem trace_spec_witness:
  "\<exists>out. trace_command exact_affinity None (\<lambda>k. if k = 2 then Some ''locked'' else None) (show_int 1) (Err ''no file'') (\<lambda>_. crossed_db)
    = Some (0, out @ lineage exact_affinity crossed_db [] (show_int 1) 2)"
  using trace_spec [of crossed_db "\<lambda>_. crossed_db" "Err ''no file''" exact_affinity
      "\<lambda>k. if k = 2 then Some ''locked'' else None" "show_int 1" 2] by auto

text \<open>C30 (equivalence). A hunt by text finds exactly the stored processes, files or connections whose path
  or address contains the text, upper and lower case alike, in the order in which they were
  stored, as long as the text has none of SQL's wildcards.\<close>

theorem hunt_spec:
  assumes "hf_Ioc hf = []" "\<not> 0 < hf_Risk hf" "hf_Mitre hf = []" "plain_text (hf_Query hf)"
  defines "found \<equiv> \<lambda>s. Contains (ToLower s) (ToLower (hf_Query hf))"
  shows "hunt_command None None hf loaded dbs = (0,
    if hf_Type hf = ''file'' then ''FILE HUNT RESULTS:'' @ [newline]
      @ concat (map file_line (filter (\<lambda>f. found (f_file_path f)) (file_modifications (dbs (cli_db_path loaded)))))
    else if hf_Type hf = ''network'' then ''NETWORK HUNT RESULTS:'' @ [newline]
      @ concat (map net_line (filter (\<lambda>n. found (n_remote_ip n)) (network_connections (dbs (cli_db_path loaded)))))
    else ''PROCESS HUNT RESULTS:'' @ [newline]
      @ concat (map bin_line (filter (\<lambda>p. found (p_binary_path p)) (processes (dbs (cli_db_path loaded))))))"
  using assms(1-3) unfolding found_def
  by (simp add: hunt_command_def hunt_results_def print_rows_def like_anywhere_contains [OF assms(4)])

theorem hunt_spec_witness:
  "hunt_command None None \<lparr>hf_Type = ''process'', hf_Query = ''BIN/B'', hf_Risk = 0, hf_Mitre = [], hf_Ioc = []\<rparr> (Err ''no file'') (\<lambda>_. crossed_db)
     = (0, ''PROCESS HUNT RESULTS:'' @ [newline] @ ''Bin: /bin/b | Args: b'' @ [newline])"
proof -
  have "plain_text ''BIN/B''" "\<not> Contains (ToLower ''/bin/a'') (ToLower ''BIN/B'')" "Contains (ToLower ''/bin/b'') (ToLower ''BIN/B'')"
    by code_simp+
  then show ?thesis
    using hunt_spec [of "\<lparr>hf_Type = ''process'', hf_Query = ''BIN/B'', hf_Risk = 0, hf_Mitre = [], hf_Ioc = []\<rparr>" "Err ''no file''" "\<lambda>_. crossed_db"]
    by (simp add: crossed_db_rows bin_line_def)
qed

section \<open>Health\<close>

record healthModel =
  hm_status :: string
  hm_err :: "go_error option"

definition health_View :: "healthModel \<Rightarrow> string" where
  "health_View m =
     (case hm_err m of
        Some err \<Rightarrow> ''Health Check: FAILED ('' @ err @ '')'' @ [newline]
      | None \<Rightarrow> ''Health Check: OK ('' @ hm_status m @ '')'' @ [newline])"

text \<open>The program shows the view once; \<open>run_err\<close> is the terminal library's error.\<close>

definition health_model :: "client result \<Rightarrow> 's daemon option \<Rightarrow> healthModel" where
  "health_model conn dm =
     (case conn of
        Inl err \<Rightarrow> \<lparr>hm_status = [], hm_err = Some err\<rparr>
      | Inr cl \<Rightarrow>
          (case call cl dm (\<lambda>s h. Some (GetStatus s, h)) () of
             None \<Rightarrow> \<lparr>hm_status = [], hm_err = Some unavailable\<rparr>
           | Some (Inl err, _) \<Rightarrow> \<lparr>hm_status = [], hm_err = Some err\<rparr>
           | Some (Inr res, _) \<Rightarrow>
               \<lparr>hm_status = ''Daemon state: '' @ sr_Status res @ '', version: '' @ sr_Version res, hm_err = None\<rparr>))"

definition health_command :: "go_error option \<Rightarrow> client result \<Rightarrow> 's daemon option \<Rightarrow> cmd_output" where
  "health_command run_err conn dm =
     (case run_err of
        Some err \<Rightarrow> (1, ''Error: bubbletea health program failed: '' @ err @ [newline])
      | None \<Rightarrow> (0, health_View (health_model conn dm)))"

end
