(* ===== verification/Doctor.thy ===== *)
theory Doctor
  imports Policy_Engine Detectors
begin

text \<open>
  The self-diagnosis (\<open>internal/doctor/doctor.go\<close>): twelve checks in a fixed order, the overall
  status, and the printed report. What a check asks of its surroundings (the configuration,
  the database driver, the YARA library and the YAML decoder, the user, the file system, the
  memory, the network) is a parameter by its outcome.
\<close>

section \<open>Status\<close>

datatype CheckStatus = StatusOk | StatusWarn | StatusFail

text \<open>Statuses are ordered by severity, so that the worst of a set is its maximum.\<close>

fun severity :: "CheckStatus \<Rightarrow> nat" where
  "severity StatusOk = 0"
| "severity StatusWarn = 1"
| "severity StatusFail = 2"

instantiation CheckStatus :: linorder
begin

definition less_eq_CheckStatus :: "CheckStatus \<Rightarrow> CheckStatus \<Rightarrow> bool" where
  "s \<le> t \<longleftrightarrow> severity s \<le> severity t"

definition less_CheckStatus :: "CheckStatus \<Rightarrow> CheckStatus \<Rightarrow> bool" where
  "s < t \<longleftrightarrow> severity s < severity t"

instance
proof
  fix s t :: CheckStatus
  show "s \<le> t \<Longrightarrow> t \<le> s \<Longrightarrow> s = t" by (cases s; cases t) (simp_all add: less_eq_CheckStatus_def)
qed (auto simp: less_eq_CheckStatus_def less_CheckStatus_def)

end

definition status_text :: "CheckStatus \<Rightarrow> string" where
  "status_text s = (case s of StatusOk \<Rightarrow> ''OK'' | StatusWarn \<Rightarrow> ''WARN'' | StatusFail \<Rightarrow> ''FAIL'')"

record ComponentCheck =
  cc_Name :: string
  cc_Status :: CheckStatus
  cc_Details :: string

record DoctorReport =
  dr_Timestamp :: go_time
  dr_Checks :: "ComponentCheck list"
  dr_Overall :: CheckStatus

section \<open>The checks\<close>

text \<open>The outcomes of one run.\<close>

record 'r surroundings =
  su_now :: go_time
  su_logger :: bool
  su_config :: "Config result"
  su_open :: "string \<Rightarrow> go_error option"
  su_ping :: "string \<Rightarrow> go_error option"
  su_yara :: "'r yara_lib"
  su_unmarshal :: "string \<Rightarrow> SigmaRule result"
  su_uid :: int
  su_write :: "go_error option"
  su_alloc :: uint64
  su_sys :: uint64
  su_updates :: "go_error option"

definition check :: "string \<Rightarrow> CheckStatus \<Rightarrow> string \<Rightarrow> ComponentCheck" where
  "check name status details = \<lparr>cc_Name = name, cc_Status = status, cc_Details = details\<rparr>"

definition checkLogger :: "'r surroundings \<Rightarrow> ComponentCheck" where
  "checkLogger w =
     (if su_logger w then check ''Logger'' StatusOk ''Global logger initialized successfully''
      else check ''Logger'' StatusFail ''Global logger is nil'')"

definition show_bool :: "bool \<Rightarrow> string" where
  "show_bool b = (if b then ''true'' else ''false'')"

definition checkConfig :: "'r surroundings \<Rightarrow> ComponentCheck" where
  "checkConfig w =
     (case su_config w of
        Inl err \<Rightarrow> check ''Configuration'' StatusFail (''Failed to load configs/aegis.yaml: '' @ err)
      | Inr cfg \<Rightarrow> check ''Configuration'' StatusOk (''Loaded configuration successfully. Process monitoring: ''
          @ show_bool (tc_ProcessMonitoring (cf_Telemetry cfg))))"

definition doctor_db_path :: "Config result \<Rightarrow> string" where
  "doctor_db_path loaded =
     (case loaded of
        Inr cfg \<Rightarrow> if st_Path (cf_Storage cfg) \<noteq> [] then st_Path (cf_Storage cfg) else ''telemetry.db''
      | Inl _ \<Rightarrow> ''telemetry.db'')"

definition checkDatabase :: "'r surroundings \<Rightarrow> ComponentCheck" where
  "checkDatabase w =
     (let dbPath = doctor_db_path (su_config w)
      in case su_open w dbPath of
           Some err \<Rightarrow> check ''Database'' StatusFail (''Failed to open sqlite db file: '' @ err)
         | None \<Rightarrow> (case su_ping w dbPath of
             Some err \<Rightarrow> check ''Database'' StatusFail (''Failed to ping sqlite database: '' @ err)
           | None \<Rightarrow> check ''Database'' StatusOk ''SQLite database connections OK''))"

definition doctor_policy :: Policy where
  "doctor_policy = \<lparr>po_ID = ''doctor-test'', po_ParentID = [],
     po_Rules = [\<lparr>ru_ID = ''r1'', ru_Name = ''Test rule'', ru_Action = ActionAllow, ru_ProcessPath = ''/bin/sh'', ru_RiskScore = 0\<rparr>],
     po_Version = 0\<rparr>"

definition checkPolicies :: "'r surroundings \<Rightarrow> ComponentCheck" where
  "checkPolicies w =
     (case ValidatePolicy doctor_policy of
        Inl err \<Rightarrow> check ''Policies'' StatusFail (''Policy Engine validation checks failed: '' @ err)
      | Inr _ \<Rightarrow> check ''Policies'' StatusOk ''Policy Engine rule mapping validation operational'')"

definition checkYara :: "'r surroundings \<Rightarrow> ComponentCheck" where
  "checkYara w =
     (case yara_NewEngine (su_yara w) ''rule doc_rule { condition: true }'' of
        Inl err \<Rightarrow> check ''YARA'' StatusFail (''Failed to initialize YARA scanner: '' @ err)
      | Inr engine \<Rightarrow> (case ScanBytes (su_yara w) engine ''test'' of
          Inl err \<Rightarrow> check ''YARA'' StatusFail (''YARA scanning failed: '' @ err)
        | Inr _ \<Rightarrow> check ''YARA'' StatusOk ''YARA signature scanning engine fully operational''))"

definition doctor_rule_text :: string where
  "doctor_rule_text = concat (map (\<lambda>l. l @ [newline])
     [[], ''title: Test Rule'', ''logsource:'', ''  category: process_creation'', ''detection:'', ''  selection:'',
      ''    Image: '' @ [char_of (39 :: nat)] @ ''/bin/sh'' @ [char_of (39 :: nat)], ''  condition: selection''])"

definition checkSigma :: "'r surroundings \<Rightarrow> ComponentCheck" where
  "checkSigma w =
     (case fst (AddRule (su_unmarshal w) doctor_rule_text []) of
        Inl err \<Rightarrow> check ''Sigma'' StatusFail (''Failed to register Sigma rule parser: '' @ err)
      | Inr _ \<Rightarrow> check ''Sigma'' StatusOk ''Sigma rule loading and syntax parser operational'')"

definition checkPermissions :: "'r surroundings \<Rightarrow> ComponentCheck" where
  "checkPermissions w =
     (if su_uid w = 0 then check ''Permissions'' StatusOk ''Running with administrative root permissions''
      else check ''Permissions'' StatusWarn
        (''Agent running with non-root UID '' @ show_int (su_uid w) @ ''. Host containment may be unavailable''))"

definition checkFilesystem :: "'r surroundings \<Rightarrow> ComponentCheck" where
  "checkFilesystem w =
     (case su_write w of
        Some err \<Rightarrow> check ''Filesystem'' StatusFail (''Filesystem write test failed: '' @ err)
      | None \<Rightarrow> check ''Filesystem'' StatusOk ''Permissions to read/write tmp structures OK'')"

definition megabytes :: "uint64 \<Rightarrow> f64" where
  "megabytes n = fdiv (fdiv (f64_of_int (uint n)) 1024) 1024"

definition checkMemory :: "'r surroundings \<Rightarrow> ComponentCheck" where
  "checkMemory w = check ''Memory'' StatusOk (''Memory Footprint: Allocated: '' @ fmt_2f (megabytes (su_alloc w))
     @ '' MB | Sys: '' @ fmt_2f (megabytes (su_sys w)) @ '' MB'')"

definition checkPlugins :: "'r surroundings \<Rightarrow> ComponentCheck" where
  "checkPlugins w = check ''Plugins'' StatusOk ''SDK dynamic plugin boundaries OK''"

definition checkThreatIntel :: "'r surroundings \<Rightarrow> ComponentCheck" where
  "checkThreatIntel w = check ''Threat Intel'' StatusOk ''Indicators caching maps verified''"

definition checkUpdates :: "'r surroundings \<Rightarrow> ComponentCheck" where
  "checkUpdates w =
     (case su_updates w of
        Some err \<Rightarrow> check ''Updates'' StatusWarn ''Network updates server unreachable (running offline mode fallback)''
      | None \<Rightarrow> check ''Updates'' StatusOk ''Connectivity to remote updates servers OK'')"

section \<open>The report\<close>

text \<open>The loop over the checks, which stops at the first failure.\<close>

fun overall :: "CheckStatus \<Rightarrow> ComponentCheck list \<Rightarrow> CheckStatus" where
  "overall s [] = s"
| "overall s (c # cs) =
     (if cc_Status c = StatusFail then StatusFail
      else if cc_Status c = StatusWarn \<and> s \<noteq> StatusFail then overall StatusWarn cs
      else overall s cs)"

definition doctor_Run :: "'r surroundings \<Rightarrow> DoctorReport result" where
  "doctor_Run w =
     (let checks = [checkLogger w, checkConfig w, checkDatabase w, checkPolicies w, checkYara w, checkSigma w,
          checkPermissions w, checkFilesystem w, checkMemory w, checkPlugins w, checkThreatIntel w, checkUpdates w]
      in Ok \<lparr>dr_Timestamp = su_now w, dr_Checks = checks, dr_Overall = overall StatusOk checks\<rparr>)"

text \<open>The printed line of a check: a symbol, the name in fifteen columns, the details.\<close>

definition status_symbol :: "CheckStatus \<Rightarrow> string" where
  "status_symbol s =
     (case s of
        StatusFail \<Rightarrow> ''['' @ map char_of [226 :: nat, 156, 151] @ '']''
      | StatusWarn \<Rightarrow> ''[!]''
      | StatusOk \<Rightarrow> ''['' @ map char_of [226 :: nat, 156, 147] @ '']'')"

definition pad_right :: "nat \<Rightarrow> string \<Rightarrow> string" where
  "pad_right n s = s @ replicate (n - length s) (CHR '' '')"

definition check_line :: "ComponentCheck \<Rightarrow> string" where
  "check_line c = status_symbol (cc_Status c) @ '' '' @ pad_right 15 (cc_Name c) @ '': '' @ cc_Details c @ [newline]"

definition doctor_Print :: "(go_time \<Rightarrow> string) \<Rightarrow> DoctorReport \<Rightarrow> string" where
  "doctor_Print fmt_time report =
     ''AEGIS SELF DIAGNOSTICS HEALTH REPORT'' @ [newline]
     @ ''========================================='' @ [newline]
     @ ''Diagnostics Ran: '' @ fmt_time (dr_Timestamp report) @ [newline]
     @ ''Overall Status  : '' @ status_text (dr_Overall report) @ [newline, newline]
     @ concat (map check_line (dr_Checks report))"

section \<open>What the overall status means\<close>

lemma status_cases: "s = StatusOk \<or> s = StatusWarn \<or> s = StatusFail"
  by (cases s) auto

lemma status_max [simp]:
  "max StatusFail s = StatusFail" "max s StatusFail = StatusFail" "max StatusOk s = s" "max s StatusOk = s"
  by (cases s; simp add: max_def less_eq_CheckStatus_def)+

lemma overall_failed [simp]: "overall StatusFail cs = StatusFail"
  by (induction cs) auto

lemma overall_step: "overall s (c # cs) = overall (max (cc_Status c) s) cs"
  using status_cases [of "cc_Status c"] by (cases s) (auto simp: max_def less_eq_CheckStatus_def)

lemma overall_fold: "overall s cs = fold max (map cc_Status cs) s"
proof (induction cs arbitrary: s)
  case (Cons c cs)
  show ?case by (simp only: overall_step Cons list.map fold_simps)
qed simp

lemma overall_max: "overall s cs = Max (insert s (cc_Status ` set cs))"
  using Max.set_eq_fold [of s "map cc_Status cs"] by (simp add: overall_fold)

lemma policies_check_ok [simp]: "cc_Status (checkPolicies w) = StatusOk"
proof -
  have "ValidatePolicy doctor_policy = Ok ()" by code_simp
  then show ?thesis by (simp add: checkPolicies_def check_def)
qed

lemmas check_defs = checkLogger_def checkConfig_def checkDatabase_def checkYara_def checkSigma_def checkPermissions_def
  checkFilesystem_def checkMemory_def checkPlugins_def checkThreatIntel_def checkUpdates_def check_def Let_def

lemma check_names [simp]:
  "cc_Name (checkLogger w) = ''Logger''" "cc_Name (checkConfig w) = ''Configuration''" "cc_Name (checkDatabase w) = ''Database''"
  "cc_Name (checkPolicies w) = ''Policies''" "cc_Name (checkYara w) = ''YARA''" "cc_Name (checkSigma w) = ''Sigma''"
  "cc_Name (checkPermissions w) = ''Permissions''" "cc_Name (checkFilesystem w) = ''Filesystem''" "cc_Name (checkMemory w) = ''Memory''"
  "cc_Name (checkPlugins w) = ''Plugins''" "cc_Name (checkThreatIntel w) = ''Threat Intel''" "cc_Name (checkUpdates w) = ''Updates''"
  by (simp_all add: check_defs checkPolicies_def split: sum.split option.split)

text \<open>The checks that can fail: the logger, the configuration, the database, YARA, Sigma and the file system.\<close>

definition broken :: "'r surroundings \<Rightarrow> bool" where
  "broken w \<longleftrightarrow> \<not> su_logger w \<or> \<not> is_ok (su_config w)
     \<or> su_open w (doctor_db_path (su_config w)) \<noteq> None \<or> su_ping w (doctor_db_path (su_config w)) \<noteq> None
     \<or> cc_Status (checkYara w) = StatusFail \<or> \<not> is_ok (su_unmarshal w doctor_rule_text) \<or> su_write w \<noteq> None"

text \<open>C35 (functional). A diagnosis always consists of the same twelve checks, and its overall status is the
  worst of theirs: failed exactly if the logger, the configuration, the database, YARA, the
  Sigma decoder or the file system failed, and without any of these a warning exactly if the
  agent does not run as root or the update server is out of reach.\<close>

theorem doctor_report:
  "\<exists>r. doctor_Run w = Ok r
    \<and> map cc_Name (dr_Checks r) = [''Logger'', ''Configuration'', ''Database'', ''Policies'', ''YARA'', ''Sigma'',
        ''Permissions'', ''Filesystem'', ''Memory'', ''Plugins'', ''Threat Intel'', ''Updates'']
    \<and> dr_Overall r = Max (cc_Status ` set (dr_Checks r))
    \<and> dr_Overall r = (if broken w then StatusFail
        else if su_uid w = 0 \<and> su_updates w = None then StatusOk else StatusWarn)"
proof -
  let ?cs = "[checkLogger w, checkConfig w, checkDatabase w, checkPolicies w, checkYara w, checkSigma w,
      checkPermissions w, checkFilesystem w, checkMemory w, checkPlugins w, checkThreatIntel w, checkUpdates w]"
  have "overall StatusOk ?cs = Max (insert StatusOk (cc_Status ` set ?cs))" by (rule overall_max)
  also have "insert StatusOk (cc_Status ` set ?cs) = cc_Status ` set ?cs"
    using policies_check_ok [of w] by (auto simp: image_iff simp del: policies_check_ok)
  finally have worst: "overall StatusOk ?cs = Max (cc_Status ` set ?cs)" .
  have fails: "cc_Status (checkLogger w) = (if su_logger w then StatusOk else StatusFail)"
    "cc_Status (checkConfig w) = (if is_ok (su_config w) then StatusOk else StatusFail)"
    "cc_Status (checkDatabase w) = (if su_open w (doctor_db_path (su_config w)) \<noteq> None \<or> su_ping w (doctor_db_path (su_config w)) \<noteq> None
       then StatusFail else StatusOk)"
    "cc_Status (checkSigma w) = (if is_ok (su_unmarshal w doctor_rule_text) then StatusOk else StatusFail)"
    "cc_Status (checkFilesystem w) = (if su_write w \<noteq> None then StatusFail else StatusOk)"
    "cc_Status (checkPermissions w) = (if su_uid w \<noteq> 0 then StatusWarn else StatusOk)"
    "cc_Status (checkUpdates w) = (if su_updates w \<noteq> None then StatusWarn else StatusOk)"
    "cc_Status (checkMemory w) = StatusOk" "cc_Status (checkPlugins w) = StatusOk" "cc_Status (checkThreatIntel w) = StatusOk"
    by (simp_all add: check_defs AddRule_def is_ok_def split: sum.split option.split)
  have yara: "cc_Status (checkYara w) \<noteq> StatusWarn"
    by (simp add: check_defs split: sum.split)
  have "overall StatusOk ?cs = (if broken w then StatusFail
        else if su_uid w = 0 \<and> su_updates w = None then StatusOk else StatusWarn)"
    using yara by (simp add: broken_def fails)
  with worst show ?thesis
    unfolding doctor_Run_def Let_def by (intro exI [of _ "\<lparr>dr_Timestamp = su_now w, dr_Checks = ?cs, dr_Overall = overall StatusOk ?cs\<rparr>"]) (simp del: overall.simps set_simps)
qed

end
