(* ===== verification/Report.thy ===== *)
theory Report
  imports Float64
begin

text \<open>
  Reports (\<open>internal/report/report.go\<close>) as JSON, HTML, CSV and PDF. The JSON encoder and the
  rendering of times are parameters. The generator sets the title and the time in the data it
  is given, which the caller sees.
\<close>

record ReportData =
  rd_Timestamp :: go_time
  rd_Title :: string
  rd_Summary :: string
  rd_AlertCount :: int
  rd_MaxRiskScore :: f64
  rd_MitreTags :: "string list"
  rd_TimelineEvents :: "string list"
  rd_IocMatches :: "string list"
  rd_CPUUsage :: f64
  rd_MemoryMB :: uint64
  rd_DatabaseSizeKB :: int64
  rd_Status :: string

definition text_lines :: "string list \<Rightarrow> string" where
  "text_lines ls = concat (map (\<lambda>l. l @ [newline]) ls)"

section \<open>HTML\<close>

definition list_item :: "string \<Rightarrow> string" where
  "list_item s = ''<li>'' @ s @ ''</li>''"

definition html_card :: "string \<Rightarrow> string list \<Rightarrow> string" where
  "html_card heading items =
     (if items = [] then []
      else ''<div class=\"card\"><h2>'' @ heading @ ''</h2><ul>'' @ concat (map list_item items) @ ''</ul></div>'')"

definition html_head :: "(go_time \<Rightarrow> string) \<Rightarrow> ReportData \<Rightarrow> string" where
  "html_head fmt_time data = text_lines
     [''<!DOCTYPE html>'', ''<html>'', ''<head>'',
      ''<title>'' @ rd_Title data @ ''</title>'', ''<style>'',
      ''body { font-family: sans-serif; margin: 30px; background-color: #f7f9fa; color: #333; }'',
      ''h1 { color: #1a73e8; }'',
      ''.card { background: white; padding: 20px; border-radius: 8px; box-shadow: 0 2px 4px rgba(0,0,0,0.1); margin-bottom: 20px; }'',
      ''.meta { color: #666; font-size: 0.9em; }'',
      ''</style>'', ''</head>'', ''<body>'',
      ''<h1>'' @ rd_Title data @ ''</h1>'',
      ''<div class=\"meta\">Generated: '' @ fmt_time (rd_Timestamp data) @ ''</div>'',
      ''<div class=\"card\">'', ''<h2>Executive Summary</h2>'',
      ''<p>'' @ rd_Summary data @ ''</p>'',
      ''<p>Alerts Triggered: <strong>'' @ show_int (rd_AlertCount data) @ ''</strong> (Max Risk Score: <strong>''
        @ fmt_2f (rd_MaxRiskScore data) @ ''</strong>)</p>'',
      ''<p>System Status: <strong>'' @ rd_Status data @ ''</strong></p>'',
      ''</div>'']"

definition generateHTML :: "(go_time \<Rightarrow> string) \<Rightarrow> ReportData \<Rightarrow> string" where
  "generateHTML fmt_time data = html_head fmt_time data
     @ html_card ''Timeline Logs'' (rd_TimelineEvents data)
     @ html_card ''MITRE ATT&CK Mappings'' (rd_MitreTags data)
     @ html_card ''IOC Matches'' (rd_IocMatches data)
     @ ''</body></html>''"

section \<open>CSV\<close>

definition generateCSV :: "(go_time \<Rightarrow> string) \<Rightarrow> ReportData \<Rightarrow> string" where
  "generateCSV fmt_time data = text_lines
     [''Parameter,Value'',
      ''Report Title,'' @ rd_Title data,
      ''Generated At,'' @ fmt_time (rd_Timestamp data),
      ''Alerts,'' @ show_int (rd_AlertCount data),
      ''Max Risk Score,'' @ fmt_2f (rd_MaxRiskScore data),
      ''CPU Usage %,'' @ fmt_2f (rd_CPUUsage data),
      ''Memory Usage MB,'' @ show_int (uint (rd_MemoryMB data)),
      ''Status,'' @ rd_Status data]"

section \<open>PDF\<close>

definition pdf_text :: "(go_time \<Rightarrow> string) \<Rightarrow> string \<Rightarrow> ReportData \<Rightarrow> string" where
  "pdf_text fmt_time repType data =
     ''AEGIS '' @ repType @ '' Report Generated: '' @ fmt_time (rd_Timestamp data) @ [newline]
     @ ''Summary: '' @ rd_Summary data @ [newline]
     @ ''Alerts: '' @ show_int (rd_AlertCount data) @ [newline]
     @ ''Risk: '' @ fmt_2f (rd_MaxRiskScore data) @ [newline]
     @ ''Status: '' @ rd_Status data"

definition pdf_head :: string where
  "pdf_head = text_lines
     [''%PDF-1.4'', ''1 0 obj'', ''<< /Type /Catalog /Pages 2 0 R >>'', ''endobj'',
      ''2 0 obj'', ''<< /Type /Pages /Kids [ 3 0 R ] /Count 1 >>'', ''endobj'',
      ''3 0 obj'', ''<< /Type /Page /Parent 2 0 R /Resources << >> /Contents 4 0 R >>'', ''endobj'',
      ''4 0 obj''] @ ''<< /Length ''"

text \<open>The cross reference table and the trailer; in the code's format string \<open>%%\<close> stands for one per cent sign.\<close>

definition pdf_tail :: string where
  "pdf_tail = text_lines
     [''xref'', ''0 5'', ''0000000000 65535 f'', ''0000000009 00000 n'', ''0000000056 00000 n'',
      ''0000000111 00000 n'', ''0000000196 00000 n'', ''trailer'', ''<< /Size 5 /Root 1 0 R >>'',
      ''startxref'', ''310'', ''%EOF'']"

definition generatePDF :: "(go_time \<Rightarrow> string) \<Rightarrow> string \<Rightarrow> ReportData \<Rightarrow> string" where
  "generatePDF fmt_time repType data =
     (let txt = pdf_text fmt_time repType data
      in pdf_head @ show_nat (length txt) @ text_lines ['' >>'', ''stream'', txt, ''endstream'', ''endobj''] @ pdf_tail)"

section \<open>The generator\<close>

definition Generate ::
  "(ReportData \<Rightarrow> string result) \<Rightarrow> (go_time \<Rightarrow> string) \<Rightarrow> go_time \<Rightarrow> string \<Rightarrow> string \<Rightarrow> ReportData \<Rightarrow> string result \<times> ReportData" where
  "Generate marshal fmt_time now repType format data =
     (let d = data\<lparr>rd_Title := ''AEGIS EDR '' @ repType @ '' Report'', rd_Timestamp := now\<rparr>
      in (if format = ''JSON'' then marshal d
          else if format = ''HTML'' then Ok (generateHTML fmt_time d)
          else if format = ''CSV'' then Ok (generateCSV fmt_time d)
          else if format = ''PDF'' then Ok (generatePDF fmt_time repType d)
          else Err (''unsupported report format: '' @ format), d))"

section \<open>Reading a CSV report back\<close>

lemma Split_lines: "\<forall>l \<in> set ls. newline \<notin> set l \<Longrightarrow> Split newline (text_lines ls) = ls @ [[]]"
  by (induction ls) (simp_all add: text_lines_def)

definition one_field :: "string \<Rightarrow> bool" where
  "one_field s \<longleftrightarrow> CHR '','' \<notin> set s \<and> newline \<notin> set s"

lemma one_field_append [simp]: "one_field (a @ b) \<longleftrightarrow> one_field a \<and> one_field b"
  by (auto simp: one_field_def)

lemma one_field_digits: "(\<And>c. c \<in> set s \<Longrightarrow> is_digit c \<or> c = CHR ''-'' \<or> c = CHR ''.'') \<Longrightarrow> one_field s"
proof -
  have "\<not> is_digit (CHR '','')" "\<not> is_digit newline" "newline \<noteq> CHR ''-''" "newline \<noteq> CHR ''.''" by code_simp+
  then show "(\<And>c. c \<in> set s \<Longrightarrow> is_digit c \<or> c = CHR ''-'' \<or> c = CHR ''.'') \<Longrightarrow> one_field s"
    unfolding one_field_def by fastforce
qed

lemma one_field_show_int [simp]: "one_field (show_int i)"
  using show_int_chars by (blast intro: one_field_digits)

lemma one_field_fmt_2f [simp]: "one_field (fmt_2f x)"
proof (rule one_field_digits)
  fix c assume "c \<in> set (fmt_2f x)"
  then show "is_digit c \<or> c = CHR ''-'' \<or> c = CHR ''.''"
    by (auto simp: fmt_2f_def Let_def show_nat_digits is_digit_digit split: if_splits)
qed

text \<open>A table of names and values, each one field, is read back from its lines.\<close>

lemma csv_table:
  assumes "\<forall>(name, v) \<in> set rows. one_field name \<and> one_field v"
  shows "map (Split (CHR '','')) (butlast (Split newline (text_lines (map (\<lambda>(name, v). name @ CHR '','' # v) rows))))
    = map (\<lambda>(name, v). [name, v]) rows"
proof -
  let ?ls = "map (\<lambda>(name, v). name @ CHR '','' # v) rows"
  have "newline \<noteq> CHR '',''" by code_simp
  then have row: "Split (CHR '','') (name @ CHR '','' # v) = [name, v]" "newline \<notin> set (name @ CHR '','' # v)"
    if "(name, v) \<in> set rows" for name v
    using assms that by (auto simp: one_field_def Split_single)
  have "Split newline (text_lines ?ls) = ?ls @ [[]]"
    by (rule Split_lines) (auto simp del: append_Cons set_append set_simps simp: row(2))
  moreover have "map (Split (CHR '','')) ?ls = map (\<lambda>(name, v). [name, v]) rows"
    unfolding map_map by (rule map_cong [OF refl]) (auto simp: row(1))
  ultimately show ?thesis by simp
qed

text \<open>C36 (roundtrip). A CSV report split at its newlines and commas is the table of its eight rows, each a
  parameter and its value, as long as the type, the rendered time and the status have no
  comma and no newline of their own: the generator does not quote them.\<close>

theorem csv_roundtrip:
  assumes "one_field repType" "one_field (fmt_time now)" "one_field (rd_Status data)"
  shows "\<exists>csv. fst (Generate marshal fmt_time now repType ''CSV'' data) = Ok csv
    \<and> map (Split (CHR '','')) (butlast (Split newline csv)) =
       [[''Parameter'', ''Value''],
        [''Report Title'', ''AEGIS EDR '' @ repType @ '' Report''],
        [''Generated At'', fmt_time now],
        [''Alerts'', show_int (rd_AlertCount data)],
        [''Max Risk Score'', fmt_2f (rd_MaxRiskScore data)],
        [''CPU Usage %'', fmt_2f (rd_CPUUsage data)],
        [''Memory Usage MB'', show_int (uint (rd_MemoryMB data))],
        [''Status'', rd_Status data]]"
proof -
  have names: "one_field ''Parameter''" "one_field ''Value''" "one_field ''Report Title''" "one_field ''Generated At''"
    "one_field ''Alerts''" "one_field ''Max Risk Score''" "one_field ''CPU Usage %''" "one_field ''Memory Usage MB''"
    "one_field ''Status''" "one_field ''AEGIS EDR ''" "one_field '' Report''"
    by code_simp+
  have title: "one_field (''AEGIS EDR '' @ repType @ '' Report'')"
    using assms(1) names(10,11) by (simp only: one_field_append simp_thms)
  let ?rows = "[(''Parameter'', ''Value''),
        (''Report Title'', ''AEGIS EDR '' @ repType @ '' Report''),
        (''Generated At'', fmt_time now),
        (''Alerts'', show_int (rd_AlertCount data)),
        (''Max Risk Score'', fmt_2f (rd_MaxRiskScore data)),
        (''CPU Usage %'', fmt_2f (rd_CPUUsage data)),
        (''Memory Usage MB'', show_int (uint (rd_MemoryMB data))),
        (''Status'', rd_Status data)]"
  have fields: "\<forall>(name, v) \<in> set ?rows. one_field name \<and> one_field v"
    using assms names title by auto
  obtain rows where rows: "rows = ?rows" by simp
  let ?ls = "map (\<lambda>(name, v). name @ CHR '','' # v) rows"
  have "fst (Generate marshal fmt_time now repType ''CSV'' data) = Ok (text_lines (map (\<lambda>(name, v). name @ CHR '','' # v) rows))"
    by (simp add: Generate_def generateCSV_def Let_def rows)
  with csv_table [OF fields [folded rows]] show ?thesis
    by (intro exI conjI) (assumption, simp only: rows list.map prod.case)
qed

section \<open>What the formats get wrong\<close>

lemma HasPrefix_append: "HasPrefix s w \<Longrightarrow> HasPrefix (s @ t) w"
proof -
  assume "HasPrefix s w"
  then have "take (length w) s = w" by (simp add: HasPrefix_def)
  moreover from this have "length w \<le> length s" by (metis length_take min.cobounded1)
  ultimately show ?thesis by (simp add: HasPrefix_def)
qed

lemma pdf_head_length: "length pdf_head = 216"
  by code_simp

text \<open>The cross reference table of a PDF report names the offsets 9, 56, 111 and 196 and the
  table itself at 310, but in every report the second, third and fourth object start at 58, 117 and 197, and
  the table starts after the text, at 310 only for texts of 63 bytes; the last line is %EOF, with
  one per cent sign where the format asks for two.\<close>

theorem pdf_offsets_wrong:
  "\<exists>pdf txt. fst (Generate marshal fmt_time now repType ''PDF'' data) = Ok pdf
    \<and> txt = pdf_text fmt_time repType (snd (Generate marshal fmt_time now repType ''PDF'' data))
    \<and> HasPrefix (drop 9 pdf) ''1 0 obj'' \<and> HasPrefix (drop 58 pdf) ''2 0 obj''
    \<and> HasPrefix (drop 117 pdf) ''3 0 obj'' \<and> HasPrefix (drop 197 pdf) ''4 0 obj''
    \<and> drop (245 + length txt + length (show_nat (length txt))) pdf = pdf_tail
    \<and> drop (length pdf_tail - 6) pdf_tail = newline # ''%EOF'' @ [newline]"
proof -
  let ?d = "data\<lparr>rd_Title := ''AEGIS EDR '' @ repType @ '' Report'', rd_Timestamp := now\<rparr>"
  let ?txt = "pdf_text fmt_time repType ?d"
  have txt_eq: "?txt = pdf_text fmt_time repType (snd (Generate marshal fmt_time now repType ''PDF'' data))"
    by (simp add: Generate_def Let_def)
  obtain body where body: "body = show_nat (length ?txt) @ text_lines ['' >>'', ''stream'', ?txt, ''endstream'', ''endobj'']" by simp
  have pdf: "fst (Generate marshal fmt_time now repType ''PDF'' data) = Ok (pdf_head @ body @ pdf_tail)"
    by (simp add: Generate_def generatePDF_def Let_def body)
  have head: "HasPrefix (drop n pdf_head) w \<Longrightarrow> n \<le> 216 \<Longrightarrow> HasPrefix (drop n (pdf_head @ rest)) w" for n w rest
    by (simp add: HasPrefix_append pdf_head_length)
  have objects: "HasPrefix (drop 9 pdf_head) ''1 0 obj''" "HasPrefix (drop 58 pdf_head) ''2 0 obj''"
    "HasPrefix (drop 117 pdf_head) ''3 0 obj''" "HasPrefix (drop 197 pdf_head) ''4 0 obj''"
    by code_simp+
  have at: "HasPrefix (drop 9 (pdf_head @ body @ pdf_tail)) ''1 0 obj''" "HasPrefix (drop 58 (pdf_head @ body @ pdf_tail)) ''2 0 obj''"
    "HasPrefix (drop 117 (pdf_head @ body @ pdf_tail)) ''3 0 obj''" "HasPrefix (drop 197 (pdf_head @ body @ pdf_tail)) ''4 0 obj''"
    by (rule head, rule objects, simp)+
  have len: "length (pdf_head @ body) = 245 + length ?txt + length (show_nat (length ?txt))"
    by (simp add: pdf_head_length text_lines_def body)
  have "pdf_tail = drop (length (pdf_head @ body)) ((pdf_head @ body) @ pdf_tail)"
    using append_eq_conv_conj [of "pdf_head @ body" pdf_tail] by blast
  then have tail: "drop (245 + length ?txt + length (show_nat (length ?txt))) (pdf_head @ body @ pdf_tail) = pdf_tail"
    by (simp only: len append_assoc)
  have eof: "drop (length pdf_tail - 6) pdf_tail = newline # ''%EOF'' @ [newline]" by code_simp
  show ?thesis
    by (intro exI conjI) (rule pdf, rule txt_eq, rule at, rule at, rule at, rule at, rule tail, rule eof)
qed

lemma Contains_item: "x \<in> set xs \<Longrightarrow> Contains (a @ html_card heading xs @ b) (list_item x)"
proof -
  assume "x \<in> set xs"
  then obtain ys zs where xs: "xs = ys @ x # zs" by (meson split_list)
  have "Contains (list_item x) (list_item x)" by (simp add: Contains_sublist)
  then show ?thesis
    using Contains_append [of "list_item x" "list_item x"
        "a @ ''<div class=\"card\"><h2>'' @ heading @ ''</h2><ul>'' @ concat (map list_item ys)"
        "concat (map list_item zs) @ ''</ul></div>'' @ b"]
    by (simp add: html_card_def xs)
qed

text \<open>Nothing is escaped in an HTML report: every timeline event, tag and indicator stands in
  it verbatim as a list item, so that markup in a recorded file name becomes markup of the report.\<close>

theorem html_not_escaped:
  assumes "x \<in> set (rd_TimelineEvents data) \<union> set (rd_MitreTags data) \<union> set (rd_IocMatches data)"
  shows "\<exists>html. fst (Generate marshal fmt_time now repType ''HTML'' data) = Ok html \<and> Contains html (''<li>'' @ x @ ''</li>'')"
proof -
  let ?d = "data\<lparr>rd_Title := ''AEGIS EDR '' @ repType @ '' Report'', rd_Timestamp := now\<rparr>"
  let ?t = "html_card ''Timeline Logs'' (rd_TimelineEvents data)" and ?m = "html_card ''MITRE ATT&CK Mappings'' (rd_MitreTags data)"
    and ?i = "html_card ''IOC Matches'' (rd_IocMatches data)"
  have html: "fst (Generate marshal fmt_time now repType ''HTML'' data) = Ok (html_head fmt_time ?d @ ?t @ ?m @ ?i @ ''</body></html>'')"
    by (simp add: Generate_def generateHTML_def Let_def)
  consider "x \<in> set (rd_TimelineEvents data)" | "x \<in> set (rd_MitreTags data)" | "x \<in> set (rd_IocMatches data)"
    using assms by auto
  then have "Contains (html_head fmt_time ?d @ ?t @ ?m @ ?i @ ''</body></html>'') (list_item x)"
  proof cases
    case 1
    then show ?thesis by (rule Contains_item)
  next
    case 2
    from Contains_item [OF this, of "html_head fmt_time ?d @ ?t"] show ?thesis by simp
  next
    case 3
    from Contains_item [OF this, of "html_head fmt_time ?d @ ?t @ ?m"] show ?thesis by simp
  qed
  with html show ?thesis by (simp add: list_item_def)
qed

definition sample_data :: ReportData where
  "sample_data = \<lparr>rd_Timestamp = 0, rd_Title = [], rd_Summary = ''s'', rd_AlertCount = 2, rd_MaxRiskScore = 0,
     rd_MitreTags = [''T1059''], rd_TimelineEvents = [''<script>x()</script>''], rd_IocMatches = [], rd_CPUUsage = 0,
     rd_MemoryMB = 84, rd_DatabaseSizeKB = 0, rd_Status = ''healthy''\<rparr>"

theorem csv_roundtrip_witness:
  "\<exists>csv. fst (Generate (\<lambda>_. Err ''json'') (\<lambda>_. ''T'') 0 ''Health'' ''CSV'' sample_data) = Ok csv
    \<and> last (map (Split (CHR '','')) (butlast (Split newline csv))) = [''Status'', ''healthy'']"
proof -
  have "one_field ''Health''" "one_field ''T''" "one_field (rd_Status sample_data)" by code_simp+
  from csv_roundtrip [of "''Health''" "\<lambda>_. ''T''" 0 sample_data, OF this] show ?thesis
    by (fastforce simp: sample_data_def)
qed

theorem html_not_escaped_witness:
  "\<exists>html. fst (Generate (\<lambda>_. Err ''json'') (\<lambda>_. ''T'') 0 ''Health'' ''HTML'' sample_data) = Ok html
    \<and> Contains html ''<li><script>x()</script></li>''"
  using html_not_escaped [of "''<script>x()</script>''" sample_data "\<lambda>_. Err ''json''" "\<lambda>_. ''T''" 0 "''Health''"]
  by (simp add: sample_data_def)

end
