(* ===== verification/Purple.thy ===== *)
theory Purple
  imports Detect_Pipeline
begin

text \<open>
  The purple team framework (\<open>internal/purple/purple.go\<close>): scenarios, their simulation through
  the detection pipeline, and the coverage report. The clock, the memory statistics and the
  number of processors are parameters; the alert channel of the pipeline is carried from
  event to event.
\<close>

record Scenario =
  sn_ID :: string
  sn_Name :: string
  sn_MITREIDs :: "string list"
  sn_Description :: string
  sn_TriggerEvents :: "RawEvent list"

record ValidationResult =
  vr_ScenarioID :: string
  vr_Detected :: bool
  vr_MatchedRules :: "string list"
  vr_MITRECoverageScore :: f64
  vr_LatencyUs :: f64
  vr_CPUMaxPercent :: f64
  vr_MemoryAllocMB :: f64

type_synonym Framework = "string \<rightharpoonup> Scenario"

definition NewFramework :: Framework where
  "NewFramework = Map.empty"

definition RegisterScenario :: "Scenario \<Rightarrow> Framework \<Rightarrow> Framework" where
  "RegisterScenario s f = f(sn_ID s \<mapsto> s)"

section \<open>Simulation\<close>

text \<open>Seven fields of the trigger are copied; hash, file and network fields stay empty.\<close>

definition simulated_event :: "RawEvent \<Rightarrow> Event" where
  "simulated_event raw = \<lparr>te_ID = 0, te_Type = ToLower (rw_Type raw), te_Timestamp = rw_Timestamp raw,
     te_ProcessID = rw_ProcessID raw, te_ParentID = rw_ParentID raw, te_BinaryPath = rw_BinaryPath raw,
     te_SHA256 = [], te_CommandLine = rw_CommandLine raw, te_Username = rw_Username raw,
     te_FilePath = [], te_FileAction = [], te_Protocol = [], te_LocalIP = [], te_LocalPort = 0,
     te_RemoteIP = [], te_RemotePort = 0\<rparr>"

fun simulate ::
  "(string list \<Rightarrow> string list) \<Rightarrow> DetectionStage list \<Rightarrow> RawEvent list \<Rightarrow> string list \<times> bool \<times> alert_chan \<Rightarrow> string list \<times> bool \<times> alert_chan" where
  "simulate iter stages [] acc = acc"
| "simulate iter stages (raw # raws) (matchedRules, detected, ch) =
     (let res = pipeline_Process iter stages (simulated_event raw) ch
      in simulate iter stages raws
           (matchedRules @ map er_EngineName (dc_EngineResults (ss_ctx res)),
            detected \<or> dc_AlertTriggered (ss_ctx res), ss_chan res))"

text \<open>What a run measures: the duration of each event, the allocated bytes before and after, the processors.\<close>

record measurements =
  ms_durations :: "duration list"
  ms_start_alloc :: uint64
  ms_end_alloc :: uint64
  ms_cpus :: int

definition microseconds :: "duration \<Rightarrow> int" where
  "microseconds d = (if d < 0 then - ((- d) div 1000) else d div 1000)"

definition RunSimulation ::
  "(string list \<Rightarrow> string list) \<Rightarrow> measurements \<Rightarrow> Framework \<Rightarrow> string \<Rightarrow> DetectionStage list \<Rightarrow> alert_chan \<Rightarrow> ValidationResult result" where
  "RunSimulation iter ms f ident stages ch =
     (case f ident of
        None \<Rightarrow> Err (''purple scenario '' @ ident @ '' not found'')
      | Some s \<Rightarrow>
          let (matchedRules, detected, _) = simulate iter stages (sn_TriggerEvents s) ([], False, ch);
              n = length (sn_TriggerEvents s);
              total = f64_of_int (microseconds (sum_list (ms_durations ms)));
              latency = (if 0 < n then fdiv total (f64_of_int (int n)) else total)
          in Ok \<lparr>vr_ScenarioID = sn_ID s, vr_Detected = detected, vr_MatchedRules = matchedRules,
               vr_MITRECoverageScore = (if detected \<and> sn_MITREIDs s \<noteq> [] then 100 else 0),
               vr_LatencyUs = latency, vr_CPUMaxPercent = f64_of_int (ms_cpus ms * 5),
               vr_MemoryAllocMB = fdiv (fdiv (f64_of_int (uint (ms_end_alloc ms - ms_start_alloc ms))) 1024) 1024\<rparr>)"

section \<open>The coverage report\<close>

definition micro_sign :: string where
  "micro_sign = map char_of [194 :: nat, 181]"

definition result_entry :: "Framework \<Rightarrow> ValidationResult \<Rightarrow> string" where
  "result_entry f res =
     ''Scenario: '' @ vr_ScenarioID res @ '' ['' @ (if vr_Detected res then ''PASSED'' else ''FAILED'') @ '']'' @ [newline]
     @ (case f (vr_ScenarioID res) of
          None \<Rightarrow> []
        | Some s \<Rightarrow> ''  Description: '' @ sn_Description s @ [newline]
            @ ''  MITRE Mappings: '' @ show_strings (sn_MITREIDs s) @ [newline])
     @ ''  Matched Rules: '' @ show_strings (vr_MatchedRules res) @ [newline]
     @ ''  Avg Latency: '' @ fmt_2f (vr_LatencyUs res) @ '' '' @ micro_sign @ ''s'' @ [newline]
     @ ''  Memory delta: '' @ fmt_2f (vr_MemoryAllocMB res) @ '' MB'' @ [newline, newline]"

definition coverage_pct :: "ValidationResult list \<Rightarrow> f64" where
  "coverage_pct results =
     (if 0 < length results
      then fmul (fdiv (f64_of_int (int (length (filter vr_Detected results)))) (f64_of_int (int (length results)))) 100
      else 0)"

definition sum_latency :: "ValidationResult list \<Rightarrow> f64" where
  "sum_latency results = foldl (\<lambda>acc res. fadd acc (vr_LatencyUs res)) 0 results"

definition GenerateCoverageReport :: "Framework \<Rightarrow> ValidationResult list \<Rightarrow> string" where
  "GenerateCoverageReport f results =
     ''AEGIS PURPLE TEAM DETECTION COVERAGE REPORT'' @ [newline]
     @ ''========================================='' @ [newline, newline]
     @ concat (map (result_entry f) results)
     @ ''SUMMARY METRICS:'' @ [newline]
     @ ''  Total Scenarios Run: '' @ show_int (int (length results)) @ [newline]
     @ ''  Detection Pass Rate: '' @ fmt_2f (coverage_pct results) @ ''%'' @ [newline]
     @ (if 0 < length results
        then ''  Average Latency:     '' @ fmt_2f (fdiv (sum_latency results) (f64_of_int (int (length results))))
          @ '' '' @ micro_sign @ ''s'' @ [newline]
        else [])"

section \<open>What a simulation reports\<close>

text \<open>What the stages find does not depend on the channel.\<close>

lemma add_result_channel: "add_result r m (s\<lparr>ss_chan := c\<rparr>) = (add_result r m s)\<lparr>ss_chan := c\<rparr>"
  by (simp add: add_result_def)

lemma sigma_channel: "sigma_Process pats (s\<lparr>ss_chan := c\<rparr>) = (sigma_Process pats s)\<lparr>ss_chan := c\<rparr>"
  by (induction pats) (simp_all add: add_result_channel)

lemma stage_ignores_channel:
  "ss_event (stage_Process iter st (s\<lparr>ss_chan := c\<rparr>)) = ss_event (stage_Process iter st s)
    \<and> ss_ctx (stage_Process iter st (s\<lparr>ss_chan := c\<rparr>)) = ss_ctx (stage_Process iter st s)"
proof (cases st)
  case (RiskScoringStage th)
  then show ?thesis by (simp add: risk_Process_def Let_def)
next
  case (IOCMatchingStage l)
  then show ?thesis by (simp add: ioc_Process_def add_result_channel split: option.split)
qed (simp_all add: normalizer_Process_def behavior_Process_def heuristic_Process_def yara_Process_def intel_Process_def
    correlation_Process_def alert_Process_def sigma_channel add_result_channel)

lemma run_ignores_channel:
  "ss_event s = ss_event t \<Longrightarrow> ss_ctx s = ss_ctx t \<Longrightarrow>
   ss_ctx (fold (stage_Process iter) stages s) = ss_ctx (fold (stage_Process iter) stages t)"
proof (induction stages arbitrary: s t)
  case (Cons st stages)
  then have eq: "t\<lparr>ss_chan := ss_chan s\<rparr> = s" by simp
  have same: "ss_event (stage_Process iter st s) = ss_event (stage_Process iter st t)"
    "ss_ctx (stage_Process iter st s) = ss_ctx (stage_Process iter st t)"
    using stage_ignores_channel [where iter = iter and st = st and s = t and c = "ss_chan s"] unfolding eq by blast+
  show ?case by (simp only: fold_simps) (rule Cons.IH [OF same])
qed simp

lemma pipeline_ignores_channel:
  "ss_ctx (pipeline_Process iter stages e ch) = ss_ctx (pipeline_Process iter stages e ch')"
  unfolding pipeline_Process_def by (rule run_ignores_channel) simp_all

definition findings :: "(string list \<Rightarrow> string list) \<Rightarrow> DetectionStage list \<Rightarrow> RawEvent \<Rightarrow> DetectionContext" where
  "findings iter stages raw = ss_ctx (pipeline_Process iter stages (simulated_event raw) \<lparr>ac_queue = [], ac_cap = 0\<rparr>)"

lemma simulate_findings:
  "\<exists>ch'. simulate iter stages raws (matchedRules, detected, ch) =
     (matchedRules @ concat (map (\<lambda>raw. map er_EngineName (dc_EngineResults (findings iter stages raw))) raws),
      detected \<or> (\<exists>raw \<in> set raws. dc_AlertTriggered (findings iter stages raw)), ch')"
proof (induction raws arbitrary: matchedRules detected ch)
  case (Cons raw raws)
  have "ss_ctx (pipeline_Process iter stages (simulated_event raw) ch) = findings iter stages raw"
    unfolding findings_def by (rule pipeline_ignores_channel)
  then show ?case
    using Cons.IH [of "matchedRules @ map er_EngineName (dc_EngineResults (findings iter stages raw))"
        "detected \<or> dc_AlertTriggered (findings iter stages raw)" "ss_chan (pipeline_Process iter stages (simulated_event raw) ch)"]
    by (auto simp: Let_def)
qed simp

text \<open>C31 (functional). A simulation of a registered scenario reports it as detected exactly if the pipeline raises an
  alert for one of its trigger events, whatever is already in the alert channel; its matched
  rules are the engines that found something, event by event; and its MITRE coverage is 100
  or 0 with the detection.\<close>

theorem RunSimulation_spec:
  assumes "f ident = Some s"
  shows "\<exists>res. RunSimulation iter ms f ident stages ch = Ok res
    \<and> vr_Detected res = (\<exists>raw \<in> set (sn_TriggerEvents s).
        dc_AlertTriggered (ss_ctx (pipeline_Process iter stages (simulated_event raw) ch)))
    \<and> vr_MatchedRules res = concat (map (\<lambda>raw. map er_EngineName
        (dc_EngineResults (ss_ctx (pipeline_Process iter stages (simulated_event raw) ch)))) (sn_TriggerEvents s))
    \<and> vr_MITRECoverageScore res = (if vr_Detected res \<and> sn_MITREIDs s \<noteq> [] then 100 else 0)"
proof -
  have ctx: "ss_ctx (pipeline_Process iter stages (simulated_event raw) ch) = findings iter stages raw" for raw
    unfolding findings_def by (rule pipeline_ignores_channel)
  obtain ch' where "simulate iter stages (sn_TriggerEvents s) ([], False, ch) =
      (concat (map (\<lambda>raw. map er_EngineName (dc_EngineResults (findings iter stages raw))) (sn_TriggerEvents s)),
       (\<exists>raw \<in> set (sn_TriggerEvents s). dc_AlertTriggered (findings iter stages raw)), ch')"
    using simulate_findings [of iter stages "sn_TriggerEvents s" "[]" False ch] by auto
  then show ?thesis by (simp add: RunSimulation_def assms Let_def ctx)
qed

section \<open>What a simulation cannot test\<close>

lemma no_hash_no_result:
  assumes "set stages \<subseteq> {NormalizerStage, IOCMatchingStage l, ThreatIntelStage known, CorrelationStage, AlertStage} \<union> range RiskScoringStage"
    and "l [] = None" "\<not> known []" "te_SHA256 (ss_event s) = []" "te_RemoteIP (ss_event s) = []"
    and "dc_EngineResults (ss_ctx s) = []" "\<not> dc_AlertTriggered (ss_ctx s)"
  shows "dc_EngineResults (ss_ctx (fold (stage_Process iter) stages s)) = []
    \<and> \<not> dc_AlertTriggered (ss_ctx (fold (stage_Process iter) stages s))"
  using assms
proof (induction stages arbitrary: s)
  case (Cons st stages)
  have trim: "ToLower (TrimSpace []) = []" by (simp add: TrimSpace_def)
  have "te_SHA256 (ss_event (stage_Process iter st s)) = [] \<and> te_RemoteIP (ss_event (stage_Process iter st s)) = []
      \<and> dc_EngineResults (ss_ctx (stage_Process iter st s)) = [] \<and> \<not> dc_AlertTriggered (ss_ctx (stage_Process iter st s))"
    using Cons.prems by (cases st) (auto simp: stage_defs trim)
  then show ?case using Cons.IH [of "stage_Process iter st s"] Cons.prems by simp
qed simp

text \<open>The simulation drops the hash and the addresses of its triggers, so no scenario can be
  detected through an indicator: with only the hash, address, correlation and scoring stages it
  always fails, although the same stages alert on the real event.\<close>

theorem simulation_misses_indicators:
  assumes "f ident = Some s"
    and "set stages \<subseteq> {NormalizerStage, IOCMatchingStage l, ThreatIntelStage known, CorrelationStage, AlertStage} \<union> range RiskScoringStage"
    and "l [] = None" "\<not> known []"
  shows "\<exists>res. RunSimulation iter ms f ident stages ch = Ok res \<and> \<not> vr_Detected res \<and> vr_MatchedRules res = []
    \<and> vr_MITRECoverageScore res = 0"
proof -
  have none: "dc_EngineResults (findings iter stages raw) = [] \<and> \<not> dc_AlertTriggered (findings iter stages raw)" for raw
    unfolding findings_def pipeline_Process_def
    by (intro no_hash_no_result [OF assms(2-4)]) (simp_all add: simulated_event_def empty_context_def)
  obtain ch' where "simulate iter stages (sn_TriggerEvents s) ([], False, ch) =
      (concat (map (\<lambda>raw. map er_EngineName (dc_EngineResults (findings iter stages raw))) (sn_TriggerEvents s)),
       (\<exists>raw \<in> set (sn_TriggerEvents s). dc_AlertTriggered (findings iter stages raw)), ch')"
    using simulate_findings [of iter stages "sn_TriggerEvents s" "[]" False ch] by auto
  then show ?thesis by (simp add: RunSimulation_def assms(1) Let_def none)
qed

section \<open>Samples\<close>

definition sample_scenario :: Scenario where
  "sample_scenario = \<lparr>sn_ID = ''TC001'', sn_Name = ''n'', sn_MITREIDs = [''T1204.002''], sn_Description = ''d'',
     sn_TriggerEvents = [zero_raw\<lparr>rw_Type := ''Process'', rw_ParentID := 1, rw_SHA256 := ''abc'', rw_CommandLine := ''x -enc''\<rparr>]\<rparr>"

definition sample_measurements :: measurements where
  "sample_measurements = \<lparr>ms_durations = [2000], ms_start_alloc = 0, ms_end_alloc = 1048576, ms_cpus = 4\<rparr>"

theorem RunSimulation_spec_witness:
  "\<exists>res. RunSimulation id sample_measurements (RegisterScenario sample_scenario NewFramework) ''TC001''
      [NormalizerStage, BehaviorAnalysisStage, RiskScoringStage (1 / 4)] \<lparr>ac_queue = [], ac_cap = 4\<rparr> = Ok res
    \<and> vr_MatchedRules res = [''BehaviorAnalysis''] \<and> vr_Detected res"
proof -
  let ?stages = "[NormalizerStage, BehaviorAnalysisStage, RiskScoringStage (1 / 4)]"
  let ?raw = "hd (sn_TriggerEvents sample_scenario)"
  have reg: "RegisterScenario sample_scenario NewFramework ''TC001'' = Some sample_scenario"
    by (simp add: RegisterScenario_def sample_scenario_def)
  let ?found = "\<lparr>er_EngineName = ''BehaviorAnalysis'', er_Severity = 3, er_Weight = rnd64 (1 / 2), er_MITREIDs = [''T1059'']\<rparr>"
  have half: "rnd64 (1 / 2) = 1 / 2" by code_simp
  have score: "1 / 4 \<le> CalculateCompoundScore [?found]"
    by (simp add: CalculateCompoundScore_def complement_of_def clamp_def fsub_def fmul_def half)
  obtain e where e: "e = simulated_event ?raw" by simp
  have "te_Type e = ''process''" "te_ParentID e = 1" unfolding e by code_simp+
  then have "map er_EngineName (dc_EngineResults (ss_ctx (pipeline_Process id ?stages e \<lparr>ac_queue = [], ac_cap = 4\<rparr>))) = [''BehaviorAnalysis'']"
    "dc_AlertTriggered (ss_ctx (pipeline_Process id ?stages e \<lparr>ac_queue = [], ac_cap = 4\<rparr>))"
    using score by (simp_all add: pipeline_Process_def normalizer_Process_def behavior_Process_def risk_Process_def add_result_def
        empty_context_def)
  note run = this [unfolded e]
  have trig: "sn_TriggerEvents sample_scenario = [?raw]" by (simp add: sample_scenario_def)
  obtain res where res: "RunSimulation id sample_measurements (RegisterScenario sample_scenario NewFramework) ''TC001'' ?stages \<lparr>ac_queue = [], ac_cap = 4\<rparr> = Ok res"
    "vr_Detected res = (\<exists>raw \<in> set (sn_TriggerEvents sample_scenario).
        dc_AlertTriggered (ss_ctx (pipeline_Process id ?stages (simulated_event raw) \<lparr>ac_queue = [], ac_cap = 4\<rparr>)))"
    "vr_MatchedRules res = concat (map (\<lambda>raw. map er_EngineName
        (dc_EngineResults (ss_ctx (pipeline_Process id ?stages (simulated_event raw) \<lparr>ac_queue = [], ac_cap = 4\<rparr>)))) (sn_TriggerEvents sample_scenario))"
    using RunSimulation_spec [where f = "RegisterScenario sample_scenario NewFramework" and ident = "''TC001''"
        and stages = ?stages and iter = id and ms = sample_measurements and ch = "\<lparr>ac_queue = [], ac_cap = 4\<rparr>", OF reg] by blast
  have "vr_MatchedRules res = [''BehaviorAnalysis'']"
    unfolding res(3) by (subst trig) (simp only: list.map run(1) concat.simps append_Nil2)
  moreover have "vr_Detected res"
    unfolding res(2) by (rule bexI [of _ ?raw], rule run(2)) (subst trig, simp)
  ultimately show ?thesis using res(1) by blast
qed

theorem simulation_misses_indicators_witness:
  "\<exists>res. RunSimulation id sample_measurements (RegisterScenario sample_scenario NewFramework) ''TC001''
      [NormalizerStage, IOCMatchingStage [''abc'' \<mapsto> ''dropper''], RiskScoringStage (4 / 5)] \<lparr>ac_queue = [], ac_cap = 4\<rparr> = Ok res
    \<and> \<not> vr_Detected res"
  using simulation_misses_indicators [of "RegisterScenario sample_scenario NewFramework" "''TC001''" sample_scenario
      "[NormalizerStage, IOCMatchingStage [''abc'' \<mapsto> ''dropper''], RiskScoringStage (4 / 5)]" "[''abc'' \<mapsto> ''dropper'']" "\<lambda>_. False"]
  by (fastforce simp: RegisterScenario_def sample_scenario_def)

end
