(* ===== verification/Dashboard.thy ===== *)
theory Dashboard
  imports Cli
begin

text \<open>
  The status dashboard and the printing commands of the client (\<open>cmd/aegis/main.go\<close>): the model of the
  dashboard with its \<open>Update\<close> and \<open>View\<close>, and the \<open>version\<close> and \<open>config\<close> commands. The terminal
  library is outside the repository: \<open>render\<close> is what a style makes of a text, and a style is the
  record of the attributes the code sets. Text is given as its UTF-8 bytes.
\<close>

section \<open>State and messages\<close>

record alertLog =
  al_RuleName :: string
  al_Category :: string
  al_TriggeredAt :: string
  al_Description :: string

record statusModel =
  sm_status :: "StatusResponse option"
  sm_err :: "go_error option"
  sm_procCount :: int
  sm_fileCount :: int
  sm_netCount :: int
  sm_recentAlerts :: "alertLog list"

datatype tui_msg = KeyMsg string | CtrlC | Esc | TickMsg | OtherMsg

datatype tui_cmd = NoCmd | Quit | Tick

text \<open>The alerts, latest first, at most three; \<open>newest\<close> is SQL's \<open>ORDER BY ... DESC\<close>.\<close>

definition recent_alerts :: "(go_time \<Rightarrow> string) \<Rightarrow> (alert_row list \<Rightarrow> alert_row list) \<Rightarrow> db \<Rightarrow> alertLog list" where
  "recent_alerts show_time newest d =
     map (\<lambda>a. \<lparr>al_RuleName = a_rule_name a, al_Category = a_category a,
        al_TriggeredAt = show_time (a_triggered_at a), al_Description = a_description a\<rparr>) (take 3 (newest (alert_logs d)))"

text \<open>A tick asks for the status and reads the database; a query that fails keeps the old value.\<close>

definition status_Update ::
  "(go_time \<Rightarrow> string) \<Rightarrow> (alert_row list \<Rightarrow> alert_row list) \<Rightarrow> StatusResponse result \<Rightarrow> go_error option \<Rightarrow> (nat \<Rightarrow> go_error option)
     \<Rightarrow> db \<Rightarrow> tui_msg \<Rightarrow> statusModel \<Rightarrow> statusModel \<times> tui_cmd" where
  "status_Update show_time newest answer open_err fault d msg m =
     (case msg of
        KeyMsg key \<Rightarrow> if key = ''q'' then (m, Quit) else (m, NoCmd)
      | CtrlC \<Rightarrow> (m, Quit)
      | Esc \<Rightarrow> (m, Quit)
      | OtherMsg \<Rightarrow> (m, NoCmd)
      | TickMsg \<Rightarrow>
          ((case answer of
              Inl err \<Rightarrow> m\<lparr>sm_err := Some err\<rparr>
            | Inr res \<Rightarrow>
                let m1 = m\<lparr>sm_status := Some res, sm_err := None\<rparr> in
                if open_err \<noteq> None then m1
                else m1\<lparr>sm_procCount := (if fault 0 = None then int (length (processes d)) else sm_procCount m),
                        sm_fileCount := (if fault 1 = None then int (length (file_modifications d)) else sm_fileCount m),
                        sm_netCount := (if fault 2 = None then int (length (network_connections d)) else sm_netCount m),
                        sm_recentAlerts := (if fault 3 = None then recent_alerts show_time newest d else sm_recentAlerts m)\<rparr>),
           Tick))"

text \<open>The program of the health command leaves at the first message of any kind.\<close>

definition health_Update :: "tui_msg \<Rightarrow> healthModel \<Rightarrow> healthModel \<times> tui_cmd" where
  "health_Update msg m = (m, Quit)"

definition health_Init :: "healthModel \<Rightarrow> tui_cmd" where
  "health_Init m = NoCmd"

definition status_Init :: "statusModel \<Rightarrow> tui_cmd" where
  "status_Init m = Tick"

section \<open>Styles\<close>

record Style =
  ls_Bold :: bool
  ls_Foreground :: string
  ls_RoundedBorder :: bool
  ls_Padding :: "nat \<times> nat"
  ls_Width :: nat
  ls_MarginTop :: nat
  ls_MarginBottom :: nat

definition NewStyle :: Style where
  "NewStyle = \<lparr>ls_Bold = False, ls_Foreground = [], ls_RoundedBorder = False, ls_Padding = (0, 0), ls_Width = 0,
     ls_MarginTop = 0, ls_MarginBottom = 0\<rparr>"

definition titleStyle :: Style where
  "titleStyle = NewStyle\<lparr>ls_Bold := True, ls_Foreground := ''#00ffd7'', ls_RoundedBorder := True, ls_Padding := (0, 2),
     ls_MarginBottom := 1\<rparr>"

definition headerStyle :: Style where
  "headerStyle = NewStyle\<lparr>ls_Bold := True, ls_Foreground := ''#ff007f'', ls_MarginTop := 1, ls_MarginBottom := 1\<rparr>"

definition labelStyle :: Style where
  "labelStyle = NewStyle\<lparr>ls_Foreground := ''#a3a3a3'', ls_Width := 20\<rparr>"

definition valueStyle :: Style where
  "valueStyle = NewStyle\<lparr>ls_Bold := True, ls_Foreground := ''#00ff00''\<rparr>"

definition errorStyle :: Style where
  "errorStyle = NewStyle\<lparr>ls_Bold := True, ls_Foreground := ''#ff0000''\<rparr>"

definition footerStyle :: Style where
  "footerStyle = NewStyle\<lparr>ls_Foreground := ''#525252'', ls_MarginTop := 1\<rparr>"

section \<open>Rendering\<close>

definition utf8 :: "nat list \<Rightarrow> string" where
  "utf8 = map char_of"

definition full_block :: string where "full_block = utf8 [226, 150, 136]"
definition light_block :: string where "light_block = utf8 [226, 150, 145]"

abbreviation barLength :: int where "barLength \<equiv> 10"

definition filledLength :: "f64 \<Rightarrow> int" where
  "filledLength cpu =
     (let n = int_of_f64 (fmul (fdiv cpu 100) (f64_of_int barLength))
      in if n < 1 \<and> 0 < cpu then 1 else n)"

definition cpu_bar :: "f64 \<Rightarrow> string" where
  "cpu_bar cpu = concat (map (\<lambda>i. if i < filledLength cpu then full_block else light_block) [0..barLength - 1])"

text \<open>One decimal, as \<open>%.1f\<close> prints it.\<close>

definition fmt_1f :: "f64 \<Rightarrow> string" where
  "fmt_1f x =
     (let n = nat (round_even (\<bar>x\<bar> * 10))
      in (if x < 0 then ''-'' else []) @ show_nat (n div 10) @ ''.'' @ [digit (n mod 10)])"

definition count_line :: "(Style \<Rightarrow> string \<Rightarrow> string) \<Rightarrow> string \<Rightarrow> int \<Rightarrow> string" where
  "count_line render label n = render labelStyle label @ '': '' @ show_int n @ [newline]"

definition alert_lines :: "(Style \<Rightarrow> string \<Rightarrow> string) \<Rightarrow> alertLog \<Rightarrow> string" where
  "alert_lines render a =
     ''['' @ al_TriggeredAt a @ ''] '' @ render (NewStyle\<lparr>ls_Bold := True, ls_Foreground := ''#ff0055''\<rparr>) (al_RuleName a)
       @ '' ['' @ al_Category a @ '']'' @ [newline] @ ''  '' @ al_Description a @ [newline]"

definition status_lines :: "(Style \<Rightarrow> string \<Rightarrow> string) \<Rightarrow> StatusResponse \<Rightarrow> string" where
  "status_lines render res =
     (let state = (if sr_Status res \<noteq> [] then sr_Status res else ''RUNNING'')
      in render labelStyle ''Daemon State'' @ '': '' @ render valueStyle state @ [newline]
         @ render labelStyle ''Agent Version'' @ '': '' @ render (valueStyle\<lparr>ls_Foreground := ''#ffd700''\<rparr>) (sr_Version res) @ [newline]
         @ render labelStyle ''CPU Utilization'' @ '': ['' @ cpu_bar (sr_CpuUsage res) @ ''] ''
             @ render (valueStyle\<lparr>ls_Foreground := ''#00e5ff''\<rparr>) (fmt_1f (sr_CpuUsage res) @ ''%'') @ [newline]
         @ render labelStyle ''Memory Footprint'' @ '': ''
             @ render (valueStyle\<lparr>ls_Foreground := ''#d700ff''\<rparr>) (fmt_1f (sr_RamUsage res) @ '' MB'') @ [newline])"

definition status_View :: "(Style \<Rightarrow> string \<Rightarrow> string) \<Rightarrow> statusModel \<Rightarrow> string" where
  "status_View render m =
     render titleStyle (utf8 [240, 159, 155, 161, 239, 184, 143] @ '' AEGIS EDR LIVE MONITOR DASHBOARD'') @ [newline]
     @ (case sm_err m of
          Some err \<Rightarrow> render errorStyle (''CONNECTION ERROR: '' @ err @ [newline])
        | None \<Rightarrow>
          (case sm_status m of
             None \<Rightarrow> ''Fetching initial telemetry data...'' @ [newline]
           | Some res \<Rightarrow>
               status_lines render res
               @ render headerStyle (utf8 [240, 159, 147, 138] @ '' TELEMETRY INGESTION METRICS'') @ [newline]
               @ count_line render ''Total Processes'' (sm_procCount m)
               @ count_line render ''File Modifications'' (sm_fileCount m)
               @ count_line render ''Network Connections'' (sm_netCount m)
               @ render headerStyle (utf8 [240, 159, 154, 168] @ '' RECENT SECURITY ALERTS (LIMIT 3)'') @ [newline]
               @ (if sm_recentAlerts m = []
                  then render (NewStyle\<lparr>ls_Foreground := ''#525252''\<rparr>) ''No critical alerts logged.'' @ [newline]
                  else concat (map (alert_lines render) (sm_recentAlerts m)))))
     @ render footerStyle ''Press [q] or [Esc] to exit dashboard.'' @ [newline]"

section \<open>Printing commands\<close>

definition version_command :: "string \<Rightarrow> string \<Rightarrow> string \<Rightarrow> string" where
  "version_command Version CommitHash BuildTime =
     ''AEGIS EDR Client Version: '' @ Version @ [newline] @ ''Commit Hash             : '' @ CommitHash @ [newline]
     @ ''Build Time              : '' @ BuildTime @ [newline]"

definition config_line :: "(Style \<Rightarrow> string \<Rightarrow> string) \<Rightarrow> string \<Rightarrow> string \<Rightarrow> string" where
  "config_line render label value =
     render (NewStyle\<lparr>ls_Foreground := ''#ffffff'', ls_Width := 25\<rparr>) label @ '': ''
     @ render (NewStyle\<lparr>ls_Foreground := ''#ffd700''\<rparr>) value @ [newline]"

definition config_command :: "(Style \<Rightarrow> string \<Rightarrow> string) \<Rightarrow> Config result \<Rightarrow> cmd_output" where
  "config_command render loaded =
     (case loaded of
        Inl err \<Rightarrow> (1, ''Error: failed to load configuration: '' @ err @ [newline])
      | Inr cfg \<Rightarrow> (0,
          banner (render (NewStyle\<lparr>ls_Bold := True, ls_Foreground := ''#00ffd7'', ls_MarginBottom := 1\<rparr>) ''AEGIS CONFIGURATION VALUES'')
          @ config_line render ''Agent ID'' (ag_ID (cf_Agent cfg))
          @ config_line render ''Log Level'' (ag_LogLevel (cf_Agent cfg))
          @ config_line render ''IPC Socket Path'' (ag_IPCSocket (cf_Agent cfg))
          @ config_line render ''Heartbeat Interval'' (show_int (ag_HeartbeatIntervalSeconds (cf_Agent cfg)) @ '' seconds'')))"

section \<open>What the dashboard shows\<close>

text \<open>The processor bar always has ten cells; full ones only when there is a load.\<close>

lemma cpu_bar_cells: "length (cpu_bar cpu) = 30"
  by (simp add: cpu_bar_def full_block_def light_block_def utf8_def upto_rec1 length_concat)

lemma idle_bar: "cpu_bar 0 = concat (replicate 10 light_block)"
  by code_simp

lemma sublist_skip: "sublist xs ys \<Longrightarrow> sublist xs (zs @ ys)" and sublist_extend: "sublist xs ys \<Longrightarrow> sublist xs (ys @ zs)"
  by (meson sublist_append_leftI sublist_append_rightI sublist_order.order_trans)+

lemma take_sorted_greatest:
  assumes "sorted_wrt P xs"
  shows "\<forall>x \<in> set (take n xs). \<forall>y \<in> set (drop n xs). P x y"
  using assms sorted_wrt_append [of P "take n xs" "drop n xs"] by simp

abbreviation sorts_alerts :: "(alert_row list \<Rightarrow> alert_row list) \<Rightarrow> bool" where
  "sorts_alerts \<equiv> slice_sort (\<lambda>x y. a_triggered_at y < a_triggered_at x)"

lemma recent_alerts_latest:
  assumes "sorts_alerts newest"
  shows "\<exists>shown rest. mset (alert_logs d) = mset shown + mset rest \<and> length shown = min 3 (length (alert_logs d))
    \<and> (\<forall>a \<in> set shown. \<forall>b \<in> set rest. a_triggered_at b \<le> a_triggered_at a)
    \<and> map al_RuleName (recent_alerts show_time newest d) = map a_rule_name shown"
proof (intro exI conjI)
  let ?l = "newest (alert_logs d)"
  have "mset (take 3 ?l) + mset (drop 3 ?l) = mset ?l" by (metis append_take_drop_id mset_append)
  then show "mset (alert_logs d) = mset (take 3 ?l) + mset (drop 3 ?l)"
    using slice_sort.permuted [OF assms] by simp
  show "length (take 3 ?l) = min 3 (length (alert_logs d))"
    using slice_sort.same_length [OF assms] by simp
  show "\<forall>a \<in> set (take 3 ?l). \<forall>b \<in> set (drop 3 ?l). a_triggered_at b \<le> a_triggered_at a"
    using take_sorted_greatest [where n = 3, OF slice_sort.ordered [OF assms, of "alert_logs d"]] by (simp add: not_less)
  show "map al_RuleName (recent_alerts show_time newest d) = map a_rule_name (take 3 ?l)"
    by (simp add: recent_alerts_def)
qed

definition initial_model :: statusModel where
  "initial_model = \<lparr>sm_status = None, sm_err = None, sm_procCount = 0, sm_fileCount = 0, sm_netCount = 0, sm_recentAlerts = []\<rparr>"

text \<open>After a tick in which the daemon answers and no query fails, the dashboard shows the state of the
  database and nothing of what it showed before: the numbers of rows and the three latest alerts;
  and as the daemon never fills in its load, the processor bar is empty. After a tick without an
  answer it shows the error, and the numbers are kept for later.\<close>

theorem dashboard_shows_store:
  fixes d :: db and show_time :: "go_time \<Rightarrow> string"
  assumes "sorts_alerts newest" "\<And>n. fault n = None"
  defines "tick answer m \<equiv> fst (status_Update show_time newest answer None fault d TickMsg m)"
  shows "tick (Err err) m = m\<lparr>sm_err := Some err\<rparr>
    \<and> sublist (render errorStyle (''CONNECTION ERROR: '' @ err @ [newline])) (status_View render (tick (Err err) m))
    \<and> (let m' = tick (Api_Server.GetStatus s) m; shows_text = (\<lambda>t. sublist t (status_View render m')) in
        status_View render m' = status_View render (tick (Api_Server.GetStatus s) initial_model)
        \<and> shows_text (count_line render ''Total Processes'' (int (length (processes d))))
        \<and> shows_text (count_line render ''File Modifications'' (int (length (file_modifications d))))
        \<and> shows_text (count_line render ''Network Connections'' (int (length (network_connections d))))
        \<and> shows_text ('': ['' @ concat (replicate 10 light_block) @ ''] '')
        \<and> (\<exists>shown rest. mset (alert_logs d) = mset shown + mset rest \<and> length shown = min 3 (length (alert_logs d))
            \<and> (\<forall>a \<in> set shown. \<forall>b \<in> set rest. a_triggered_at b \<le> a_triggered_at a)
            \<and> map al_RuleName (sm_recentAlerts m') = map a_rule_name shown))"
proof -
  let ?res = "\<lparr>sr_Version = ''1.0.0-Beta'', sr_Status = ''RUNNING'', sr_CpuUsage = 0, sr_RamUsage = 0\<rparr>"
  let ?m = "\<lparr>sm_status = Some ?res, sm_err = None, sm_procCount = int (length (processes d)),
     sm_fileCount = int (length (file_modifications d)), sm_netCount = int (length (network_connections d)),
     sm_recentAlerts = recent_alerts show_time newest d\<rparr>"
  have err: "tick (Err err) m = m\<lparr>sm_err := Some err\<rparr>" by (simp add: tick_def status_Update_def)
  have ok: "tick (Api_Server.GetStatus s) k = ?m" for k
    by (cases k) (simp add: tick_def status_Update_def Api_Server.GetStatus_def assms(2) Let_def)
  have "'': ['' @ concat (replicate 10 light_block) @ ''] '' = '': ['' @ cpu_bar (sr_CpuUsage ?res) @ ''] ''"
    by (simp only: idle_bar StatusResponse.simps)
  then have bar: "sublist ('': ['' @ concat (replicate 10 light_block) @ ''] '') (status_lines render ?res)"
    unfolding status_lines_def Let_def
    by (simp only: append_assoc) (fastforce intro: sublist_skip)
  have "sm_err (m\<lparr>sm_err := Some err\<rparr>) = Some err" by simp
  then have shows_err: "sublist (render errorStyle (''CONNECTION ERROR: '' @ err @ [newline])) (status_View render (m\<lparr>sm_err := Some err\<rparr>))"
    unfolding status_View_def by (simp only: option.case) (blast intro: sublist_skip)
  have shows_ok: "sublist (count_line render ''Total Processes'' (int (length (processes d)))) (status_View render ?m)"
    "sublist (count_line render ''File Modifications'' (int (length (file_modifications d)))) (status_View render ?m)"
    "sublist (count_line render ''Network Connections'' (int (length (network_connections d)))) (status_View render ?m)"
    "sublist (status_lines render ?res) (status_View render ?m)"
    unfolding status_View_def statusModel.simps option.case append_assoc by (blast intro: sublist_skip)+
  show ?thesis
    unfolding ok err Let_def
    using recent_alerts_latest [OF assms(1), of d show_time] shows_err shows_ok sublist_order.order_trans [OF bar shows_ok(4)]
    by simp
qed

theorem dashboard_shows_store_witness:
  "sublist (count_line (\<lambda>_ x. x) ''Total Processes'' 1)
     (status_View (\<lambda>_ x. x) (fst (status_Update (\<lambda>_. ''T'') (rev \<circ> sort_key a_triggered_at)
        (Api_Server.GetStatus sample_server) None (\<lambda>_. None) blocked_db TickMsg initial_model)))"
proof -
  have sorts: "sorts_alerts (rev \<circ> sort_key a_triggered_at)"
    by unfold_locales (use sorted_sort_key [of a_triggered_at] in \<open>simp_all add: sorted_map sorted_wrt_rev not_less\<close>)
  have "length (processes blocked_db) = 1" by (simp add: blocked_db_eval)
  with dashboard_shows_store [OF sorts, of "\<lambda>_. None", where d = blocked_db and render = "\<lambda>_ x. x"
      and show_time = "\<lambda>_. ''T''" and m = initial_model and s = sample_server]
  show ?thesis by (simp add: Let_def)
qed

end
