(* ===== verification/Certsync.thy ===== *)
theory Certsync
  imports Go_Prelude
begin

text \<open>
  The certificates of the remote connection (\<open>pkg/api/certsync/certsync.go\<close>): the self-signed
  certificate and the TLS configurations of both sides. The cryptography of the standard library is
  a parameter: \<open>crypto\<close> holds what it returns, with keys of any type and a certificate as the
  template it was made from and the key that signed it. \<open>accepts\<close> is what a TLS peer checks.
\<close>

section \<open>Certificates\<close>

datatype KeyUsage = KeyEncipherment | DigitalSignature | CertSign

datatype ExtKeyUsage = ServerAuth | ClientAuthUsage

record Template =
  ct_SerialNumber :: int
  ct_Organization :: "string list"
  ct_NotBefore :: go_time
  ct_NotAfter :: go_time
  ct_KeyUsage :: "KeyUsage list"
  ct_ExtKeyUsage :: "ExtKeyUsage list"
  ct_BasicConstraintsValid :: bool
  ct_IsCA :: bool
  ct_DNSNames :: "string list"

record 'k Certificate =
  cc_template :: Template
  cc_key :: 'k
  cc_signer :: 'k

record 'k crypto =
  cr_GenerateKey :: "'k result"
  cr_serial :: "int result"
  cr_CreateCertificate :: "Template \<Rightarrow> 'k \<Rightarrow> string result"
  cr_cert_pem :: "string \<Rightarrow> string"
  cr_key_pem :: "'k \<Rightarrow> string"
  cr_X509KeyPair :: "string \<Rightarrow> string \<Rightarrow> ('k Certificate \<times> 'k) result"
  cr_pool_of_pem :: "string \<Rightarrow> 'k Certificate list"

definition cert_template :: "int \<Rightarrow> go_time \<Rightarrow> go_time \<Rightarrow> Template" where
  "cert_template serial now now' = \<lparr>ct_SerialNumber = serial, ct_Organization = [''Aegis EDR''],
     ct_NotBefore = now, ct_NotAfter = now' + 365 * 24 * 3600 * second,
     ct_KeyUsage = [KeyEncipherment, DigitalSignature, CertSign], ct_ExtKeyUsage = [ServerAuth, ClientAuthUsage],
     ct_BasicConstraintsValid = True, ct_IsCA = True, ct_DNSNames = [''localhost'']\<rparr>"

definition GenerateSelfSignedCert :: "'k crypto \<Rightarrow> go_time \<Rightarrow> go_time \<Rightarrow> (string \<times> string) result" where
  "GenerateSelfSignedCert cr now now' =
     (case cr_GenerateKey cr of
        Inl err \<Rightarrow> Err err
      | Inr priv \<Rightarrow>
        (case cr_serial cr of
           Inl err \<Rightarrow> Err err
         | Inr serial \<Rightarrow>
           (case cr_CreateCertificate cr (cert_template serial now now') priv of
              Inl err \<Rightarrow> Err err
            | Inr der \<Rightarrow> Ok (cr_cert_pem cr der, cr_key_pem cr priv))))"

section \<open>Configurations\<close>

datatype ClientAuth = NoClientCert | RequireAndVerifyClientCert

record 'k TLSConfig =
  tls_Certificates :: "('k Certificate \<times> 'k) list"
  tls_ClientAuth :: ClientAuth
  tls_ClientCAs :: "'k Certificate list"
  tls_RootCAs :: "'k Certificate list"
  tls_ServerName :: string
  tls_MinVersion :: nat

abbreviation VersionTLS13 :: nat where "VersionTLS13 \<equiv> 772"

definition key_pair_and_pool :: "'k crypto \<Rightarrow> string \<Rightarrow> string \<Rightarrow> (('k Certificate \<times> 'k) \<times> 'k Certificate list) result" where
  "key_pair_and_pool cr certPem keyPem =
     (case cr_X509KeyPair cr certPem keyPem of
        Inl err \<Rightarrow> Err err
      | Inr cert \<Rightarrow>
          if cr_pool_of_pem cr certPem = [] then Err ''failed to append cert to pool''
          else Ok (cert, cr_pool_of_pem cr certPem))"

definition GetServerTLSConfig :: "'k crypto \<Rightarrow> string \<Rightarrow> string \<Rightarrow> 'k TLSConfig result" where
  "GetServerTLSConfig cr certPem keyPem =
     (case key_pair_and_pool cr certPem keyPem of
        Inl err \<Rightarrow> Err err
      | Inr (cert, certPool) \<Rightarrow> Ok \<lparr>tls_Certificates = [cert], tls_ClientAuth = RequireAndVerifyClientCert,
          tls_ClientCAs = certPool, tls_RootCAs = [], tls_ServerName = [], tls_MinVersion = VersionTLS13\<rparr>)"

definition GetClientTLSConfig :: "'k crypto \<Rightarrow> string \<Rightarrow> string \<Rightarrow> 'k TLSConfig result" where
  "GetClientTLSConfig cr certPem keyPem =
     (case key_pair_and_pool cr certPem keyPem of
        Inl err \<Rightarrow> Err err
      | Inr (cert, certPool) \<Rightarrow> Ok \<lparr>tls_Certificates = [cert], tls_ClientAuth = NoClientCert,
          tls_ClientCAs = [], tls_RootCAs = certPool, tls_ServerName = ''localhost'', tls_MinVersion = VersionTLS13\<rparr>)"

section \<open>The two sides trust each other and nobody else\<close>

text \<open>The standard library: what was encoded is read back, and a created certificate carries the
  template and the key.\<close>

definition crypto_ok :: "'k crypto \<Rightarrow> bool" where
  "crypto_ok cr \<longleftrightarrow> (\<forall>t k der. cr_CreateCertificate cr t k = Inr der \<longrightarrow>
     cr_X509KeyPair cr (cr_cert_pem cr der) (cr_key_pem cr k) = Ok (\<lparr>cc_template = t, cc_key = k, cc_signer = k\<rparr>, k)
     \<and> cr_pool_of_pem cr (cr_cert_pem cr der) = [\<lparr>cc_template = t, cc_key = k, cc_signer = k\<rparr>])"

text \<open>A peer's certificate is valid at a time for a use if a trusted authority signed it; a client also
  checks the name.\<close>

definition accepts :: "'k Certificate list \<Rightarrow> ExtKeyUsage \<Rightarrow> go_time \<Rightarrow> 'k Certificate \<Rightarrow> bool" where
  "accepts pool usage t c \<longleftrightarrow> (\<exists>a \<in> set pool. cc_key a = cc_signer c \<and> ct_IsCA (cc_template a) \<and> CertSign \<in> set (ct_KeyUsage (cc_template a)))
     \<and> usage \<in> set (ct_ExtKeyUsage (cc_template c)) \<and> ct_NotBefore (cc_template c) \<le> t \<and> t \<le> ct_NotAfter (cc_template c)"

definition server_accepts :: "'k TLSConfig \<Rightarrow> go_time \<Rightarrow> 'k Certificate option \<Rightarrow> bool" where
  "server_accepts cfg t c = (case tls_ClientAuth cfg of
     NoClientCert \<Rightarrow> True
   | RequireAndVerifyClientCert \<Rightarrow> (case c of None \<Rightarrow> False | Some c \<Rightarrow> accepts (tls_ClientCAs cfg) ClientAuthUsage t c))"

definition client_accepts :: "'k TLSConfig \<Rightarrow> go_time \<Rightarrow> 'k Certificate \<Rightarrow> bool" where
  "client_accepts cfg t c \<longleftrightarrow> accepts (tls_RootCAs cfg) ServerAuth t c \<and> tls_ServerName cfg \<in> set (ct_DNSNames (cc_template c))"

text \<open>From one generated certificate both configurations can be made; with them each side accepts the
  other's certificate during the year of its validity, in TLS 1.3 only, and the server refuses a client
  without a certificate or with one signed by another key.\<close>

theorem mutual_tls:
  assumes "crypto_ok cr" "GenerateSelfSignedCert cr now now' = Ok (certPem, keyPem)"
  shows "\<exists>srv cli c k. GetServerTLSConfig cr certPem keyPem = Ok srv \<and> GetClientTLSConfig cr certPem keyPem = Ok cli
    \<and> tls_Certificates srv = [(c, k)] \<and> tls_Certificates cli = [(c, k)] \<and> cr_GenerateKey cr = Ok k
    \<and> tls_MinVersion srv = VersionTLS13 \<and> tls_MinVersion cli = VersionTLS13
    \<and> (\<forall>t. server_accepts srv t (Some c) = client_accepts cli t c)
    \<and> (\<forall>t. client_accepts cli t c = (now \<le> t \<and> t \<le> now' + 365 * 24 * 3600 * second))
    \<and> (\<forall>t. \<not> server_accepts srv t None) \<and> (\<forall>t c'. cc_signer c' \<noteq> k \<longrightarrow> \<not> server_accepts srv t (Some c'))"
proof -
  obtain k serial der where k: "cr_GenerateKey cr = Inr k" "cr_serial cr = Inr serial"
    "cr_CreateCertificate cr (cert_template serial now now') k = Inr der"
    and pems: "certPem = cr_cert_pem cr der" "keyPem = cr_key_pem cr k"
    using assms(2) by (auto simp: GenerateSelfSignedCert_def split: sum.splits)
  let ?c = "\<lparr>cc_template = cert_template serial now now', cc_key = k, cc_signer = k\<rparr>"
  have "key_pair_and_pool cr certPem keyPem = Ok ((?c, k), [?c])"
    using assms(1) k(3) by (simp add: crypto_ok_def key_pair_and_pool_def pems)
  then show ?thesis
    by (auto simp: GetServerTLSConfig_def GetClientTLSConfig_def server_accepts_def client_accepts_def accepts_def
        cert_template_def k(1))
qed

text \<open>A library with one key, whose certificates are their serial numbers.\<close>

definition toy_crypto :: "unit crypto" where
  "toy_crypto = (let t = cert_template 1 0 0; c = \<lparr>cc_template = t, cc_key = (), cc_signer = ()\<rparr>
     in \<lparr>cr_GenerateKey = Ok (), cr_serial = Ok 1,
         cr_CreateCertificate = \<lambda>u _. if u = t then Ok ''der'' else Err ''unknown template'',
         cr_cert_pem = id, cr_key_pem = \<lambda>_. ''key'', cr_X509KeyPair = \<lambda>_ _. Ok (c, ()), cr_pool_of_pem = \<lambda>_. [c]\<rparr>)"

theorem mutual_tls_witness:
  "\<exists>srv. GetServerTLSConfig toy_crypto ''der'' ''key'' = Ok srv \<and> \<not> server_accepts srv 0 None"
proof -
  have "crypto_ok toy_crypto" by (auto simp: crypto_ok_def toy_crypto_def Let_def split: if_splits)
  moreover have "GenerateSelfSignedCert toy_crypto 0 0 = Ok (''der'', ''key'')"
    by (simp add: GenerateSelfSignedCert_def toy_crypto_def Let_def)
  ultimately show ?thesis using mutual_tls by blast
qed

end
