(* ===== verification/Event_Flow.thy ===== *)
theory Event_Flow
  imports Correlation Nextgen
begin

text \<open>
  The telemetry pipeline with both correlation engines behind it: \<open>Correlate\<close> of
  \<open>internal/correlation\<close> as the correlation hook and \<open>Ingest\<close> of \<open>internal/correlation/nextgen\<close> as the
  analytics hook (\<open>SetCorrelationHook\<close>, \<open>SetAnalyticsHook\<close> of \<open>internal/telemetry/pipeline.go\<close>). The world
  of the hooks is the state of the two engines and the number of calls so far, which indexes
  the clock the engines read; \<open>None\<close> for the graph engine stands for a panic.
\<close>

section \<open>Setting the hooks\<close>

definition SetCorrelationHook :: "'h hook \<Rightarrow> 'h hooks \<Rightarrow> 'h hooks" where
  "SetCorrelationHook hook hk = hk\<lparr>correlationHook := Some hook\<rparr>"

definition SetAnalyticsHook :: "'h hook \<Rightarrow> 'h hooks \<Rightarrow> 'h hooks" where
  "SetAnalyticsHook hook hk = hk\<lparr>analyticsHook := Some hook\<rparr>"

section \<open>The engines as hooks\<close>

record flow_world =
  fw_calls :: nat
  fw_corr :: corr_engine
  fw_graph :: "ng_engine option"

definition corr_hook :: "(nat \<Rightarrow> go_time) \<Rightarrow> flow_world hook" where
  "corr_hook clock e w = (e, w\<lparr>fw_calls := Suc (fw_calls w), fw_corr := Correlate (clock (fw_calls w)) e (fw_corr w)\<rparr>)"

definition graph_hook :: "(go_time \<Rightarrow> string) \<Rightarrow> (nat \<Rightarrow> go_time) \<Rightarrow> flow_world hook" where
  "graph_hook fmt_time clock e w = (e, w\<lparr>fw_calls := Suc (fw_calls w),
     fw_graph := Option.bind (fw_graph w) (ng_Ingest fmt_time (clock (fw_calls w)) e)\<rparr>)"

definition engine_hooks :: "(go_time \<Rightarrow> string) \<Rightarrow> (nat \<Rightarrow> go_time) \<Rightarrow> flow_world hooks" where
  "engine_hooks fmt_time clock = SetAnalyticsHook (graph_hook fmt_time clock)
     (SetCorrelationHook (corr_hook clock) \<lparr>correlationHook = None, analyticsHook = None\<rparr>)"

definition engines_start :: "duration \<Rightarrow> nat \<Rightarrow> duration \<Rightarrow> nat \<Rightarrow> flow_world" where
  "engines_start window shards graph_window chan_cap =
     \<lparr>fw_calls = 0, fw_corr = NewEngine window, fw_graph = Some (ng_NewEngine shards graph_window chan_cap)\<rparr>"

section \<open>The world follows the history\<close>

text \<open>What the hooks make of one event.\<close>

definition hook_step :: "'h hooks \<Rightarrow> Event \<Rightarrow> 'h \<Rightarrow> 'h" where
  "hook_step hk e w = snd (call_hook (analyticsHook hk) (call_hook (correlationHook hk) (e, w)))"

lemma flush_event_world: "tk_world (flush_event hk env n e s) = hook_step hk e (tk_world s)"
  by (simp add: flush_event_def hook_step_def Let_def split: option.split prod.split)

lemma flush_list_world: "tk_world (flush_list hk env n es s) = fold (hook_step hk) es (tk_world s)"
  by (induction es arbitrary: n s) (simp_all add: flush_event_world)

lemma flushBatch_world: "tk_world (flushBatch hk env b s) = fold (hook_step hk) b (tk_world s)"
  by (simp add: flushBatch_def flush_list_world)

text \<open>Along every run the world is the hooks' fold over the events handed on so far.\<close>

definition follows :: "'h hooks \<Rightarrow> 'h \<Rightarrow> 'h tl_sink \<Rightarrow> bool" where
  "follows hk w0 s \<longleftrightarrow> tk_world s = fold (hook_step hk) (tk_history s) w0"

lemma follows_flushBatch: "follows hk w0 s \<Longrightarrow> follows hk w0 (flushBatch hk env b s)"
  by (simp add: follows_def flushBatch_world tl.history_sink)

lemma Ingest_sink: "wk_sink (tp_worker (snd (Ingest sha now raw p))) = wk_sink (tp_worker p)"
  by (auto simp: Ingest_def Let_def split: prod.split option.split if_splits)

lemma pipe_run_follows:
  "pipe_run sha hk ls p = Some (tr, q) \<Longrightarrow> follows hk w0 (wk_sink (tp_worker p)) \<Longrightarrow> follows hk w0 (wk_sink (tp_worker q))"
proof (induction sha hk ls p arbitrary: tr rule: pipe_run.induct)
  case (3 sha hk l ls p)
  then obtain p' where p': "pipeline_step hk l p = Some p'" and rest: "pipe_run sha hk ls p' = Some (tr, q)"
    and l: "sends [l] = []"
    by (auto split: if_splits option.splits)
  then obtain w where w: "worker_step (flushBatch hk) (tp_capacity p) l (tp_worker p) = Some w" "p' = p\<lparr>tp_worker := w\<rparr>"
    by (auto simp: pipeline_step_def)
  have "follows hk w0 (wk_sink w)"
    by (rule worker_step_sink [of "follows hk w0", OF "3.prems"(2) follows_flushBatch w(1)])
  with "3.IH" [OF _ p' rest] l w(2) show ?case by simp
qed (auto simp: Ingest_sink)

section \<open>The engines along a run\<close>

text \<open>The calls of both engines for a list of events, each at its reading of the clock.\<close>

fun corr_calls :: "(nat \<Rightarrow> go_time) \<Rightarrow> nat \<Rightarrow> Event list \<Rightarrow> corr_op list" where
  "corr_calls clock i [] = []"
| "corr_calls clock i (e # es) = CorrEvent (clock i) e # corr_calls clock (i + 2) es"

fun graph_calls :: "(nat \<Rightarrow> go_time) \<Rightarrow> nat \<Rightarrow> Event list \<Rightarrow> ng_op list" where
  "graph_calls clock i [] = []"
| "graph_calls clock i (e # es) = NgIngest (clock (Suc i)) e # graph_calls clock (i + 2) es"

lemma calls_length [simp]: "length (corr_calls clock i es) = length es" "length (graph_calls clock i es) = length es"
  by (induction es arbitrary: i) simp_all

lemma engine_step:
  "hook_step (engine_hooks fmt_time clock) e w = \<lparr>fw_calls = fw_calls w + 2,
     fw_corr = Correlate (clock (fw_calls w)) e (fw_corr w),
     fw_graph = Option.bind (fw_graph w) (ng_Ingest fmt_time (clock (Suc (fw_calls w))) e)\<rparr>"
  by (cases w) (simp add: hook_step_def engine_hooks_def SetAnalyticsHook_def SetCorrelationHook_def call_hook_def
      corr_hook_def graph_hook_def)

lemma engines_fold:
  "fold (hook_step (engine_hooks fmt_time clock)) es \<lparr>fw_calls = i, fw_corr = en, fw_graph = g\<rparr> =
     \<lparr>fw_calls = i + 2 * length es, fw_corr = fold corr_step (corr_calls clock i es) en,
      fw_graph = Option.bind g (ng_run fmt_time (graph_calls clock i es))\<rparr>"
proof (induction es arbitrary: i en g)
  case (Cons e es)
  then show ?case by (cases g) (simp_all add: engine_step Cons split: option.split)
next
  case Nil
  then show ?case by (cases g) simp_all
qed

text \<open>An event that names its own process as its parent.\<close>

definition own_parent :: "Event \<Rightarrow> bool" where
  "own_parent e \<longleftrightarrow> te_Type e = ''process'' \<and> te_ParentID e = te_ProcessID e"

lemma calls_self_parent: "list_all (\<lambda>op. \<not> self_parent op) (corr_calls clock i es) = list_all (\<lambda>e. \<not> own_parent e) es"
  by (induction es arbitrary: i) (simp_all add: own_parent_def)

text \<open>C5 (liveness). With both engines behind the pipeline, however ingestion and worker interleave, the
  engines have seen exactly the events handed on so far, once each and in the order of their
  acceptance, the rest being in the batch and the queue. No call of the graph engine panics. And as long
  as no event names its own process as its parent, every timeline of the correlation engine is
  returned, in order of time.\<close>

theorem engines_see_every_event:
  assumes run: "pipe_run sha (engine_hooks fmt_time clock) ls
      (NewPipeline cap store ttl excludes (engines_start window shards graph_window chan_cap)) = Some (tr, p)"
    and shards: "0 < shards" "shards < 2 ^ 32" and srt: "sorts_timelines srt"
  shows "\<exists>seen graph. seen @ wk_batch (tp_worker p) @ wk_queue (tp_worker p) = outcomes Buffered tr
    \<and> fw_corr (tk_world (wk_sink (tp_worker p))) = corr_run window (corr_calls clock 0 seen)
    \<and> fw_graph (tk_world (wk_sink (tp_worker p))) = Some graph
    \<and> ng_run fmt_time (graph_calls clock 0 seen) (ng_NewEngine shards graph_window chan_cap) = Some graph
    \<and> (list_all (\<lambda>e. \<not> own_parent e) seen \<longrightarrow>
        (\<forall>pid. \<exists>r. ReconstructTimeline srt (length seen) pid (fw_corr (tk_world (wk_sink (tp_worker p)))) = Some r
           \<and> (case r of Inl msg \<Rightarrow> msg = not_in_window pid | Inr items \<Rightarrow> sorted (map ti_Timestamp items))))"
proof -
  let ?hk = "engine_hooks fmt_time clock" and ?w0 = "engines_start window shards graph_window chan_cap"
  let ?s = "wk_sink (tp_worker p)"
  let ?seen = "tk_history ?s" and ?en = "corr_run window (corr_calls clock 0 (tk_history ?s))"
  have "follows ?hk ?w0 (wk_sink (tp_worker (NewPipeline cap store ttl excludes ?w0)))"
    by (simp add: follows_def NewPipeline_def init_worker_def)
  from pipe_run_follows [OF run this] have world: "tk_world ?s = fold (hook_step ?hk) ?seen ?w0"
    by (simp add: follows_def)
  have contents: "?seen @ wk_batch (tp_worker p) @ wk_queue (tp_worker p) = outcomes Buffered tr"
    using pipe_run_accounting [OF run] by (simp add: tl.contents_def NewPipeline_def init_worker_def)
  have corr: "fw_corr (tk_world ?s) = ?en"
    by (simp add: world engines_start_def engines_fold corr_run_def)
  obtain graph where graph: "ng_run fmt_time (graph_calls clock 0 ?seen) (ng_NewEngine shards graph_window chan_cap) = Some graph"
    using ng_run_total [OF shards, of "ng_NewEngine shards graph_window chan_cap"] ng_NewEngine_ok
    by (fastforce simp: ng_NewEngine_def)
  have "\<exists>r. ReconstructTimeline srt (length ?seen) pid ?en = Some r
      \<and> (case r of Inl msg \<Rightarrow> msg = not_in_window pid | Inr items \<Rightarrow> sorted (map ti_Timestamp items))"
    if "list_all (\<lambda>e. \<not> own_parent e) ?seen" for pid
  proof (cases "ce_nodes ?en pid")
    case (Some a)
    have "corr_ok ?en" using that by (intro corr_run_ok) (simp add: calls_self_parent)
    moreover have "length (ce_heap ?en) \<le> length ?seen" using corr_run_length [of window "corr_calls clock 0 ?seen"] by simp
    ultimately show ?thesis
      using Some walk_obtains [of ?en pid a "length ?seen" node_items] sorts_timelines_sorted(1) [OF srt]
      by (fastforce simp: ReconstructTimeline_def)
  qed (simp add: ReconstructTimeline_def)
  with contents corr graph show ?thesis
    by (intro exI [of _ ?seen] exI [of _ graph]) (simp add: world engines_start_def engines_fold)
qed

theorem engines_see_every_event_witness:
  "\<exists>tr p graph. pipe_run (\<lambda>_. ''0'') (engine_hooks (\<lambda>_. ''T'') (\<lambda>_. 50)) [PIngest 10 (sample_raw ''/a''), PWork (Recv quiet), PWork (Tick quiet)]
     (NewPipeline 1 None 100 [] (engines_start 1000 8 1000 10)) = Some (tr, p) \<and> fw_graph (tk_world (wk_sink (tp_worker p))) = Some graph"
proof -
  let ?run = "pipe_run (\<lambda>_. ''0'') (engine_hooks (\<lambda>_. ''T'') (\<lambda>_. 50)) [PIngest 10 (sample_raw ''/a''), PWork (Recv quiet), PWork (Tick quiet)]
     (NewPipeline 1 None 100 [] (engines_start 1000 8 1000 10))"
  have "map_option (\<lambda>_. ()) ?run = Some ()" by code_simp
  then obtain tr p where run: "?run = Some (tr, p)" by (auto simp del: pipe_run.simps)
  from engines_see_every_event [OF run _ _ sort_by_time] show ?thesis using run by fastforce
qed

end
