(* ===== verification/Monitors.thy ===== *)
theory Monitors
  imports Event_Router Core_Services
begin

text \<open>
  The platform monitors (\<open>internal/monitor/platform\<close>): nine interfaces in \<open>platform.go\<close>, each with one
  type per operating system. The nine types of a platform differ in their names only, so a monitor
  is a record with its platform and kind; a build has one of the platforms. \<open>Start\<close> is given the
  router and the event bus by pointer, so it acts on the world that holds them. On the model of a
  host with any monitors, only what the monitors do reaches router and bus.
\<close>

section \<open>Monitors\<close>

datatype Platform = Linux | Darwin | Windows

datatype MonitorKind =
  ProcessMonitor | FileMonitor | NetworkMonitor | RegistryMonitor | ServiceMonitor
| DriverMonitor | UsbMonitor | ScheduledTaskMonitor | StartupMonitor

record 'd sensor_world =
  sw_router :: router
  sw_bus :: "'d EventBus"

text \<open>The fields \<open>router\<close> and \<open>eb\<close> hold \<open>nil\<close> or the pointer given to \<open>Start\<close>; there is one router and
  one bus, so only whether they are set matters.\<close>

record Monitor =
  mo_platform :: Platform
  mo_kind :: MonitorKind
  mo_router :: bool
  mo_eb :: bool

section \<open>Linux\<close>

definition linux_new :: "MonitorKind \<Rightarrow> Monitor" where
  "linux_new kind = \<lparr>mo_platform = Linux, mo_kind = kind, mo_router = False, mo_eb = False\<rparr>"

definition linux_Start :: "Monitor \<Rightarrow> 'd sensor_world \<Rightarrow> unit result \<times> Monitor \<times> 'd sensor_world" where
  "linux_Start m w = (Ok (), m\<lparr>mo_router := True, mo_eb := True\<rparr>, w)"

definition linux_Stop :: "Monitor \<Rightarrow> 'd sensor_world \<Rightarrow> unit result \<times> Monitor \<times> 'd sensor_world" where
  "linux_Stop m w = (Ok (), m, w)"

section \<open>Darwin\<close>

definition darwin_new :: "MonitorKind \<Rightarrow> Monitor" where
  "darwin_new kind = \<lparr>mo_platform = Darwin, mo_kind = kind, mo_router = False, mo_eb = False\<rparr>"

definition darwin_Start :: "Monitor \<Rightarrow> 'd sensor_world \<Rightarrow> unit result \<times> Monitor \<times> 'd sensor_world" where
  "darwin_Start m w = (Ok (), m\<lparr>mo_router := True, mo_eb := True\<rparr>, w)"

definition darwin_Stop :: "Monitor \<Rightarrow> 'd sensor_world \<Rightarrow> unit result \<times> Monitor \<times> 'd sensor_world" where
  "darwin_Stop m w = (Ok (), m, w)"

section \<open>Windows\<close>

definition windows_new :: "MonitorKind \<Rightarrow> Monitor" where
  "windows_new kind = \<lparr>mo_platform = Windows, mo_kind = kind, mo_router = False, mo_eb = False\<rparr>"

definition windows_Start :: "Monitor \<Rightarrow> 'd sensor_world \<Rightarrow> unit result \<times> Monitor \<times> 'd sensor_world" where
  "windows_Start m w = (Ok (), m\<lparr>mo_router := True, mo_eb := True\<rparr>, w)"

definition windows_Stop :: "Monitor \<Rightarrow> 'd sensor_world \<Rightarrow> unit result \<times> Monitor \<times> 'd sensor_world" where
  "windows_Stop m w = (Ok (), m, w)"

section \<open>The interfaces\<close>

definition NewMonitor :: "Platform \<Rightarrow> MonitorKind \<Rightarrow> Monitor" where
  "NewMonitor platform kind =
     (case platform of Linux \<Rightarrow> linux_new kind | Darwin \<Rightarrow> darwin_new kind | Windows \<Rightarrow> windows_new kind)"

definition monitor_Start :: "Monitor \<Rightarrow> 'd sensor_world \<Rightarrow> unit result \<times> Monitor \<times> 'd sensor_world" where
  "monitor_Start m = (case mo_platform m of Linux \<Rightarrow> linux_Start m | Darwin \<Rightarrow> darwin_Start m | Windows \<Rightarrow> windows_Start m)"

definition monitor_Stop :: "Monitor \<Rightarrow> 'd sensor_world \<Rightarrow> unit result \<times> Monitor \<times> 'd sensor_world" where
  "monitor_Stop m = (case mo_platform m of Linux \<Rightarrow> linux_Stop m | Darwin \<Rightarrow> darwin_Stop m | Windows \<Rightarrow> windows_Stop m)"

section \<open>A host with monitors\<close>

text \<open>A host creates monitors, starts and stops them by position, and lets the router's worker run. The
  calls of the operating system that a sensor would react to are not among the steps: no monitor
  registers for any.\<close>

datatype sensor_op =
  SensorNew MonitorKind
| SensorStart nat
| SensorStop nat
| RouterWork "(addr, flush_env) label"

record 'd sensor_host =
  sh_monitors :: "Monitor list"
  sh_world :: "'d sensor_world"

definition on_monitor ::
  "nat \<Rightarrow> (Monitor \<Rightarrow> 'd sensor_world \<Rightarrow> unit result \<times> Monitor \<times> 'd sensor_world) \<Rightarrow> 'd sensor_host \<Rightarrow> 'd sensor_host" where
  "on_monitor i f h =
     (if i < length (sh_monitors h)
      then case f (sh_monitors h ! i) (sh_world h) of
             (_, m, w) \<Rightarrow> h\<lparr>sh_monitors := (sh_monitors h)[i := m], sh_world := w\<rparr>
      else h)"

text \<open>A step of the worker that is not possible, and sends, which are no steps of the worker, leave the
  host as it is.\<close>

fun sensor_step :: "Platform \<Rightarrow> sensor_op \<Rightarrow> 'd sensor_host \<Rightarrow> 'd sensor_host" where
  "sensor_step pl (SensorNew kind) h = h\<lparr>sh_monitors := sh_monitors h @ [NewMonitor pl kind]\<rparr>"
| "sensor_step pl (SensorStart i) h = on_monitor i monitor_Start h"
| "sensor_step pl (SensorStop i) h = on_monitor i monitor_Stop h"
| "sensor_step pl (RouterWork l) h =
     (if sends [l] \<noteq> [] then h
      else case router_step l (sw_router (sh_world h)) of
             None \<Rightarrow> h
           | Some r \<Rightarrow> h\<lparr>sh_world := (sh_world h)\<lparr>sw_router := r\<rparr>\<rparr>)"

definition sensor_run :: "Platform \<Rightarrow> sensor_op list \<Rightarrow> 'd sensor_host \<Rightarrow> 'd sensor_host" where
  "sensor_run pl ops h = fold (sensor_step pl) ops h"

section \<open>Monitors never report anything\<close>

definition quiet_router :: "rt_sink \<Rightarrow> router \<Rightarrow> bool" where
  "quiet_router s r \<longleftrightarrow> wk_queue (rt_worker r) = [] \<and> wk_batch (rt_worker r) = [] \<and> wk_sink (rt_worker r) = s"

lemma quiet_step: "quiet_router s r \<Longrightarrow> sends [l] = [] \<Longrightarrow> router_step l r = Some r' \<Longrightarrow> quiet_router s r'"
  by (cases l) (auto simp: quiet_router_def router_step_def flush_def receive_def split: if_splits)

lemma on_monitor_world:
  "sh_world (on_monitor i monitor_Start h) = sh_world h" "sh_world (on_monitor i monitor_Stop h) = sh_world h"
  by (simp_all add: on_monitor_def monitor_Start_def monitor_Stop_def linux_Start_def darwin_Start_def windows_Start_def
      linux_Stop_def darwin_Stop_def windows_Stop_def split: Platform.split)

lemma sensor_step_quiet:
  "quiet_router s (sw_router (sh_world h)) \<Longrightarrow> quiet_router s (sw_router (sh_world (sensor_step pl op h)))
     \<and> sw_bus (sh_world (sensor_step pl op h)) = sw_bus (sh_world h)"
  by (cases op) (auto simp: on_monitor_world split: option.split intro: quiet_step)

text \<open>On no platform do monitors ever report anything: whatever monitors are created, started and
  stopped, and however long the router's worker runs, nothing is queued, the store keeps
  its content, and no subscriber of the event bus receives a message.\<close>

theorem monitors_report_nothing:
  assumes "h = sensor_run pl ops \<lparr>sh_monitors = [], sh_world = \<lparr>sw_router = NewRouter capacity store, sw_bus = bus\<rparr>\<rparr>"
  shows "rs_db (wk_sink (rt_worker (sw_router (sh_world h)))) = rs_db store
    \<and> wk_queue (rt_worker (sw_router (sh_world h))) = [] \<and> sw_bus (sh_world h) = bus"
proof -
  have run: "quiet_router store (sw_router (sh_world g)) \<Longrightarrow> quiet_router store (sw_router (sh_world (fold (sensor_step pl) ops g)))
     \<and> sw_bus (sh_world (fold (sensor_step pl) ops g)) = sw_bus (sh_world g)" for g :: "'d sensor_host"
  proof (induction ops arbitrary: g)
    case (Cons op ops)
    then show ?case using sensor_step_quiet [OF Cons.prems, of pl op] by simp
  qed simp
  show ?thesis
    using run [of "\<lparr>sh_monitors = [], sh_world = \<lparr>sw_router = NewRouter capacity store, sw_bus = bus\<rparr>\<rparr>"]
    by (simp add: assms sensor_run_def quiet_router_def NewRouter_def init_worker_def)
qed

theorem monitors_report_nothing_witness:
  "rs_db (wk_sink (rt_worker (sw_router (sh_world (sensor_run Linux
     [SensorNew ProcessMonitor, SensorNew FileMonitor, SensorStart 0, SensorStart 1, RouterWork (Tick calm), SensorStop 0]
     \<lparr>sh_monitors = [], sh_world = \<lparr>sw_router = NewRouter 8 two_events, sw_bus = NewEventBus :: nat EventBus\<rparr>\<rparr>))))) = rs_db two_events"
  by (rule monitors_report_nothing [THEN conjunct1, OF refl])

end
