(* ===== verification/Commands.thy ===== *)
theory Commands
  imports Dashboard Doctor
begin

text \<open>
  The command tree of the client (\<open>main\<close> in \<open>cmd/aegis/main.go\<close>): each command with its name, aliases,
  help text, number of positional arguments, flags with their defaults, and subcommands. The
  command line library parses the arguments and prints help; \<open>lookup_path\<close> is the part of the tree that
  a path of names reaches. The commands that only print a component's report stand here too.
\<close>

section \<open>Commands and flags\<close>

record Flag =
  fl_Name :: string
  fl_Default :: string
  fl_Required :: bool

datatype Command = Command
  (cm_Use: string) (cm_Aliases: "string list") (cm_Short: string)
  (cm_ExactArgs: "nat option") (cm_Flags: "Flag list") (cm_Commands: "Command list")

definition flag :: "string \<Rightarrow> string \<Rightarrow> Flag" where
  "flag name value = \<lparr>fl_Name = name, fl_Default = value, fl_Required = False\<rparr>"

definition MarkFlagRequired :: "Flag \<Rightarrow> Flag" where
  "MarkFlagRequired f = f\<lparr>fl_Required := True\<rparr>"

definition plain_command :: "string \<Rightarrow> string \<Rightarrow> Command" where
  "plain_command use short = Command use [] short None [] []"

section \<open>The tree\<close>

definition statusCmd :: Command where
  "statusCmd = Command ''status'' [''monitor''] ''View daemon health and configuration profiles'' None [] []"

definition versionCmd :: Command where
  "versionCmd = plain_command ''version'' ''Print the AEGIS client and build version information''"

definition healthCmd :: Command where
  "healthCmd = plain_command ''health'' ''Perform connection and dependency health checks''"

definition configCmd :: Command where
  "configCmd = plain_command ''config'' ''Display active agent configuration properties''"

definition kill_flags :: "Flag list" where
  "kill_flags = [MarkFlagRequired (flag ''pid'' ''0'')]"

definition killCmd :: Command where
  "killCmd = Command ''kill'' [] ''Terminate a process and all spawned descendants'' None kill_flags []"

definition isolateCmd :: Command where
  "isolateCmd = plain_command ''isolate'' ''Isolate the host network interfaces from network outbound''"

definition restoreCmd :: Command where
  "restoreCmd = plain_command ''restore'' ''Restore host network isolation filters''"

definition quarantine_flags :: "Flag list" where
  "quarantine_flags = [MarkFlagRequired (flag ''file'' [])]"

definition quarantineCmd :: Command where
  "quarantineCmd = Command ''quarantine'' [] ''Encrypt and quarantine a target threat payload'' None quarantine_flags []"

definition responseCmd :: Command where
  "responseCmd = Command ''response'' [] ''Execute active containment responses'' None []
     [killCmd, isolateCmd, restoreCmd, quarantineCmd]"

definition forensicsCmd :: Command where
  "forensicsCmd = Command ''forensics'' [] ''Query chronological incident timeline reports'' None [flag ''minutes'' ''60''] []"

definition hunt_flag_list :: "Flag list" where
  "hunt_flag_list = [flag ''type'' ''process'', flag ''query'' [], flag ''risk'' ''0'', flag ''mitre'' [], flag ''ioc'' []]"

definition huntCmd :: Command where
  "huntCmd = Command ''hunt'' [] ''Search database for threats using queries, risk, MITRE tags, or IOCs'' None hunt_flag_list []"

definition investigateCmd :: Command where
  "investigateCmd = Command ''investigate [pid]'' [] ''Investigate file renames, connections, and alerts of a PID process tree''
     (Some 1) [] []"

definition timelineCmd :: Command where
  "timelineCmd = Command ''timeline'' [] ''Direct chronological timeline extraction query'' None [flag ''minutes'' ''60''] []"

definition traceCmd :: Command where
  "traceCmd = Command ''trace [pid]'' [] ''Trace execution parent lineage tree up to system root'' (Some 1) [] []"

definition benchmarkCmd :: Command where
  "benchmarkCmd = plain_command ''benchmark'' ''Measure EDR agent throughput, database performance, and detection latency''"

definition doctorCmd :: Command where
  "doctorCmd = plain_command ''doctor'' ''Run self-diagnostics checks on EDR components, database, YARA and policies''"

definition rootCmd :: Command where
  "rootCmd = Command ''aegis'' [] ''AEGIS Endpoint Detection and Response Client'' None []
     [statusCmd, versionCmd, healthCmd, configCmd, responseCmd, forensicsCmd, huntCmd, investigateCmd, timelineCmd, traceCmd,
      benchmarkCmd, doctorCmd]"

section \<open>Commands that print a report\<close>

definition status_command :: "go_error option \<Rightarrow> client result \<Rightarrow> cmd_output" where
  "status_command run_err conn =
     (case conn of
        Inl err \<Rightarrow> (4, ''Error: failed to connect to daemon socket: '' @ err @ [newline])
      | Inr cl \<Rightarrow>
          (case run_err of
             Some err \<Rightarrow> (1, ''Error: status dashboard execution failed: '' @ err @ [newline])
           | None \<Rightarrow> (0, [])))"

definition doctor_command :: "(go_time \<Rightarrow> string) \<Rightarrow> 'r surroundings \<Rightarrow> cmd_output" where
  "doctor_command fmt_time w =
     (let wait = ''Running EDR system self-diagnostics doctor... Please wait.'' @ [newline]
      in case doctor_Run w of
           Inl err \<Rightarrow> (1, wait @ ''Error: self-diagnostics suite failed: '' @ err @ [newline])
         | Inr report \<Rightarrow> (0, wait @ doctor_Print fmt_time report))"

definition main_exit :: "go_error option \<Rightarrow> cmd_output" where
  "main_exit execute_err = (case execute_err of Some err \<Rightarrow> (1, err @ [newline]) | None \<Rightarrow> (0, []))"

section \<open>What the tree offers\<close>

text \<open>The name of a command is the first word of its usage line.\<close>

definition command_name :: "Command \<Rightarrow> string" where
  "command_name c = takeWhile (\<lambda>x. x \<noteq> CHR '' '') (cm_Use c)"

definition names :: "Command \<Rightarrow> string list" where
  "names c = command_name c # cm_Aliases c"

fun lookup_path :: "string list \<Rightarrow> Command \<Rightarrow> Command option" where
  "lookup_path [] c = Some c"
| "lookup_path (w # ws) c = Option.bind (find (\<lambda>d. w \<in> set (names d)) (cm_Commands c)) (lookup_path ws)"

text \<open>The names of the commands are unambiguous, on both levels.\<close>

lemma names_distinct: "distinct (concat (map names (cm_Commands rootCmd)))" "distinct (concat (map names (cm_Commands responseCmd)))"
  by code_simp+

text \<open>Of the commands of \<open>docs/reference/CLI_REFERENCE.md\<close> these exist ...\<close>

lemma documented_commands:
  "list_all (\<lambda>path. lookup_path path rootCmd \<noteq> None)
     [[''status''], [''monitor''], [''response'', ''kill''], [''response'', ''isolate''], [''response'', ''quarantine''],
      [''forensics''], [''config'']]"
  by code_simp

text \<open>... and these do not, nor do the documented flags.\<close>

lemma missing_commands:
  "list_all (\<lambda>path. lookup_path path rootCmd = None)
     [[''scan''], [''rule''], [''rule'', ''list''], [''response'', ''suspend''], [''response'', ''rollback''],
      [''forensics'', ''timeline''], [''forensics'', ''collect''], [''config'', ''get''], [''config'', ''set'']]"
  "cm_Flags statusCmd = [] \<and> cm_Flags isolateCmd = [] \<and> map fl_Name (cm_Flags forensicsCmd) = [''minutes'']"
  by code_simp+

text \<open>With its default flags \<open>aegis hunt\<close> lists every stored process.\<close>

definition default_flag :: "string \<Rightarrow> string" where
  "default_flag name = (case find (\<lambda>f. fl_Name f = name) hunt_flag_list of Some f \<Rightarrow> fl_Default f | None \<Rightarrow> [])"

lemma default_hunt:
  "hunt_command None None \<lparr>hf_Type = default_flag ''type'', hf_Query = default_flag ''query'', hf_Risk = 0,
      hf_Mitre = default_flag ''mitre'', hf_Ioc = default_flag ''ioc''\<rparr> loaded dbs
   = (0, ''PROCESS HUNT RESULTS:'' @ [newline] @ concat (map bin_line (processes (dbs (cli_db_path loaded)))))"
proof -
  have "default_flag ''type'' = ''process''" "default_flag ''query'' = []" "default_flag ''mitre'' = []" "default_flag ''ioc'' = []"
    by code_simp+
  moreover have "sql_like (like_anywhere []) s" for s
    using like_anywhere_contains [of "[]" s] by (simp add: plain_text_def ToLower_def)
  ultimately show ?thesis by (simp add: hunt_command_def hunt_results_def print_rows_def)
qed

end
