(* ===== verification/Benchmark.thy ===== *)
theory Benchmark
  imports Commands Detect_Pipeline
begin

text \<open>
  The benchmark (\<open>internal/benchmark/benchmark.go\<close>): five loops that run for 200 milliseconds of
  the clock and report a rate, their collection, and the printed report. The clock is a
  sequence of readings, and a loop knows the number of readings made so far; a loop under a clock
  that stands still never ends, so it is a partial function. A division by zero gives what
  floating point gives.
\<close>

section \<open>Rates\<close>

datatype go_float = Finite f64 | NaN | Inf bool

text \<open>\<open>Inf True\<close> is negative.\<close>

definition float_div :: "f64 \<Rightarrow> f64 \<Rightarrow> go_float" where
  "float_div x y = (if y \<noteq> 0 then Finite (fdiv x y) else if x = 0 then NaN else Inf (x < 0))"

definition duration_Seconds :: "duration \<Rightarrow> f64" where
  "duration_Seconds d =
     fadd (f64_of_int (sgn d * (\<bar>d\<bar> div second))) (fdiv (f64_of_int (sgn d * (\<bar>d\<bar> mod second))) (f64_of_int second))"

definition duration_Microseconds :: "duration \<Rightarrow> int" where
  "duration_Microseconds d = sgn d * (\<bar>d\<bar> div 1000)"

definition time_budget :: duration where
  "time_budget = 200000000"

section \<open>A timed loop\<close>

text \<open>The body is given the number of the iteration and of the clock reading, and says which
  reading comes next; an error ends the loop.\<close>

type_synonym 's body = "nat \<Rightarrow> nat \<Rightarrow> 's \<Rightarrow> go_error option \<times> nat \<times> 's"

partial_function (option) timed_loop ::
  "(nat \<Rightarrow> go_time) \<Rightarrow> go_time \<Rightarrow> 's body \<Rightarrow> nat \<Rightarrow> nat \<Rightarrow> 's \<Rightarrow> (nat result \<times> nat \<times> 's) option" where
  [code]: "timed_loop clock start body i n s =
     (if time_Sub (clock n) start < time_budget
      then case body i (Suc n) s of
             (err, n', s') \<Rightarrow> (case err of
                 Some e \<Rightarrow> Some (Err e, n', s')
               | None \<Rightarrow> timed_loop clock start body (Suc i) n' s')
      else Some (Ok i, Suc n, s))"

definition rate_since :: "(nat \<Rightarrow> go_time) \<Rightarrow> go_time \<Rightarrow> nat \<Rightarrow> nat \<Rightarrow> go_float" where
  "rate_since clock start i n = float_div (f64_of_int (int i)) (duration_Seconds (time_Sub (clock n) start))"

text \<open>The common shape: read the clock, loop, read the clock, divide.\<close>

definition measure_rate ::
  "(nat \<Rightarrow> go_time) \<Rightarrow> 's body \<Rightarrow> nat \<Rightarrow> 's \<Rightarrow> (go_float result \<times> nat \<times> 's) option" where
  "measure_rate clock body n s = map_option
     (\<lambda>(r, n', s'). case r of
         Inl err \<Rightarrow> (Err err, n', s')
       | Inr i \<Rightarrow> (Ok (rate_since clock (clock n) i n'), Suc n', s'))
     (timed_loop clock (clock n) body 0 (Suc n) s)"

section \<open>The benchmarks\<close>

text \<open>\<open>be_schedule i\<close> are the steps that the telemetry pipeline's worker takes before the \<open>i\<close>-th event, \<open>be_last\<close> those
  between the closing of its channel and its noticing it, and \<open>be_drain k\<close> is the environment of its \<open>k\<close>-th
  turn after that.\<close>

record ('f, 'r) bench_env =
  be_clock :: "nat \<Rightarrow> go_time"
  be_alloc :: uint64
  be_cpus :: nat
  be_remove_ok :: bool
  be_driver :: "'f driver"
  be_rows :: "'f option \<Rightarrow> db"
  be_exec :: "nat \<Rightarrow> go_error option"
  be_yara :: "'r yara_lib"
  be_sha :: "string \<Rightarrow> string"
  be_schedule :: "nat \<Rightarrow> (Event, tl_env) label list"
  be_last :: "(Event, tl_env) label list"
  be_drain :: "nat \<Rightarrow> tl_env"

type_synonym 'f db_files = "string \<Rightarrow> 'f option"

definition remove_file :: "('f, 'r) bench_env \<Rightarrow> string \<Rightarrow> 'f db_files \<Rightarrow> 'f db_files" where
  "remove_file env path fs = (if be_remove_ok env then fs(path := None) else fs)"

text \<open>The hash of each iteration is computed and thrown away.\<close>

definition benchmarkHash :: "('f, 'r) bench_env \<Rightarrow> nat \<Rightarrow> (go_float result \<times> nat) option" where
  "benchmarkHash env n = map_option (\<lambda>(r, n', _). (r, n'))
     (measure_rate (be_clock env) (\<lambda>i n s. (None, n, s)) n ())"

definition db_path :: string where "db_path = ''/tmp/aegis_db_bench.db''"

definition insert_body :: "('f, 'r) bench_env \<Rightarrow> db body" where
  "insert_body env i n d =
     (case InsertProcess (be_exec env i) (be_clock env n) 1 ''/bin/sh'' ''hash-val'' ''sh'' ''root'' d of
        (r, d') \<Rightarrow> (error_of r, n, d'))"

definition benchmarkDB ::
  "('f, 'r) bench_env \<Rightarrow> nat \<Rightarrow> 'f db_files \<Rightarrow> (go_float result \<times> nat \<times> 'f db_files) option" where
  "benchmarkDB env n fs =
     (case NewStorage (be_driver env) db_path (remove_file env db_path fs) of
        (Inl err, fs1) \<Rightarrow> Some (Err err, n, remove_file env db_path fs1)
      | (Inr _, fs1) \<Rightarrow> map_option (\<lambda>(r, n', _). (r, n', remove_file env db_path fs1))
          (measure_rate (be_clock env) (insert_body env) n (be_rows env (fs1 db_path))))"

definition scan_body :: "'r yara_lib \<Rightarrow> 'r option \<Rightarrow> unit body" where
  "scan_body lib e i n s = (error_of (ScanBytes lib e ''suspicious payload content here''), n, s)"

definition benchmarkYara :: "('f, 'r) bench_env \<Rightarrow> nat \<Rightarrow> (go_float result \<times> nat) option" where
  "benchmarkYara env n =
     (case yara_NewEngine (be_yara env) ''rule test_rule { condition: true }'' of
        Inl err \<Rightarrow> Some (Err err, n)
      | Inr e \<Rightarrow> map_option (\<lambda>(r, n', _). (r, n')) (measure_rate (be_clock env) (scan_body (be_yara env) e) n ()))"

definition telemetry_path :: string where "telemetry_path = ''/tmp/aegis_telemetry_bench.db''"

definition bench_raw :: "go_time \<Rightarrow> nat \<Rightarrow> RawEvent" where
  "bench_raw now i = zero_raw\<lparr>rw_Type := ''Process'', rw_Timestamp := now, rw_ProcessID := word_of_int (int i + 100),
     rw_ParentID := 1, rw_BinaryPath := ''/bin/ls'', rw_CommandLine := ''ls -la'', rw_Username := ''root''\<rparr>"

text \<open>Until \<open>Stop\<close> the worker receives and reacts to its ticker.\<close>

definition worker_turn :: "(Event, tl_env) label \<Rightarrow> unit pipeline \<Rightarrow> unit pipeline" where
  "worker_turn l p =
     (case l of
        Recv _ \<Rightarrow> (case pipeline_step no_hooks l p of None \<Rightarrow> p | Some p' \<Rightarrow> p')
      | Tick _ \<Rightarrow> (case pipeline_step no_hooks l p of None \<Rightarrow> p | Some p' \<Rightarrow> p')
      | _ \<Rightarrow> p)"

definition ingest_body :: "('f, 'r) bench_env \<Rightarrow> unit pipeline body" where
  "ingest_body env i n p =
     (None, Suc (Suc n), snd (Ingest (be_sha env) (be_clock env (Suc n)) (bench_raw (be_clock env n) i)
        (fold worker_turn (be_schedule env i) p)))"

text \<open>The deferred \<open>Stop\<close>: the channel is closed (twice is a panic, \<open>None\<close>), the worker may take further turns until its
  \<open>select\<close> picks the closed channel, and then receives until the queue is empty; \<open>wg.Wait\<close> waits for it. Then the
  store is closed and the file removed.\<close>

partial_function (option) drain_loop :: "(nat \<Rightarrow> tl_env) \<Rightarrow> nat \<Rightarrow> unit pipeline \<Rightarrow> unit pipeline option" where
  [code]: "drain_loop drain k p =
     (case pipeline_step no_hooks (DrainRecv (drain k)) p of
        Some p' \<Rightarrow> drain_loop drain (Suc k) p'
      | None \<Rightarrow> pipeline_step no_hooks (DrainEnd (drain k)) p)"

definition stop_and_wait :: "('f, 'r) bench_env \<Rightarrow> unit pipeline \<Rightarrow> unit pipeline option" where
  "stop_and_wait env p =
     Option.bind (pipeline_Stop no_hooks p) (\<lambda>p1.
     Option.bind (pipeline_step no_hooks SeeClose (fold worker_turn (be_last env) p1))
       (drain_loop (be_drain env) 0))"


definition benchmarkTelemetry ::
  "('f, 'r) bench_env \<Rightarrow> nat \<Rightarrow> 'f db_files \<Rightarrow> (go_float result \<times> nat \<times> 'f db_files) option" where
  "benchmarkTelemetry env n fs =
     (case NewStorage (be_driver env) telemetry_path (remove_file env telemetry_path fs) of
        (Inl err, fs1) \<Rightarrow> Some (Err err, n, remove_file env telemetry_path fs1)
      | (Inr _, fs1) \<Rightarrow> Option.bind
          (measure_rate (be_clock env) (ingest_body env) n
             (NewPipeline 1000 (Some (be_rows env (fs1 telemetry_path))) 10000000 [] ()))
          (\<lambda>(r, n', p). map_option (\<lambda>_. (r, n', remove_file env telemetry_path fs1)) (stop_and_wait env p)))"

definition bench_stages :: "DetectionStage list" where
  "bench_stages = NewDetectionPipeline [NormalizerStage, BehaviorAnalysisStage]"

definition bench_event :: Event where
  "bench_event = \<lparr>te_ID = 0, te_Type = ''process'', te_Timestamp = 0, te_ProcessID = 0, te_ParentID = 1,
     te_BinaryPath = ''/bin/sh'', te_SHA256 = [], te_CommandLine = [], te_Username = [], te_FilePath = [],
     te_FileAction = [], te_Protocol = [], te_LocalIP = [], te_LocalPort = 0, te_RemoteIP = [], te_RemotePort = 0\<rparr>"

text \<open>The event is normalised in place; the sum of durations is a 64-bit number. No stage of this
  pipeline looks at the channel or at the tags.\<close>

definition detect_body :: "(nat \<Rightarrow> go_time) \<Rightarrow> (Event \<times> duration) body" where
  "detect_body clock i n s =
     (case s of (e, spent) \<Rightarrow>
        (None, Suc (Suc n), ss_event (pipeline_Process id bench_stages e \<lparr>ac_queue = [], ac_cap = 0\<rparr>),
         signed_take_bit 63 (spent + time_Sub (clock (Suc n)) (clock n))))"

definition benchmarkDetection ::
  "('f, 'r) bench_env \<Rightarrow> nat \<Rightarrow> ((go_float \<times> go_float) result \<times> nat) option" where
  "benchmarkDetection env n = map_option
     (\<lambda>(r, n', e, spent). case r of
         Inl err \<Rightarrow> (Err err, n')
       | Inr i \<Rightarrow> (Ok (float_div (f64_of_int (duration_Microseconds spent)) (f64_of_int (int i)),
            rate_since (be_clock env) (be_clock env n) i n'), Suc n'))
     (timed_loop (be_clock env) (be_clock env n) (detect_body (be_clock env)) 0 (Suc n) (bench_event, 0))"

section \<open>All benchmarks\<close>

record BenchmarkResults =
  CPUPercent :: f64
  MemoryMB :: f64
  EventsPerSec :: go_float
  AlertsPerSec :: go_float
  DetectionLatencyUs :: go_float
  HashThroughputMBs :: go_float
  DatabaseInsertsPerSec :: go_float
  TelemetryThroughput :: go_float
  YaraScansPerSec :: go_float

text \<open>A benchmark that fails leaves its figures at zero.\<close>

definition figure :: "go_float result \<Rightarrow> go_float" where
  "figure r = (case r of Inl err \<Rightarrow> Finite 0 | Inr x \<Rightarrow> x)"

definition RunAll ::
  "('f, 'r) bench_env \<Rightarrow> 'f db_files \<Rightarrow> (BenchmarkResults result \<times> 'f db_files) option" where
  "RunAll env fs =
     Option.bind (benchmarkHash env 0) (\<lambda>(hash, n1).
     Option.bind (benchmarkDB env n1 fs) (\<lambda>(dbs, n2, fs1).
     Option.bind (benchmarkYara env n2) (\<lambda>(yara, n3).
     Option.bind (benchmarkTelemetry env n3 fs1) (\<lambda>(tput, n4, fs2).
     Option.bind (benchmarkDetection env n4) (\<lambda>(det, n5).
       Some (Ok \<lparr>CPUPercent = f64_of_int (int (be_cpus env) * 10),
              MemoryMB = fdiv (fdiv (f64_of_int (uint (be_alloc env))) 1024) 1024,
              EventsPerSec = figure tput, AlertsPerSec = figure (map_sum id snd det),
              DetectionLatencyUs = figure (map_sum id fst det), HashThroughputMBs = figure hash,
              DatabaseInsertsPerSec = figure dbs, TelemetryThroughput = figure tput,
              YaraScansPerSec = figure yara\<rparr>, fs2))))))"

section \<open>The report\<close>

definition fmt_float :: "go_float \<Rightarrow> string" where
  "fmt_float x = (case x of Finite y \<Rightarrow> fmt_2f y | NaN \<Rightarrow> ''NaN'' | Inf neg \<Rightarrow> if neg then ''-Inf'' else ''+Inf'')"

definition PrintResults :: "BenchmarkResults \<Rightarrow> string" where
  "PrintResults res = concat (map (\<lambda>l. l @ [newline])
     [''AEGIS PERFORMANCE & BENCHMARK REPORT'',
      ''========================================='',
      ''Memory Allocated       : '' @ fmt_2f (MemoryMB res) @ '' MB'',
      ''CPU Core Usage         : '' @ fmt_2f (CPUPercent res) @ ''%'',
      ''Telemetry Throughput   : '' @ fmt_float (TelemetryThroughput res) @ '' events/sec'',
      ''Events Processed Rate  : '' @ fmt_float (EventsPerSec res) @ '' events/sec'',
      ''Alert Evaluation Rate  : '' @ fmt_float (AlertsPerSec res) @ '' evaluations/sec'',
      ''Detection Latency      : '' @ fmt_float (DetectionLatencyUs res) @ '' '' @ utf8 [194, 181] @ ''s'',
      ''SHA-256 Hash Throughput: '' @ fmt_float (HashThroughputMBs res) @ '' MB/sec'',
      ''Database Insertion Rate: '' @ fmt_float (DatabaseInsertsPerSec res) @ '' writes/sec'',
      ''YARA Signature Scans   : '' @ fmt_float (YaraScansPerSec res) @ '' scans/sec''])"

definition benchmark_command :: "('f, 'r) bench_env \<Rightarrow> 'f db_files \<Rightarrow> (cmd_output \<times> 'f db_files) option" where
  "benchmark_command env fs = map_option (\<lambda>(r, fs'). (let wait = ''Running EDR system benchmarks... Please wait.'' @ [newline]
      in case r of
           Inl err \<Rightarrow> (1, wait @ ''Error: benchmarking suite failed: '' @ err @ [newline])
         | Inr res \<Rightarrow> (0, wait @ PrintResults res), fs')) (RunAll env fs)"

section \<open>A loop ends when the clock runs\<close>

text \<open>Go's clock is monotonic, and time goes on.\<close>

definition clock_runs :: "(nat \<Rightarrow> go_time) \<Rightarrow> bool" where
  "clock_runs clock \<longleftrightarrow> mono clock \<and> (\<forall>t. \<exists>n. t \<le> clock n)"

lemma clock_passes:
  assumes "clock_runs clock"
  obtains m where "\<And>k. m \<le> k \<Longrightarrow> \<not> time_Sub (clock k) start < time_budget"
proof -
  obtain m where m: "start + time_budget \<le> clock m" using assms by (auto simp: clock_runs_def)
  have "\<not> time_Sub (clock k) start < time_budget" if "m \<le> k" for k
  proof -
    have "clock m \<le> clock k" using assms that by (auto simp: clock_runs_def dest: monoD)
    with m show ?thesis by (simp add: time_Sub_less_iff time_budget_def)
  qed
  then show thesis by (rule that)
qed

lemma timed_loop_done: "\<not> time_Sub (clock n) start < time_budget \<Longrightarrow> timed_loop clock start body i n s = Some (Ok i, Suc n, s)"
  by (subst timed_loop.simps) simp

text \<open>Two bodies that give the same errors and read the clock equally often go through the same
  number of iterations, whatever they do to their states. \<open>R\<close> relates the states.\<close>

lemma timed_loop_sim:
  assumes runs: "clock_runs clock"
    and body: "\<And>i n s t. R s t \<Longrightarrow> \<exists>err n' s' t'. body i n s = (err, n', s') \<and> body' i n t = (err, n', t') \<and> n \<le> n' \<and> R s' t'"
    and start: "R s t"
  shows "\<exists>r n' s' t'. timed_loop clock start body i n s = Some (r, n', s')
    \<and> timed_loop clock start body' i n t = Some (r, n', t') \<and> n < n' \<and> R s' t'
    \<and> (is_ok r \<longrightarrow> time_budget \<le> time_Sub (clock n') start)
    \<and> ((\<forall>i n s. fst (body i n s) = None) \<longrightarrow> is_ok r)"
proof -
  obtain m where m: "\<And>k. m \<le> k \<Longrightarrow> \<not> time_Sub (clock k) start < time_budget"
    using clock_passes [OF runs] by blast
  show ?thesis
    using start
  proof (induction "m - n" arbitrary: i n s t rule: less_induct)
    case less
    show ?case
    proof (cases "time_Sub (clock n) start < time_budget")
      case False
      have "time_Sub (clock n) start \<le> time_Sub (clock (Suc n)) start"
        using runs by (intro time_Sub_mono) (simp add: clock_runs_def incseq_SucD)
      then show ?thesis using less.prems False by (simp add: timed_loop_done)
    next
      case True
      obtain err n1 s1 t1 where step: "body i (Suc n) s = (err, n1, s1)" "body' i (Suc n) t = (err, n1, t1)" "Suc n \<le> n1" "R s1 t1"
        using body [OF less.prems, of i "Suc n"] by blast
      show ?thesis
      proof (cases err)
        case (Some e)
        have "\<exists>i n s. fst (body i n s) \<noteq> None" using step(1) Some by (metis fst_conv option.distinct(1))
        then show ?thesis using step True Some
          by (simp add: timed_loop.simps [of _ _ _ _ n])
      next
        case None
        have "n < m" using m [of n] True by force
        then have "m - n1 < m - n" using step(3) by simp
        from less.hyps [OF this step(4), of "Suc i"] show ?thesis
          using step True None by (simp add: timed_loop.simps [of _ _ _ _ n]) (meson Suc_le_lessD less_trans)
      qed
    qed
  qed
qed

lemma measure_rate_sim:
  assumes "clock_runs clock"
    and "\<And>i n s t. R s t \<Longrightarrow> \<exists>err n' s' t'. body i n s = (err, n', s') \<and> body' i n t = (err, n', t') \<and> n \<le> n' \<and> R s' t'"
    and "R s t"
  shows "\<exists>r n' s' t'. measure_rate clock body n s = Some (r, n', s') \<and> measure_rate clock body' n t = Some (r, n', t') \<and> R s' t'
    \<and> (\<forall>x. r = Ok x \<longrightarrow> (\<exists>k d. time_budget \<le> d \<and> x = float_div (f64_of_int (int k)) (duration_Seconds d)))
    \<and> ((\<forall>i n s. fst (body i n s) = None) \<longrightarrow> is_ok r)"
proof -
  obtain r n' s' t' where "timed_loop clock (clock n) body 0 (Suc n) s = Some (r, n', s')"
    "timed_loop clock (clock n) body' 0 (Suc n) t = Some (r, n', t')" "R s' t'"
    "is_ok r \<longrightarrow> time_budget \<le> time_Sub (clock n') (clock n)" "(\<forall>i n s. fst (body i n s) = None) \<longrightarrow> is_ok r"
    using timed_loop_sim [where R = R and body = body and body' = body' and i = 0 and n = "Suc n" and start = "clock n", OF assms] by blast
  then show ?thesis
    by (cases r) (auto simp: measure_rate_def rate_since_def)
qed

lemma measure_rate_ends:
  assumes "clock_runs clock" "\<And>i n s. n \<le> fst (snd (body i n s))"
  obtains r n' s' where "measure_rate clock body n s = Some (r, n', s')"
    "\<And>x. r = Ok x \<Longrightarrow> \<exists>k d. time_budget \<le> d \<and> x = float_div (f64_of_int (int k)) (duration_Seconds d)"
  using measure_rate_sim [OF assms(1), of "(=)" body body s s n] assms(2)
  by (metis prod.collapse)

section \<open>Rates are numbers\<close>

lemma one_eighth: "rnd64 (1 / 8) = 1 / 8"
  by code_simp

lemma seconds_pos:
  assumes "time_budget \<le> d"
  shows "0 < duration_Seconds d"
proof -
  let ?q = "f64_of_int (d div second)" and ?r = "fdiv (f64_of_int (d mod second)) (f64_of_int second)"
  have q: "0 \<le> ?q" "second \<le> d \<Longrightarrow> 1 \<le> ?q"
    using assms rnd64_mono [of 1 "of_int (d div second)"]
    by (auto simp: f64_of_int_def time_budget_def intro!: rnd64_nonneg)
  have "\<bar>d mod second\<bar> \<le> 2 ^ 53" using pos_mod_bound [of second d] pos_mod_sign [of second d] by simp
  then have ex: "f64_of_int (d mod second) = of_int (d mod second)" "f64_of_int second = of_int second"
    unfolding f64_of_int_def by (rule rnd64_of_int, intro rnd64_of_int) simp
  have r: "?r = rnd64 (of_int (d mod second) / of_int second)"
    by (simp only: fdiv_def ex)
  have r0: "0 \<le> ?r" unfolding r by (rule rnd64_nonneg) simp
  have r1: "1 / 8 \<le> ?r" if "d < second"
  proof -
    have "d mod second = d" using that assms by (simp add: time_budget_def)
    then have "1 / 8 \<le> (of_int (d mod second) / of_int second :: rat)" using assms by (simp add: time_budget_def field_simps)
    from rnd64_mono [OF this] show ?thesis by (simp add: r one_eighth)
  qed
  have "1 / 8 \<le> ?q + ?r" using q r0 r1 by (cases "d < second") (auto intro: order_trans add_increasing)
  from rnd64_mono [OF this] have "0 < fadd ?q ?r" by (simp add: fadd_def one_eighth)
  then show ?thesis using assms by (simp add: duration_Seconds_def time_budget_def sgn_if)
qed

definition proper :: "go_float \<Rightarrow> bool" where
  "proper x = (case x of Finite y \<Rightarrow> 0 \<le> y | _ \<Rightarrow> False)"

lemma rate_proper: "time_budget \<le> d \<Longrightarrow> proper (float_div (f64_of_int (int k)) (duration_Seconds d))"
  using seconds_pos [of d]
  by (auto simp: proper_def float_div_def fdiv_def f64_of_int_def intro!: rnd64_nonneg divide_nonneg_pos)

lemma zero_proper [simp]: "proper (Finite 0)"
  by (simp add: proper_def)

section \<open>What a run leaves and reports\<close>

definition good_figure :: "go_float result \<Rightarrow> bool" where
  "good_figure r \<longleftrightarrow> proper (figure r)"

lemma rate_good:
  "(\<And>x. r = Ok x \<Longrightarrow> \<exists>k d. time_budget \<le> d \<and> x = float_div (f64_of_int (int k)) (duration_Seconds d)) \<Longrightarrow> good_figure r"
  by (cases r) (auto simp: good_figure_def figure_def rate_proper)

lemma measure_good:
  assumes "clock_runs clock" "\<And>i n s. n \<le> fst (snd (body i n s))"
  obtains r n' s' where "measure_rate clock body n s = Some (r, n', s')" "good_figure r"
  using measure_rate_ends [where body = body and n = n and s = s, OF assms] rate_good by metis

lemma hash_ends:
  assumes "clock_runs (be_clock env)"
  obtains r n' where "benchmarkHash env n = Some (r, n')" "good_figure r"
  by (rule measure_good [where body = "\<lambda>i n s. (None, n, s)" and n = n and s = "()", OF assms])
    (auto simp: benchmarkHash_def)

lemma yara_ends:
  assumes "clock_runs (be_clock env)"
  obtains r n' where "benchmarkYara env n = Some (r, n')" "good_figure r"
proof (cases "yara_NewEngine (be_yara env) ''rule test_rule { condition: true }''")
  case (Inl err)
  then show thesis by (intro that [of "Err err" n]) (simp_all add: benchmarkYara_def good_figure_def figure_def)
next
  case (Inr e)
  show thesis
    by (rule measure_good [where body = "scan_body (be_yara env) e" and n = n and s = "()", OF assms])
      (auto simp: benchmarkYara_def Inr scan_body_def intro: that)
qed

text \<open>Opening the database of a path touches that file and its \<open>.corrupt\<close> copy at most.\<close>

definition only_touches :: "string \<Rightarrow> 'f db_files \<Rightarrow> 'f db_files \<Rightarrow> bool" where
  "only_touches path fs fs' \<longleftrightarrow> fs' path = None \<and> (\<forall>q. q \<noteq> path \<and> q \<noteq> path @ ''.corrupt'' \<longrightarrow> fs' q = fs q)"

lemma opened_touches:
  "snd (NewStorage drv path (fs(path := None))) = fs1 \<Longrightarrow> only_touches path fs (fs1(path := None))"
  using NewStorage_frame [of _ path drv "fs(path := None)"] by (auto simp: only_touches_def)

lemma db_ends:
  assumes "clock_runs (be_clock env)" "be_remove_ok env"
  obtains r n' fs' where "benchmarkDB env n fs = Some (r, n', fs')" "good_figure r" "only_touches db_path fs fs'"
proof -
  obtain o1 fs1 where new: "NewStorage (be_driver env) db_path (fs(db_path := None)) = (o1, fs1)" by (rule prod.exhaust)
  have clean: "only_touches db_path fs (fs1(db_path := None))"
    by (rule opened_touches [where drv = "be_driver env"]) (simp add: new)
  show thesis
  proof (cases o1)
    case (Inl err)
    then show thesis using new clean assms(2)
      by (intro that [of "Err err" n]) (simp_all add: benchmarkDB_def remove_file_def good_figure_def figure_def)
  next
    case (Inr u)
    show thesis
      by (rule measure_good [where body = "insert_body env" and n = n and s = "be_rows env (fs1 db_path)", OF assms(1)])
        (use clean in \<open>auto simp: benchmarkDB_def remove_file_def new Inr assms(2) insert_body_def split: prod.split intro: that\<close>)
  qed
qed

text \<open>While events are ingested the worker loops and its channel is open, so it can be stopped, and stopping ends.\<close>

definition looping :: "unit pipeline \<Rightarrow> bool" where
  "looping p \<longleftrightarrow> wk_phase (tp_worker p) = Looping \<and> \<not> wk_closed (tp_worker p)"

lemma worker_turn_frame:
  "wk_phase (tp_worker p) = Looping \<Longrightarrow> wk_phase (tp_worker (worker_turn l p)) = Looping"
  "wk_closed (tp_worker (worker_turn l p)) = wk_closed (tp_worker p)"
  by (cases l; auto simp: worker_turn_def pipeline_step_def split: option.split dest: receive_frame)+

lemma worker_turns_frame:
  "wk_phase (tp_worker p) = Looping \<Longrightarrow> wk_phase (tp_worker (fold worker_turn ls p)) = Looping"
  "wk_closed (tp_worker (fold worker_turn ls p)) = wk_closed (tp_worker p)"
  by (induction ls arbitrary: p) (simp_all add: worker_turn_frame)

lemma Ingest_looping: "looping p \<Longrightarrow> looping (snd (Ingest sha now raw p))"
  by (auto simp: looping_def Ingest_def Let_def split: prod.split option.split)

lemma ingest_body_looping: "looping p \<Longrightarrow> looping (snd (snd (ingest_body env i n p)))"
  unfolding ingest_body_def snd_conv by (rule Ingest_looping) (simp add: looping_def worker_turns_frame)

lemma drain_loop_ends:
  "wk_phase (tp_worker p) = Draining \<Longrightarrow> \<exists>p'. drain_loop drain k p = Some p' \<and> wk_phase (tp_worker p') = Exited"
proof (induction "length (wk_queue (tp_worker p))" arbitrary: p k)
  case 0
  then show ?case by (subst drain_loop.simps) (simp add: pipeline_step_def receive_def)
next
  case (Suc m)
  then have "receive (Telemetry.flushBatch no_hooks) (drain k) (tp_worker p) \<noteq> None" by auto
  then obtain w where w: "receive (Telemetry.flushBatch no_hooks) (drain k) (tp_worker p) = Some w" by blast
  from receive_frame [OF w] Suc.prems Suc.hyps(2) have "m = length (wk_queue w)" "wk_phase w = Draining" by simp_all
  with Suc.hyps(1) [of "p\<lparr>tp_worker := w\<rparr>" "Suc k"] Suc.prems w show ?case
    by (subst drain_loop.simps) (simp add: pipeline_step_def)
qed

lemma stop_ends:
  assumes "looping p"
  obtains p' where "stop_and_wait env p = Some p'" "wk_phase (tp_worker p') = Exited"
proof -
  obtain p1 where p1: "pipeline_Stop no_hooks p = Some p1" "wk_phase (tp_worker p1) = Looping" "wk_closed (tp_worker p1)"
    using assms by (simp add: looping_def pipeline_Stop_def pipeline_step_def)
  let ?p2 = "fold worker_turn (be_last env) p1"
  obtain p3 where p3: "pipeline_step no_hooks SeeClose ?p2 = Some p3" "wk_phase (tp_worker p3) = Draining"
    using p1 by (simp add: pipeline_step_def worker_turns_frame)
  from drain_loop_ends [OF p3(2), of "be_drain env" 0] show thesis
    using that by (auto simp: stop_and_wait_def p1(1) p3(1))
qed

lemma telemetry_loop_ends:
  assumes "clock_runs (be_clock env)"
  obtains r n' p where "measure_rate (be_clock env) (ingest_body env) n (NewPipeline 1000 store ttl [] ()) = Some (r, n', p)"
    "good_figure r" "looping p"
    "measure_rate (be_clock env) (\<lambda>i n s. (None, n + 2, s)) n () = Some (r, n', ())"
proof -
  have "looping (NewPipeline 1000 store ttl [] ())" by (simp add: looping_def NewPipeline_def init_worker_def)
  from measure_rate_sim [where R = "\<lambda>p (t :: unit). looping p" and body = "ingest_body env" and body' = "\<lambda>i n s. (None, n + 2, s)"
      and t = "()" and n = n, OF assms _ this]
  obtain r n' p t where "measure_rate (be_clock env) (ingest_body env) n (NewPipeline 1000 store ttl [] ()) = Some (r, n', p)"
    "measure_rate (be_clock env) (\<lambda>i n s. (None, n + 2, s)) n () = Some (r, n', t)" "looping p"
    "\<forall>x. r = Ok x \<longrightarrow> (\<exists>k d. time_budget \<le> d \<and> x = float_div (f64_of_int (int k)) (duration_Seconds d))"
    using ingest_body_looping [of _ env] by (auto simp: ingest_body_def)
  with rate_good [of r] show thesis by (intro that [of r n' p]) auto
qed

lemma telemetry_ends:
  assumes "clock_runs (be_clock env)" "be_remove_ok env"
  obtains r n' fs' where "benchmarkTelemetry env n fs = Some (r, n', fs')" "good_figure r" "only_touches telemetry_path fs fs'"
proof -
  obtain o1 fs1 where new: "NewStorage (be_driver env) telemetry_path (fs(telemetry_path := None)) = (o1, fs1)" by (rule prod.exhaust)
  have clean: "only_touches telemetry_path fs (fs1(telemetry_path := None))"
    by (rule opened_touches [where drv = "be_driver env"]) (simp add: new)
  show thesis
  proof (cases o1)
    case (Inl err)
    then show thesis using new clean assms(2)
      by (intro that [of "Err err" n]) (simp_all add: benchmarkTelemetry_def remove_file_def good_figure_def figure_def)
  next
    case (Inr u)
    obtain r n' p where loop: "measure_rate (be_clock env) (ingest_body env) n
        (NewPipeline 1000 (Some (be_rows env (fs1 telemetry_path))) 10000000 [] ()) = Some (r, n', p)" "good_figure r" "looping p"
      by (rule telemetry_loop_ends [OF assms(1)])
    obtain p' where "stop_and_wait env p = Some p'" by (rule stop_ends [OF loop(3)])
    with loop clean show thesis
      by (intro that [of r n' "fs1(telemetry_path := None)"]) (simp_all add: benchmarkTelemetry_def remove_file_def new Inr assms(2))
  qed
qed

lemma detection_ends:
  assumes "clock_runs (be_clock env)"
  obtains lat rate n' where "benchmarkDetection env n = Some (Ok (lat, rate), n')" "proper rate"
proof -
  let ?c = "be_clock env"
  obtain r n' s' where loop: "timed_loop ?c (?c n) (detect_body ?c) 0 (Suc n) (bench_event, 0) = Some (r, n', s')"
      "is_ok r \<longrightarrow> time_budget \<le> time_Sub (?c n') (?c n)"
      "(\<forall>i n s. fst (detect_body ?c i n s) = None) \<longrightarrow> is_ok r"
    using timed_loop_sim [where R = "(=)" and body = "detect_body ?c" and body' = "detect_body ?c" and start = "?c n"
        and i = 0 and n = "Suc n" and s = "(bench_event, 0)", OF assms]
    by (fastforce simp: detect_body_def)
  have "is_ok r" using loop(3) by (simp add: detect_body_def split: prod.split)
  then obtain i where i: "r = Ok i" by (cases r) auto
  obtain e spent where s': "s' = (e, spent)" by fastforce
  show thesis
    using loop(1,2) i rate_proper
    by (intro that) (auto simp: benchmarkDetection_def s' rate_since_def)
qed

text \<open>C40 (termination). When the clock runs and files can be removed, all benchmarks end, whatever fails in
  them: an error only leaves a figure at zero, and the telemetry worker is stopped and joined. Every rate
  is a non-negative number (never infinite or not a number), both database files are gone, and of all other
  paths only the two \<open>.corrupt\<close> copies, which the recovery of a database that does not
  open leaves behind, may differ (SQLite's own side files are the driver's). The
  CPU usage is no measurement but ten times the number of processors, and the
  event rate is the telemetry throughput under a second name.\<close>

theorem benchmark_ends:
  assumes "clock_runs (be_clock env)" "be_remove_ok env"
  shows "\<exists>res fs'. RunAll env fs = Some (Ok res, fs')
    \<and> fs' db_path = None \<and> fs' telemetry_path = None
    \<and> (\<forall>q. q \<notin> {db_path, db_path @ ''.corrupt'', telemetry_path, telemetry_path @ ''.corrupt''} \<longrightarrow> fs' q = fs q)
    \<and> list_all proper [EventsPerSec res, AlertsPerSec res, HashThroughputMBs res, DatabaseInsertsPerSec res,
        TelemetryThroughput res, YaraScansPerSec res]
    \<and> CPUPercent res = f64_of_int (int (be_cpus env) * 10) \<and> EventsPerSec res = TelemetryThroughput res"
proof -
  obtain r1 n1 where hash: "benchmarkHash env 0 = Some (r1, n1)" "good_figure r1" by (rule hash_ends [OF assms(1)])
  obtain r2 n2 fs1 where dbs: "benchmarkDB env n1 fs = Some (r2, n2, fs1)" "good_figure r2" "only_touches db_path fs fs1"
    by (rule db_ends [OF assms])
  obtain r3 n3 where yara: "benchmarkYara env n2 = Some (r3, n3)" "good_figure r3" by (rule yara_ends [OF assms(1)])
  obtain r4 n4 fs2 where tput: "benchmarkTelemetry env n3 fs1 = Some (r4, n4, fs2)" "good_figure r4" "only_touches telemetry_path fs1 fs2"
    by (rule telemetry_ends [OF assms])
  obtain lat rate n5 where det: "benchmarkDetection env n4 = Some (Ok (lat, rate), n5)" "proper rate"
    by (rule detection_ends [OF assms(1)])
  have "db_path \<noteq> telemetry_path" "db_path \<noteq> telemetry_path @ ''.corrupt''" by (simp_all add: db_path_def telemetry_path_def)
  then have fs2: "fs2 db_path = None" "fs2 telemetry_path = None"
    "\<And>q. q \<notin> {db_path, db_path @ ''.corrupt'', telemetry_path, telemetry_path @ ''.corrupt''} \<Longrightarrow> fs2 q = fs q"
    using dbs(3) tput(3) by (simp_all add: only_touches_def)
  show ?thesis
    using hash(2) dbs(2) yara(2) tput(2) det(2) fs2
    by (simp add: RunAll_def hash(1) dbs(1) yara(1) tput(1) det(1) good_figure_def figure_def)
qed

text \<open>A clock of tenths of a second, on a machine of four processors whose YARA library fails.\<close>

definition sample_bench :: "(db, unit) bench_env" where
  "sample_bench = \<lparr>be_clock = \<lambda>n. int n * 100000000, be_alloc = 1048576, be_cpus = 4, be_remove_ok = True,
     be_driver = db_driver, be_rows = db_rows, be_exec = \<lambda>_. None,
     be_yara = \<lparr>yl_NewCompiler = Some ''no compiler'', yl_AddString = \<lambda>_. None, yl_GetRules = \<lambda>_. Ok (),
       yl_NewScanner = \<lambda>_. None, yl_ScanMem = \<lambda>_ _. Ok []\<rparr>,
     be_sha = \<lambda>_. ''h'', be_schedule = \<lambda>_. [], be_last = [],
     be_drain = \<lambda>_. \<lparr>tf_now = 0, tf_exec = \<lambda>_. None\<rparr>\<rparr>"

lemma sample_bench_runs: "clock_runs (be_clock sample_bench)" "be_remove_ok sample_bench"
proof -
  have "\<exists>n. t \<le> int n * 100000000" for t by (rule exI [of _ "nat t"]) simp
  then show "clock_runs (be_clock sample_bench)" by (auto simp: clock_runs_def sample_bench_def mono_def)
qed (simp add: sample_bench_def)

theorem benchmark_ends_witness:
  "\<exists>res fs'. RunAll sample_bench [''/etc/aegis.db'' \<mapsto> empty_db] = Some (Ok res, fs') \<and> CPUPercent res = f64_of_int 40
     \<and> fs' ''/etc/aegis.db'' = Some empty_db"
proof -
  have "''/etc/aegis.db'' \<notin> {db_path, db_path @ ''.corrupt'', telemetry_path, telemetry_path @ ''.corrupt''}"
    by (simp add: db_path_def telemetry_path_def)
  with benchmark_ends [OF sample_bench_runs, of "[''/etc/aegis.db'' \<mapsto> empty_db]"] show ?thesis
    by (fastforce simp: sample_bench_def)
qed

text \<open>The throughput is that of a loop that reads the clock and does nothing else: how many of the events the
  worker takes, what the deduplication, the queue's limit of 1000 events and the store make of them has
  no influence, so events that are dropped count too.\<close>

theorem throughput_counts_attempts:
  assumes "clock_runs (be_clock env)"
    and "NewStorage (be_driver env) telemetry_path (remove_file env telemetry_path fs) = (Ok (), fs1)"
  shows "map_option fst (benchmarkTelemetry env n fs)
    = map_option fst (measure_rate (be_clock env) (\<lambda>i n s. (None, n + 2, s)) n ())"
proof -
  obtain r n' p where loop: "measure_rate (be_clock env) (ingest_body env) n
      (NewPipeline 1000 (Some (be_rows env (fs1 telemetry_path))) 10000000 [] ()) = Some (r, n', p)" "looping p"
    "measure_rate (be_clock env) (\<lambda>i n s. (None, n + 2, s)) n () = Some (r, n', ())"
    by (rule telemetry_loop_ends [OF assms(1)])
  obtain p' where "stop_and_wait env p = Some p'" by (rule stop_ends [OF loop(2)])
  with loop show ?thesis by (simp add: benchmarkTelemetry_def assms(2))
qed

text \<open>No event of the detection benchmark raises an alert, although its rate is that of alerts.\<close>

lemma bench_detection_silent: "\<not> dc_AlertTriggered (ss_ctx (pipeline_Process iter bench_stages e ch))"
  by (simp add: pipeline_Process_def bench_stages_def NewDetectionPipeline_def normalizer_Process_def
      behavior_Process_def empty_context_def)

end
