(* ===== verification/Spec2Isabelle.thy ===== *)
theory Spec2Isabelle
  imports Storage Event_Router Telemetry Detect_Pipeline Correlation Nextgen Response Policy_Engine Intel
    Forensics Api_Server Core_Services Plugin_Manager Detectors Daemon Cli
    Doctor Report Purple Dashboard Certsync Event_Flow Monitors Commands Benchmark
begin

text \<open>
  A verification development for the Aegis endpoint detection and response agent, a Go program. This
  theory imports all others; it has the properties that span the whole program.

  The program. The daemon (\<open>cmd/aegisd\<close>) opens the telemetry store, serves a control service on
  a socket and prunes the store every day. The client (\<open>cmd/aegis\<close>) reads the same configuration and
  token, sends containment and timeline requests to the daemon, and reads the database itself for
  hunting and tracing. The libraries under \<open>internal\<close> collect events (router, telemetry pipeline),
  judge them (detection pipeline, scoring, two correlation engines, Sigma, YARA, heuristics, threat
  intelligence), respond (process kill, isolation, quarantine, policy engine) and report (forensics,
  reports, diagnosis, purple team simulation); \<open>internal/core\<close> and \<open>pkg/sdk/plugin\<close> hold services and plugins.

  Theories, in the order of the imports, with the code each models:

  \<^item> \<open>Go_Prelude\<close>: what the code uses of Go and its standard library: fixed-width integers as words,
    a fallible call as \<open>go_error + 'a\<close>, instants and durations in nanoseconds (\<open>Time.Sub\<close> saturates),
    \<open>strings\<close>, decimal numbers, \<open>sort.Slice\<close> as the locale \<open>slice_sort\<close>. Facts are collected in
    \<open>go_simps\<close> and \<open>invs\<close>.
  \<^item> \<open>Float64\<close>: binary64 arithmetic as exact rational arithmetic followed by rounding, with the locale
    \<open>rounding\<close> for what the scores need of it (monotone, exact on 0 and 1).
  \<^item> \<open>Sql_Time\<close>: times in SQL statements. Columns hold UTC texts, a bound \<open>time.Time\<close> is the text of its local
    wall clock, and SQLite compares texts; \<open>sql_before_iff\<close> and \<open>sql_between_iff\<close> say what that means for
    the seconds, for dates in the years 1 to 9999.
  \<^item> \<open>Storage\<close> (\<open>internal/storage\<close>): the tables, one function per SQL statement, migrations, opening with
    the recovery of a damaged file. \<open>db_ok\<close> is the schema invariant, \<open>store_run\<close> any sequence of operations.
    A query may be refused or cut short (the code does not look at \<open>rows.Err\<close>).
  \<^item> \<open>Batch_Worker\<close>: the goroutine that \<open>Router.Start\<close> and \<open>Pipeline.Start\<close> share, as labelled steps
    (send, receive, tick, close, drain, cancel); the locale \<open>batch_sink\<close> has its laws (nothing lost,
    order kept) for whatever a batch is flushed into.
  \<^item> \<open>Event_Router\<close> (\<open>internal/eventrouter\<close>): pooled events on a heap of addresses, triage, flushing in one
    transaction. Ownership of an event is an invariant over all interleavings.
  \<^item> \<open>Telemetry\<close> (\<open>internal/telemetry\<close>): normalisation, deduplication, filter, metrics, persistence, replay;
    the bounded cache refines an unbounded memory.
  \<^item> \<open>Scoring\<close>, \<open>Detect_Pipeline\<close> (\<open>internal/scoring\<close>, \<open>internal/detect/pipeline\<close>): the compound score and the ten
    stages; the locale \<open>detection_stage\<close> states what every stage keeps, and a fold over any list
    of stages inherits it.
  \<^item> \<open>Correlation\<close>, \<open>Nextgen\<close> (\<open>internal/correlation\<close>): process trees and graphs on explicit heaps.
  \<^item> \<open>Response\<close>, \<open>Policy_Engine\<close> (\<open>internal/response\<close>, \<open>internal/policy\<close>, \<open>internal/config\<close>): killing, isolating,
    quarantining on a host given by its operating system; policies with inheritance and automatic mitigation.
  \<^item> \<open>Intel\<close>, \<open>Detectors\<close> (\<open>internal/intel\<close>, \<open>internal/sigma\<close>, \<open>internal/heuristics\<close>, \<open>internal/yara\<close>).
  \<^item> \<open>Forensics\<close>, \<open>Report\<close>, \<open>Doctor\<close>, \<open>Purple\<close> (the packages of those names under \<open>internal\<close>).
  \<^item> \<open>Core_Services\<close>, \<open>Plugin_Manager\<close> (\<open>internal/core\<close>, \<open>pkg/sdk/plugin\<close>), with the locale \<open>registry\<close> shared by the
    service manager, the container and the plugin table.
  \<^item> \<open>Api_Server\<close>, \<open>Certsync\<close> (\<open>pkg/api\<close>): interceptors and handlers; the TLS configurations.
  \<^item> \<open>Daemon\<close>, \<open>Cli\<close>, \<open>Dashboard\<close>, \<open>Commands\<close> (\<open>cmd/aegisd\<close>, \<open>internal/logger\<close>, \<open>cmd/aegis\<close>): start-up, retention,
    shutdown; the client's commands as exit code and printed text; the status dashboard; the tree of
    commands with their flags and defaults.
  \<^item> \<open>Event_Flow\<close>: both correlation engines as the hooks of the telemetry pipeline, from \<open>Ingest\<close> to their timelines.
  \<^item> \<open>Monitors\<close> (\<open>internal/monitor/platform\<close>): the monitors of each platform beside router and event bus. They are
    stubs, and the theorem says that no run of a host gets an event from them.
  \<^item> \<open>Benchmark\<close> (\<open>internal/benchmark\<close>): loops that run for 200 milliseconds of a clock given as its sequence of
    readings, the stopping of the telemetry worker after its loop, and the report of the rates.

  State and operations. A struct is a record whose fields have the code's names behind a short
  prefix, and a method is a function of the same name that takes and returns the state. Where the
  code shares objects by pointer (router events, correlation nodes) the heap is explicit. A
  goroutine is a step function over labels, and a run is a list of labels, so that a statement
  about all runs covers all interleavings; a mutex makes the operation it guards one step.

  What is outside the repository is an argument: the SQL driver and its failures, the operating
  system (\<open>pgrep\<close>, signals, \<open>iptables\<close>, files), clocks, random bytes, SHA-256, AES-GCM, JSON, YAML, YARA,
  WASM, HTTP, the terminal library. Where a theorem relies on one of them, a predicate states its
  documented behaviour (\<open>unix_os\<close>, \<open>opens_sealed\<close>, \<open>random_ok\<close>, \<open>slice_sort\<close>, \<open>crypto_ok\<close>, ...), and its witness
  gives a concrete instance.

  What is shown. Conservation: no event is lost, reordered or owned twice in router and pipeline, and
  the counters are exact modulo \<open>2 ^ 64\<close>. Invariants: the schema, pool ownership, event types.
  Functional behaviour: when an alert is raised, which process tree a kill removes, what a
  timeline, a hunt, a trace, a policy lookup, a sync and a diagnosis return. End to end: an event with a
  listed hash scores enough to have its process tree killed (and never enough for the shipped threshold), an
  attempt on the agent's files is found by a later hunt, every flushed event reaches both engines. Refinement and
  equivalence: deduplication, Sigma matching, hunting. Round trips: memory maps, CSV
  reports, indicators. Safety: containment needs the token, evidence survives
  pruning (which spares every row that belongs to a process with an alert), quarantine loses no content. Errors: where the code does not do what it means to, a theorem
  says so (a PID cut to 32 bits, cycles of policies or processes that never return, a retry that
  is taken for a duplicate, a replay that restores nothing, and time windows and retention that are off by the
  zone's offset from UTC).

  Recursion and fuel. A recursion of the code that follows pointers or the process table takes its depth as
  fuel and returns \<open>None\<close> when it runs out. Enough fuel is proved to give a result: the number of operations
  for both correlation engines, the height of the process table for \<open>unix_KillTree\<close>, the length of the chain
  of parents for \<open>EvaluateRule\<close>; where no fuel is enough (a cycle), that is the theorem. The loop of
  \<open>trace\<close> is a \<open>partial_function\<close>, with an exact criterion for when it ends; the timed loops of the benchmark are
  one too, and end when the clock runs.

  Bounds. The lengths of batches (100), queues, streams (5000), the cache (10000) are those of
  the code. Numbers are words where they can wrap: counters, PIDs, epochs, the offset in
  minutes.

  Not modelled, and why:

  \<^item> \<open>pkg/api/aegis.pb.go\<close>, \<open>pkg/api/aegis_grpc.pb.go\<close>: generated from the protocol file.
  \<^item> Non-ASCII white space (\<open>strings.Fields\<close>), SQLite's side files, changes of the database between two queries of one trace.
  \<^item> Logging, time limits of calls, the parsing of arguments by the command line library, the wire format of gRPC.
  \<^item> Infinities, NaN and the sign of zero of \<open>float64\<close>; non-ASCII case mapping.
\<close>

section \<open>From the command line to the process table\<close>

text \<open>C1 (functional). \<open>aegis response kill\<close>, end to end: when the daemon has started and the client runs with the
  same configuration, the command ends; it kills exactly the tree of the process whose PID is the
  argument's lowest 32 bits as a signed number, and exits with 0 exactly if that process was
  alive; if that number is not positive, the command fails and changes nothing. So a PID
  beyond 32 bits hits another process.\<close>

theorem kill_command_spec:
  assumes started: "daemon_start env drv rows os fuel qenv loaded (fs, dbs) = (Running dm, fs', dbs')"
    and env: "random_ok env" "de_write_token env = None"
    and conn: "getGRPCClient None None loaded fs' = Ok cl"
    and os: "unix_os os view" "ranked rank N (view (ho_sys h))" "rank (signed_take_bit 31 pid) \<le> N" "N < fuel"
  shows "\<exists>code printed h'. kill_command pid (Ok cl) (Some dm) h = Some ((code, printed), h')
    \<and> (if 0 < signed_take_bit 31 pid
       then (code = 0) = (signed_take_bit 31 pid \<in> fst ` set (view (ho_sys h)))
         \<and> view (ho_sys h') = filter (\<lambda>e. fst e \<notin> descendants (view (ho_sys h)) (signed_take_bit 31 pid)) (view (ho_sys h))
         \<and> ho_files h' = ho_files h
       else code = 1 \<and> h' = h)"
proof -
  let ?q = "signed_take_bit 31 pid"
  have q: "sint (word_of_int pid :: int32) = ?q" by (simp add: sint_sbintrunc')
  have dm: "dm_server dm = linux_server os fuel qenv (quarantine_key (daemon_config loaded))
      (Some (rows (dbs' ''telemetry.db''))) (sv_token (dm_server dm))"
    using daemon_started [OF started] by (simp add: linux_server_def NewServer_def)
  have run: "kill_command pid (Ok cl) (Some dm) h = map_option (\<lambda>(r, h'). (case r of
        Inl err \<Rightarrow> (1, ''Error: '' @ ''action'' @ '' execution failed: '' @ err @ [newline])
      | Inr res \<Rightarrow> (0, ''Success: '' @ rs_Message res @ [newline]), h'))
      (TriggerResponse (dm_server dm) \<lparr>rq_Action = ''kill'', rq_TargetPid = word_of_int pid, rq_TargetFile = []\<rparr> h)"
    by (simp add: kill_command_def response_command_def client_connected(1) [OF started env conn] case_prod_beta)
  show ?thesis
  proof (cases "0 < ?q")
    case True
    obtain r s' where k: "unix_KillTree os fuel ?q (ho_sys h) = Some (r, s')"
      "is_ok r = (?q \<in> fst ` set (view (ho_sys h)))"
      "view s' = filter (\<lambda>e. fst e \<notin> descendants (view (ho_sys h)) ?q) (view (ho_sys h))"
      using KillTree_view [OF os(1-3), of fuel] os(4) by (auto simp: without_def)
    show ?thesis
      unfolding run by (subst dm, cases r) (use k True in \<open>simp_all add: TriggerResponse_def linux_server_def NewServer_def executed_def q\<close>)
  next
    case False
    then show ?thesis
      unfolding run by (subst dm) (simp add: TriggerResponse_def linux_server_def NewServer_def q)
  qed
qed

theorem kill_command_spec_witness:
  "\<exists>cl printed h'. kill_command 4294967306 (Ok cl) (Some sample_daemon) sample_host = Some ((0, printed), h')
     \<and> 10 \<notin> fst ` set (ho_sys h')"
proof -
  obtain fs dbs where started: "daemon_start sample_denv db_driver db_rows table_os 41 sample_qenv (Err ''no file'') (Map.empty, Map.empty)
     = (Running sample_daemon, fs, dbs)" using sample_started by blast
  obtain cl where conn: "getGRPCClient None None (Err ''no file'') fs = Ok cl" by (simp add: getGRPCClient_def Let_def)
  have q: "signed_take_bit 31 (4294967306 :: int) = 10" by code_simp
  have tbl: "ranked nat 40 (ho_sys sample_host)" "10 \<in> fst ` set (ho_sys sample_host)"
    by (simp_all add: ranked_def sample_table_def sample_host_def)
  have "de_write_token sample_denv = None" by (simp add: sample_denv_def)
  from kill_command_spec [OF started sample_random this conn table_os_unix, where rank = nat and h = sample_host and N = 40 and pid = 4294967306] tbl
  obtain printed h' where "kill_command 4294967306 (Ok cl) (Some sample_daemon) sample_host = Some ((0, printed), h')"
    "ho_sys h' = filter (\<lambda>e. fst e \<notin> descendants (ho_sys sample_host) 10) (ho_sys sample_host)"
    by (auto simp: q)
  moreover have "10 \<in> descendants (ho_sys sample_host) 10" by (simp add: descendants_def)
  ultimately show ?thesis by fastforce
qed

section \<open>From the store to the terminal\<close>

text \<open>Times whose second fits a 64-bit number, and numbers of minutes whose nanoseconds do.\<close>

abbreviation representable :: "go_time \<Rightarrow> bool" where
  "representable t \<equiv> 0 \<le> t \<and> t < 2 ^ 62 * second"

abbreviation max_minutes :: int where "max_minutes \<equiv> 153722867"

lemma minutes_back_exact: "0 \<le> m \<Longrightarrow> m \<le> max_minutes \<Longrightarrow> minutes_back m = - (m * 60 * second)"
proof -
  assume m: "0 \<le> m" "m \<le> max_minutes"
  have "(- word_of_int m * 60000000000 :: 64 word) = word_of_int (- (m * 60 * second))" by simp
  then have "minutes_back m = signed_take_bit 63 (- (m * 60 * second))"
    unfolding minutes_back_def by (simp only: sint_sbintrunc') simp
  with m show ?thesis by (simp add: signed_take_bit_int_eq_self)
qed

text \<open>One minute more wraps around: the start of the window is 292 years ahead.\<close>

lemma minutes_back_wraps: "minutes_back (max_minutes + 1) = 9223371993709551616"
  by code_simp

lemma epoch_roundtrip:
  assumes "- (2 ^ 61) * second \<le> t" "t < 2 ^ 62 * second"
  shows "time_of_Unix (sint (word_of_int (time_Unix_seconds t) :: int64)) = current_timestamp t"
proof -
  have "- (2 ^ 61) \<le> t div second" "t div second < 2 ^ 62" using assms by simp_all
  then have "- (2 ^ 63) \<le> time_Unix_seconds t" "time_Unix_seconds t < 2 ^ 63" by (simp_all add: time_Unix_seconds_def)
  then have "sint (word_of_int (time_Unix_seconds t) :: int64) = time_Unix_seconds t"
    by (simp add: sint_sbintrunc' signed_take_bit_int_eq_self)
  then show ?thesis by (simp add: time_of_Unix_def time_Unix_seconds_def current_timestamp_def)
qed



section \<open>From a tampering write to the hunter\<close>

lemma row_printed:
  assumes "x \<in> set rs"
  shows "sublist (show_row x) (print_rows None heading show_row rs)"
proof -
  obtain xs ys where "rs = xs @ x # ys" using assms by (auto simp: in_set_conv_decomp)
  then have "print_rows None heading show_row rs
      = (heading @ [newline] @ concat (map show_row xs)) @ show_row x @ concat (map show_row ys)"
    by (simp add: print_rows_def)
  then show ?thesis by (simp only: sublist_appendI)
qed

text \<open>C4 (safety). A write to a file of the agent by a stored process leaves evidence that is always
  found: once the router has flushed the batch with the event, then whatever the store is
  asked to do afterwards - inserts, refused statements, prunes with whatever cutoff - hunting by risk up to
  1 in that database prints the self-defense alert with the path.\<close>

theorem tampering_always_found:
  assumes "distinct batch" "a \<in> set batch" "tampering (rs_heap s a)"
    and "sint (re_ProcessID (rs_heap s a)) \<in> process_ids (rs_db s)"
    and "fe_begin env = None" "fe_commit env = None" "\<And>n. fe_exec env n = None"
    and "dbs (cli_db_path loaded) = store_run ops (rs_db (Event_Router.flushBatch env batch s))"
    and "hf_Ioc hf = []" "0 < hf_Risk hf" "hf_Risk hf \<le> 1"
  shows "\<exists>printed. hunt_command None None hf loaded dbs = (0, printed)
    \<and> sublist (''[AGENT_SELF_DEFENSE] Score: 1.00 - Unauthorized write/modify attempt detected on protected agent path: ''
        @ re_FilePath (rs_heap s a) @ [newline]) printed"
proof -
  let ?d = "store_run ops (rs_db (Event_Router.flushBatch env batch s))"
  obtain r where "r \<in> set (alert_logs (rs_db (Event_Router.flushBatch env batch s)))" and r: "self_defense_alert env (rs_heap s a) r"
    using flush_raises_alert [OF assms(1-7)] by blast
  then have "r \<in> set (filter (\<lambda>x. hf_Risk hf \<le> a_risk_score x) (alert_logs ?d))"
    using store_run_alerts assms(11) by (auto simp: self_defense_alert_def)
  then have "sublist (risk_line r)
      (print_rows None ''ALERTS BY RISK THRESHOLD:'' risk_line (filter (\<lambda>x. hf_Risk hf \<le> a_risk_score x) (alert_logs ?d)))"
    by (rule row_printed)
  moreover have "fmt_2f 1 = ''1.00''" by code_simp
  then have "risk_line r = ''[AGENT_SELF_DEFENSE] Score: 1.00 - Unauthorized write/modify attempt detected on protected agent path: ''
        @ re_FilePath (rs_heap s a) @ [newline]"
    using r by (simp add: risk_line_def self_defense_alert_def)
  ultimately show ?thesis
    using assms(8-11) by (simp add: hunt_command_def hunt_results_def)
qed

theorem tampering_always_found_witness:
  "\<exists>printed. hunt_command None None \<lparr>hf_Type = ''process'', hf_Query = [], hf_Risk = 1 / 2, hf_Mitre = [], hf_Ioc = []\<rparr> (Err ''no file'')
      (\<lambda>_. store_run [OpPrune (\<lambda>_. None) (in_zone UTC (900 * second))] (rs_db (Event_Router.flushBatch calm [2] (two_events\<lparr>rs_db := stored_shell\<rparr>)))) = (0, printed)
    \<and> printed \<noteq> []"
proof -
  have "tampering (rs_heap (two_events\<lparr>rs_db := stored_shell\<rparr>) 2)" using two_events_tampering by simp
  moreover have "sint (re_ProcessID (rs_heap (two_events\<lparr>rs_db := stored_shell\<rparr>) 2)) \<in> process_ids (rs_db (two_events\<lparr>rs_db := stored_shell\<rparr>))"
    by (simp add: stored_shell_ids two_events_def)
  ultimately obtain printed where "hunt_command None None \<lparr>hf_Type = ''process'', hf_Query = [], hf_Risk = 1 / 2, hf_Mitre = [], hf_Ioc = []\<rparr> (Err ''no file'')
      (\<lambda>_. store_run [OpPrune (\<lambda>_. None) (in_zone UTC (900 * second))] (rs_db (Event_Router.flushBatch calm [2] (two_events\<lparr>rs_db := stored_shell\<rparr>)))) = (0, printed)"
    and s: "sublist (''[AGENT_SELF_DEFENSE] Score: 1.00 - Unauthorized write/modify attempt detected on protected agent path: ''
        @ re_FilePath (rs_heap (two_events\<lparr>rs_db := stored_shell\<rparr>) 2) @ [newline]) printed"
    using tampering_always_found [where batch = "[2]" and a = 2 and s = "two_events\<lparr>rs_db := stored_shell\<rparr>" and env = calm
        and ops = "[OpPrune (\<lambda>_. None) (in_zone UTC (900 * second))]" and loaded = "Err ''no file''"
        and hf = "\<lparr>hf_Type = ''process'', hf_Query = [], hf_Risk = 1 / 2, hf_Mitre = [], hf_Ioc = []\<rparr>"
        and dbs = "\<lambda>_. store_run [OpPrune (\<lambda>_. None) (in_zone UTC (900 * second))] (rs_db (Event_Router.flushBatch calm [2] (two_events\<lparr>rs_db := stored_shell\<rparr>)))"]
    by (auto simp: calm_def)
  moreover have "printed \<noteq> []" using s by auto
  ultimately show ?thesis by blast
qed

section \<open>From a known hash to the process table\<close>

text \<open>C3 (functional). A score of detection drives mitigation, when a program that embeds the library passes it
  on (nothing in the repository does; the composition is that program's): an event whose hash is on the IOC list,
  run through any pipeline with normaliser and IOC stage, gets a score with which the policy engine, told
  to kill, kills exactly the tree of the event's process if its threshold is at most 0.89. And with a
  threshold above 1, as the shipped 8.5, the score of no event under no stages makes any policy engine act,
  whatever its actions, the details and the host.\<close>

theorem known_hash_mitigated:
  fixes iter
  defines "score \<equiv> \<lambda>stages e ch. CalculateCompoundScore (dc_EngineResults (ss_ctx (pipeline_Process iter stages e ch)))"
  assumes cfg: "pe_cfg pe = Some cfg"
  shows "(iocList (ToLower (TrimSpace (te_SHA256 e))) \<noteq> None
      \<and> unix_os os view \<and> ranked rank N (view (ho_sys h)) \<and> rank (sint (te_ProcessID e)) \<le> N \<and> N < fuel
      \<and> rc_AutoMitigation cfg \<and> rc_Actions cfg = [\<lparr>ac_Name = ''kill'', ac_Enabled = True\<rparr>]
      \<and> details ''pid'' = Some (DInt (sint (te_ProcessID e))) \<and> rc_RiskThreshold cfg \<le> 89 / 100 \<longrightarrow>
      (\<exists>r h'. EvaluateAndMitigate (linux_responders os fuel env) pe
            (score (NormalizerStage # mid @ IOCMatchingStage iocList # post) e ch) details h = Some (r, h')
        \<and> is_ok r = (sint (te_ProcessID e) \<in> fst ` set (view (ho_sys h)))
        \<and> view (ho_sys h') = filter (\<lambda>x. fst x \<notin> descendants (view (ho_sys h)) (sint (te_ProcessID e))) (view (ho_sys h))
        \<and> ho_files h' = ho_files h))
    \<and> (1 < rc_RiskThreshold cfg \<longrightarrow>
      (\<exists>msg. EvaluateAndMitigate responders pe (score stages e' ch') details' h' = Some (Ok msg, h')))"
proof (intro conjI impI; (elim conjE)?)
  let ?score = "score (NormalizerStage # mid @ IOCMatchingStage iocList # post) e ch"
  assume "iocList (ToLower (TrimSpace (te_SHA256 e))) \<noteq> None"
    and host: "unix_os os view" "ranked rank N (view (ho_sys h))" "rank (sint (te_ProcessID e)) \<le> N" "N < fuel"
    and kill: "rc_AutoMitigation cfg" "rc_Actions cfg = [\<lparr>ac_Name = ''kill'', ac_Enabled = True\<rparr>]"
      "details ''pid'' = Some (DInt (sint (te_ProcessID e)))" "rc_RiskThreshold cfg \<le> 89 / 100"
  then obtain label where listed: "iocList (ToLower (TrimSpace (te_SHA256 e))) = Some label" by blast
  obtain r s' where k: "unix_KillTree os fuel (sint (te_ProcessID e)) (ho_sys h) = Some (r, s')"
    "is_ok r = (sint (te_ProcessID e) \<in> fst ` set (view (ho_sys h)))"
    "view s' = filter (\<lambda>x. fst x \<notin> descendants (view (ho_sys h)) (sint (te_ProcessID e))) (view (ho_sys h))"
    using KillTree_view [OF host(1-3), of fuel] host(4) by (auto simp: without_def)
  have low: "89 / 100 \<le> ?score"
    unfolding score_def by (rule known_hash_score [where iocList = iocList and e = e and label = label, OF listed])
  show "\<exists>r h'. EvaluateAndMitigate (linux_responders os fuel env) pe ?score details h = Some (r, h')
        \<and> is_ok r = (sint (te_ProcessID e) \<in> fst ` set (view (ho_sys h)))
        \<and> view (ho_sys h') = filter (\<lambda>x. fst x \<notin> descendants (view (ho_sys h)) (sint (te_ProcessID e))) (view (ho_sys h))
        \<and> ho_files h' = ho_files h"
    using low cfg kill k by (cases r) (auto simp: EvaluateAndMitigate_def run_action_def linux_responders_def)
next
  assume "1 < rc_RiskThreshold cfg"
  moreover have "score stages e' ch' \<le> 1" unfolding score_def by (rule compound_score_in_unit)
  ultimately show "\<exists>msg. EvaluateAndMitigate responders pe (score stages e' ch') details' h' = Some (Ok msg, h')"
    using cfg by (auto simp: EvaluateAndMitigate_def)
qed

theorem known_hash_mitigated_witness:
  "\<exists>r h'. EvaluateAndMitigate (linux_responders table_os 41 sample_qenv) (NewPolicyEngine (Some kill_config))
      (CalculateCompoundScore (dc_EngineResults (ss_ctx (pipeline_Process id
        (NormalizerStage # [BehaviorAnalysisStage] @ IOCMatchingStage [''abc'' \<mapsto> ''dropper''] # [])
        (sample_detection_event\<lparr>te_ProcessID := 10\<rparr>) \<lparr>ac_queue = [], ac_cap = 4\<rparr>))))
      [''pid'' \<mapsto> DInt 10] sample_host = Some (r, h') \<and> is_ok r"
proof -
  let ?e = "sample_detection_event\<lparr>te_ProcessID := 10\<rparr>"
  have "[''abc'' \<mapsto> ''dropper''] (ToLower (TrimSpace (te_SHA256 ?e))) = Some ''dropper''" by code_simp
  moreover have "sint (te_ProcessID ?e) = 10" by code_simp
  moreover have "ranked nat 40 (ho_sys sample_host)" "10 \<in> fst ` set (ho_sys sample_host)"
    by (simp_all add: ranked_def sample_table_def sample_host_def)
  ultimately show ?thesis
    using known_hash_mitigated [where iocList = "[''abc'' \<mapsto> ''dropper'']" and e = ?e and iter = id
        and mid = "[BehaviorAnalysisStage]" and post = "[]" and ch = "\<lparr>ac_queue = [], ac_cap = 4\<rparr>" and os = table_os and view = id
        and rank = nat and N = 40 and h = sample_host and fuel = 41 and pe = "NewPolicyEngine (Some kill_config)"
        and cfg = kill_config and details = "[''pid'' \<mapsto> DInt 10]" and env = sample_qenv] table_os_unix
    by (auto simp: NewPolicyEngine_def kill_config_def)
qed

end
